(* ===== verification/Prelude.thy ===== *)
theory Prelude
  imports Main "HOL-Library.Char_ord" "HOL-Library.Multiset"
begin

text \<open>
  Shared vocabulary of the development: byte strings as Go has them, generic facts about
  lists searched and updated by name, and the collections the component proofs extend.
\<close>

section \<open>Collections\<close>

named_theorems ascii_defs \<open>byte classes of the name grammar and of the strings package\<close>
named_theorems frame_simps \<open>fields an operation leaves alone\<close>
named_theorems wp_simps \<open>weakest preconditions of the effect combinators\<close>
named_theorems wp_intros \<open>one rule per system call, one premise per ending\<close>

section \<open>Go strings\<close>

text \<open>A Go string is a byte sequence; \<open>char\<close> is HOL's 8-bit byte.\<close>

type_synonym gostring = string

abbreviation byte :: "char \<Rightarrow> nat" where
  "byte c \<equiv> of_char c"

abbreviation byte_of :: "nat \<Rightarrow> char" where
  "byte_of n \<equiv> char_of n"

section \<open>Lists\<close>

text \<open>The index of the first element that satisfies a predicate, as a Go range loop with
  \<open>break\<close> finds it.\<close>

fun find_index :: "('a \<Rightarrow> bool) \<Rightarrow> 'a list \<Rightarrow> nat option" where
  "find_index p [] = None"
| "find_index p (x # xs) = (if p x then Some 0 else map_option Suc (find_index p xs))"

lemma find_index_None: "find_index p xs = None \<longleftrightarrow> (\<forall>x \<in> set xs. \<not> p x)"
  by (induction xs) auto

lemma find_index_SomeD:
  "find_index p xs = Some i \<Longrightarrow> i < length xs \<and> p (xs ! i) \<and> (\<forall>j < i. \<not> p (xs ! j))"
  by (induction xs arbitrary: i) (auto split: if_splits simp: nth_Cons split: nat.splits)

text \<open>\<open>append(s[:i], s[i+1:]...)\<close>\<close>

definition remove_at :: "nat \<Rightarrow> 'a list \<Rightarrow> 'a list" where
  "remove_at i xs = take i xs @ drop (Suc i) xs"

lemma length_remove_at [simp]: "i < length xs \<Longrightarrow> length (remove_at i xs) = length xs - 1"
  by (simp add: remove_at_def)

lemma mset_remove_at:
  assumes "i < length xs"
  shows "mset (remove_at i xs) + {#xs ! i#} = mset xs"
proof -
  have "xs = take i xs @ xs ! i # drop (Suc i) xs"
    using assms by (simp add: id_take_nth_drop)
  then have "mset xs = mset (take i xs @ xs ! i # drop (Suc i) xs)" by simp
  then show ?thesis by (simp add: remove_at_def)
qed

lemma mset_put_back: "i < length xs \<Longrightarrow> mset (remove_at i xs @ [xs ! i]) = mset xs"
  using mset_remove_at [of i xs] by simp

lemma set_put_back: "i < length xs \<Longrightarrow> set (remove_at i xs @ [xs ! i]) = set xs"
  by (rule mset_eq_setD) (rule mset_put_back)

section \<open>Runs of operations\<close>

text \<open>
  A component driven by requests: \<open>step\<close> performs one and says whether the component is
  still alive. What every single request keeps holds after any sequence of them.
\<close>

locale request_machine =
  fixes step :: "'o \<Rightarrow> 's \<Rightarrow> bool \<times> 's"
    and inv :: "'s \<Rightarrow> bool"
  assumes step_inv: "inv s \<Longrightarrow> inv (snd (step req s))"
begin

fun run :: "'o list \<Rightarrow> 's \<Rightarrow> 's" where
  "run [] s = s"
| "run (req # reqs) s = (case step req s of (alive, s') \<Rightarrow> if alive then run reqs s' else s')"

lemma run_inv: "inv s \<Longrightarrow> inv (run reqs s)"
proof (induction reqs arbitrary: s)
  case (Cons req reqs)
  from step_inv [OF Cons.prems, of req] Cons.IH show ?case
    by (auto split: prod.splits)
qed simp

end

end
