(* ===== verification/GoStr.thy ===== *)
theory GoStr
  imports Prelude
begin

text \<open>
  The parts of Go's standard library that the program's string handling rests on: UTF-8
  decoding as \<open>range\<close> over a string does it, \<open>strings.HasPrefix\<close>, \<open>TrimSpace\<close>,
  \<open>TrimRight\<close>, \<open>Index\<close>, \<open>LastIndex\<close>, \<open>ToLower\<close>, the \<open>%d\<close> verb of \<open>fmt\<close>
  and \<open>url.QueryUnescape\<close>. Strings are byte lists throughout, so a length is Go's \<open>len\<close>.
\<close>

section \<open>UTF-8\<close>

definition rune_error :: nat where "rune_error = 0xFFFD"

definition utf8_cont :: "nat \<Rightarrow> nat \<Rightarrow> char \<Rightarrow> bool" where
  "utf8_cont lo hi c \<longleftrightarrow> lo \<le> byte c \<and> byte c \<le> hi"

definition low6 :: "char \<Rightarrow> nat" where "low6 c = byte c - 0x80"

text \<open>\<open>utf8.DecodeRuneInString\<close>: the rune at the head and its width; an invalid encoding
  is \<open>U+FFFD\<close> of width 1, the empty string width 0.\<close>

definition decode_rune :: "gostring \<Rightarrow> nat \<times> nat" where
  "decode_rune s = (case s of [] \<Rightarrow> (rune_error, 0)
   | c0 # t \<Rightarrow> (let b0 = byte c0 in
       if b0 < 0x80 then (b0, 1)
       else if 0xC2 \<le> b0 \<and> b0 \<le> 0xDF then
         (case t of c1 # _ \<Rightarrow>
            if utf8_cont 0x80 0xBF c1 then ((b0 - 0xC0) * 64 + low6 c1, 2) else (rune_error, 1)
          | _ \<Rightarrow> (rune_error, 1))
       else if 0xE0 \<le> b0 \<and> b0 \<le> 0xEF then
         (case t of c1 # c2 # _ \<Rightarrow>
            if utf8_cont (if b0 = 0xE0 then 0xA0 else 0x80) (if b0 = 0xED then 0x9F else 0xBF) c1
               \<and> utf8_cont 0x80 0xBF c2
            then ((b0 - 0xE0) * 4096 + low6 c1 * 64 + low6 c2, 3) else (rune_error, 1)
          | _ \<Rightarrow> (rune_error, 1))
       else if 0xF0 \<le> b0 \<and> b0 \<le> 0xF4 then
         (case t of c1 # c2 # c3 # _ \<Rightarrow>
            if utf8_cont (if b0 = 0xF0 then 0x90 else 0x80) (if b0 = 0xF4 then 0x8F else 0xBF) c1
               \<and> utf8_cont 0x80 0xBF c2 \<and> utf8_cont 0x80 0xBF c3
            then ((b0 - 0xF0) * 262144 + low6 c1 * 4096 + low6 c2 * 64 + low6 c3, 4)
            else (rune_error, 1)
          | _ \<Rightarrow> (rune_error, 1))
       else (rune_error, 1)))"

text \<open>The runes a \<open>for _, r := range s\<close> loop visits.\<close>

fun runes :: "gostring \<Rightarrow> nat list" where
  "runes [] = []"
| "runes (c # cs) = (case decode_rune (c # cs) of (r, n) \<Rightarrow> r # runes (drop (n - 1) cs))"

text \<open>\<open>utf8.DecodeLastRuneInString\<close>: back up over at most three continuation bytes, and
  accept the rune only if it ends exactly at the end of the string.\<close>

definition rune_start :: "char \<Rightarrow> bool" where
  "rune_start c \<longleftrightarrow> byte c < 0x80 \<or> 0xC0 \<le> byte c"

definition decode_last_rune :: "gostring \<Rightarrow> nat \<times> nat" where
  "decode_last_rune s = (if s = [] then (rune_error, 0)
   else if byte (last s) < 0x80 then (byte (last s), 1)
   else (let n = length s;
             start = (case find (\<lambda>i. rune_start (s ! i)) (rev [n - 4..<n - 1]) of
                        Some i \<Rightarrow> i | None \<Rightarrow> n - 5);
             (r, size) = decode_rune (drop start s)
         in if start + size = n then (r, size) else (rune_error, 1)))"

section \<open>The strings package\<close>

definition has_prefix :: "gostring \<Rightarrow> gostring \<Rightarrow> bool" where
  "has_prefix s p \<longleftrightarrow> take (length p) s = p"

text \<open>\<open>unicode.IsSpace\<close>: the Latin-1 blanks and the rest of \<open>White_Space\<close>.\<close>

definition is_space :: "nat \<Rightarrow> bool" where
  "is_space r \<longleftrightarrow> (9 \<le> r \<and> r \<le> 13) \<or> r = 32 \<or> r = 0x85 \<or> r = 0xA0 \<or> r = 0x1680
     \<or> (0x2000 \<le> r \<and> r \<le> 0x200A) \<or> r = 0x2028 \<or> r = 0x2029 \<or> r = 0x202F \<or> r = 0x205F
     \<or> r = 0x3000"

fun trim_left_space :: "gostring \<Rightarrow> gostring" where
  "trim_left_space [] = []"
| "trim_left_space (c # cs) = (case decode_rune (c # cs) of (r, n) \<Rightarrow>
     if is_space r then trim_left_space (drop (n - 1) cs) else c # cs)"

function trim_right_space :: "gostring \<Rightarrow> gostring" where
  "trim_right_space s = (if s = [] then [] else
     (case decode_last_rune s of (r, n) \<Rightarrow>
        if is_space r then trim_right_space (take (length s - max 1 n) s) else s))"
  by pat_completeness auto
termination
  by (relation "measure length") auto

declare trim_right_space.simps [simp del]

definition trim_space :: "gostring \<Rightarrow> gostring" where
  "trim_space s = trim_right_space (trim_left_space s)"

text \<open>\<open>strings.TrimRight\<close> with an ASCII cutset.\<close>

definition trim_right_set :: "char set \<Rightarrow> gostring \<Rightarrow> gostring" where
  "trim_right_set cs s = rev (dropWhile (\<lambda>c. c \<in> cs) (rev s))"

text \<open>\<open>strings.Index\<close> and \<open>strings.LastIndex\<close> with a one-byte needle; \<open>None\<close> is -1.\<close>

definition index_byte :: "gostring \<Rightarrow> char \<Rightarrow> nat option" where
  "index_byte s c = find_index (\<lambda>x. x = c) s"

definition last_index_byte :: "gostring \<Rightarrow> char \<Rightarrow> nat option" where
  "last_index_byte s c =
     map_option (\<lambda>i. length s - 1 - i) (find_index (\<lambda>x. x = c) (rev s))"

text \<open>
  \<open>unicode.ToLower\<close> where the program can see it: ASCII capitals, and the two runes outside
  ASCII whose lower case is inside it (I with dot above, the Kelvin sign). Every other
  rune above \<open>0x7F\<close> lowers to a rune above \<open>0x7F\<close>, which \<open>normalize\<close> treats like the
  rune itself, so it is left alone here.
\<close>

definition rune_lower :: "nat \<Rightarrow> nat" where
  "rune_lower r = (if 65 \<le> r \<and> r \<le> 90 then r + 32
     else if r = 0x130 then 105 else if r = 0x212A then 107 else r)"

section \<open>Decimal rendering\<close>

definition digit :: "nat \<Rightarrow> char" where "digit d = ''0123456789'' ! d"

fun dec :: "nat \<Rightarrow> gostring" where
  "dec n = (if n < 10 then [digit n] else dec (n div 10) @ [digit (n mod 10)])"

declare dec.simps [simp del]

text \<open>\<open>%d\<close> of a Go \<open>int\<close>.\<close>

definition dec_int :: "int \<Rightarrow> gostring" where
  "dec_int i = (if i < 0 then CHR ''-'' # dec (nat (- i)) else dec (nat i))"

section \<open>url.QueryUnescape\<close>

definition is_hex :: "char \<Rightarrow> bool" where
  "is_hex c \<longleftrightarrow> (48 \<le> byte c \<and> byte c \<le> 57) \<or> (97 \<le> byte c \<and> byte c \<le> 102)
     \<or> (65 \<le> byte c \<and> byte c \<le> 70)"

definition unhex :: "char \<Rightarrow> nat" where
  "unhex c = (if 48 \<le> byte c \<and> byte c \<le> 57 then byte c - 48
     else if 97 \<le> byte c \<and> byte c \<le> 102 then byte c - 97 + 10
     else if 65 \<le> byte c \<and> byte c \<le> 70 then byte c - 65 + 10 else 0)"

text \<open>\<open>None\<close> is the \<open>EscapeError\<close>: a percent sign without two hexadecimal digits.\<close>

fun query_unescape :: "gostring \<Rightarrow> gostring option" where
  "query_unescape [] = Some []"
| "query_unescape (c # cs) =
     (if c = CHR ''%'' then
        (case cs of a # b # r \<Rightarrow>
           if is_hex a \<and> is_hex b
           then map_option ((#) (byte_of (16 * unhex a + unhex b))) (query_unescape r) else None
         | _ \<Rightarrow> None)
      else map_option ((#) (if c = CHR ''+'' then CHR '' '' else c)) (query_unescape cs))"

section \<open>Facts the components use\<close>

lemma find_index_eq_appendI:
  "\<not> (\<exists>x \<in> set xs. p x) \<Longrightarrow> p y \<Longrightarrow> find_index p (xs @ y # ys) = Some (length xs)"
  by (induction xs) auto

lemma has_prefix_append: "has_prefix s p \<longleftrightarrow> (\<exists>t. s = p @ t)"
  by (metis append_eq_conv_conj append_take_drop_id has_prefix_def)

definition is_digit :: "char \<Rightarrow> bool" where
  "is_digit c \<longleftrightarrow> c \<in> set ''0123456789''"

lemma digit_is_digit: "d < 10 \<Longrightarrow> is_digit (digit d)"
  unfolding digit_def is_digit_def by (rule nth_mem) simp

lemma digit_byte: "is_digit c \<Longrightarrow> 48 \<le> byte c \<and> byte c \<le> 57"
  unfolding is_digit_def by (simp only: list.set insert_iff empty_iff) (elim disjE, simp_all)

lemma digit_inj: "d < 10 \<Longrightarrow> e < 10 \<Longrightarrow> digit d = digit e \<longleftrightarrow> d = e"
  unfolding digit_def by (rule nth_eq_iff_index_eq) simp_all

lemma dec_digits: "\<forall>c \<in> set (dec n). is_digit c"
proof (induction n rule: dec.induct)
  case (1 n)
  then show ?case
    by (cases "n < 10") (simp_all add: dec.simps [of n] digit_is_digit)
qed

lemma dec_nonempty [simp]: "dec n \<noteq> []" "[] \<noteq> dec n"
  by (subst dec.simps, simp)+

lemma dec_length: "n < 10 ^ k \<Longrightarrow> 0 < k \<Longrightarrow> length (dec n) \<le> k"
proof (induction n arbitrary: k rule: dec.induct)
  case (1 n)
  show ?case
  proof (cases "n < 10")
    case True
    with "1.prems" show ?thesis by (subst dec.simps) simp
  next
    case False
    from "1.prems"(2) obtain j where k: "k = Suc j" by (cases k) auto
    have j: "0 < j" using "1.prems" False k by (cases j) auto
    have "n div 10 < 10 ^ j"
      using "1.prems" k by (simp add: less_mult_imp_div_less mult.commute)
    from "1.IH" [OF False this j] False k show ?thesis by (subst dec.simps) simp
  qed
qed

lemma dec_inj: "dec m = dec n \<longleftrightarrow> m = n"
proof (induction m arbitrary: n rule: dec.induct)
  case (1 m)
  consider "m < 10" "n < 10" | "m < 10" "\<not> n < 10" | "\<not> m < 10" "n < 10"
    | "\<not> m < 10" "\<not> n < 10" by blast
  then show ?case
  proof cases
    case 4
    then have "dec m = dec n \<longleftrightarrow> m div 10 = n div 10 \<and> digit (m mod 10) = digit (n mod 10)"
      using "1.IH" [of "n div 10"] by (simp add: dec.simps [of m] dec.simps [of n])
    also have "\<dots> \<longleftrightarrow> m = n"
      using digit_inj [of "m mod 10" "n mod 10"] by (simp, metis div_mult_mod_eq)
    finally show ?thesis .
  qed (use digit_inj [of m n] in \<open>auto simp: dec.simps [of m] dec.simps [of n]\<close>)
qed

lemma trim_right_set_last:
  assumes "trim_right_set cs s \<noteq> []"
  shows "last (trim_right_set cs s) \<notin> cs"
proof -
  from assms have "dropWhile (\<lambda>c. c \<in> cs) (rev s) \<noteq> []" by (simp add: trim_right_set_def)
  from hd_dropWhile [OF this] show ?thesis by (simp add: trim_right_set_def last_rev)
qed

lemma set_trim_right_set: "set (trim_right_set cs s) \<subseteq> set s"
  unfolding trim_right_set_def by (auto dest: set_dropWhileD)

lemma last_index_byte_None [simp]: "last_index_byte s c = None \<longleftrightarrow> c \<notin> set s"
  by (auto simp: last_index_byte_def find_index_None)

lemma last_index_byte_append:
  "c \<notin> set t \<Longrightarrow> last_index_byte (s @ c # t) c = Some (length s)"
  using find_index_eq_appendI [of "rev t" "\<lambda>x. x = c" c "rev s"]
  by (auto simp: last_index_byte_def)

lemma index_byte_append: "c \<notin> set s \<Longrightarrow> index_byte (s @ c # t) c = Some (length s)"
  using find_index_eq_appendI [of s "\<lambda>x. x = c" c t] by (auto simp: index_byte_def)

lemma index_byte_None [simp]: "index_byte s c = None \<longleftrightarrow> c \<notin> set s"
  by (auto simp: index_byte_def find_index_None)

text \<open>A string whose first and last bytes are ASCII and no blanks is already trimmed.\<close>

lemma trim_space_id:
  assumes "s \<noteq> []" "byte (hd s) < 0x80" "\<not> is_space (byte (hd s))"
    "byte (last s) < 0x80" "\<not> is_space (byte (last s))"
  shows "trim_space s = s"
proof -
  have "trim_left_space s = s"
    using assms by (cases s) (simp_all add: decode_rune_def Let_def)
  moreover have "trim_right_space s = s"
    using assms by (subst trim_right_space.simps) (simp add: decode_last_rune_def)
  ultimately show ?thesis by (simp add: trim_space_def)
qed

end
