(* ===== verification/Keyname.thy ===== *)
theory Keyname
  imports GoStr
begin

text \<open>
  The names of stored keys (\<open>internal/keystore/keystore.go\<close>, helpers): the grammar a name
  must match, the label carried by an \<open>ss://\<close> URL, and the name derived from a label. The
  lemmas show that a derived name is always valid and, below the loop's bound, always fresh.
\<close>

section \<open>The name grammar\<close>

definition maxNameLen :: nat where "maxNameLen = 32"

definition alnum :: "nat \<Rightarrow> bool" where
  [ascii_defs]: "alnum r \<longleftrightarrow> (97 \<le> r \<and> r \<le> 122) \<or> (48 \<le> r \<and> r \<le> 57)"

definition name_start :: "char \<Rightarrow> bool" where
  [ascii_defs]: "name_start c \<longleftrightarrow> alnum (byte c)"

definition name_char :: "char \<Rightarrow> bool" where
  [ascii_defs]: "name_char c \<longleftrightarrow> alnum (byte c) \<or> c = CHR ''_'' \<or> c = CHR ''-''"

text \<open>The regular expression \<open>^[a-z0-9][a-z0-9_-]{0,31}$\<close>.\<close>

fun nameOK :: "gostring \<Rightarrow> bool" where
  "nameOK [] = False"
| "nameOK (c # cs) = (name_start c \<and> list_all name_char cs \<and> length cs \<le> 31)"

datatype name_error = NameRequired | NameTooLong | NameMismatch gostring

definition validateName :: "gostring \<Rightarrow> name_error + unit" where
  "validateName name =
     (if name = [] then Inl NameRequired
      else if length name > maxNameLen then Inl NameTooLong
      else if \<not> nameOK name then Inl (NameMismatch name)
      else Inr ())"

section \<open>Labels\<close>

definition extractLabel :: "gostring \<Rightarrow> gostring" where
  "extractLabel ssURL =
     (case last_index_byte ssURL CHR ''#'' of
        None \<Rightarrow> []
      | Some i \<Rightarrow> (let raw = drop (i + 1) ssURL in
          case query_unescape raw of Some d \<Rightarrow> d | None \<Rightarrow> raw))"

section \<open>Normalisation\<close>

text \<open>The builder and the \<open>lastDash\<close> flag of the loop in \<open>normalize\<close>.\<close>

fun norm_step :: "gostring \<times> bool \<Rightarrow> nat \<Rightarrow> gostring \<times> bool" where
  "norm_step (b, lastDash) r =
     (if alnum r then (b @ [byte_of r], False)
      else if r = 95 then (b @ [byte_of r], False)
      else if \<not> lastDash \<and> length b > 0 then (b @ [CHR ''-''], True)
      else (b, lastDash))"

definition normalize :: "gostring \<Rightarrow> gostring" where
  "normalize s =
     (let rs = map rune_lower (runes (trim_space s));
          b = fst (foldl norm_step ([], False) rs);
          out = trim_right_set {CHR ''-'', CHR ''_''} b;
          cut = (if length out > maxNameLen then take maxNameLen out else out)
      in dropWhile (\<lambda>c. \<not> name_start c) cut)"

section \<open>Derived names\<close>

definition candidate :: "gostring \<Rightarrow> nat \<Rightarrow> gostring" where
  "candidate base i =
     (let c = base @ CHR ''-'' # dec i
      in if length c > maxNameLen then ''key-'' @ dec i else c)"

function derive_loop :: "gostring \<Rightarrow> gostring list \<Rightarrow> nat \<Rightarrow> gostring" where
  "derive_loop base names i =
     (if i < 10000 then
        (if candidate base i \<notin> set names \<and> nameOK (candidate base i) then candidate base i
         else derive_loop base names (i + 1))
      else ''key'')"
  by pat_completeness auto
termination
  by (relation "measure (\<lambda>(_, _, i). 10000 - i)") auto

declare derive_loop.simps [simp del]

text \<open>\<open>existing\<close> is the list of the stored keys' names.\<close>

definition deriveName :: "gostring \<Rightarrow> gostring list \<Rightarrow> gostring" where
  "deriveName label existing =
     (let n = normalize label; base = (if n = [] then ''key'' else n)
      in if base \<notin> set existing \<and> nameOK base then base else derive_loop base existing 1)"

section \<open>Validity\<close>

lemma nameOK_alt:
  "nameOK n \<longleftrightarrow> n \<noteq> [] \<and> name_start (hd n) \<and> list_all name_char n \<and> length n \<le> maxNameLen"
  by (cases n) (auto simp: ascii_defs maxNameLen_def)

lemma validateName_ok: "validateName n = Inr () \<longleftrightarrow> nameOK n"
  by (auto simp: validateName_def nameOK_alt split: if_splits)

lemma validateName_Inr: "validateName n = Inr u \<longleftrightarrow> nameOK n"
  using validateName_ok [of n] by (cases u) simp

lemma nameOK_key: "nameOK ''key''"
  by (simp add: ascii_defs)

lemma name_char_digit: "is_digit c \<Longrightarrow> name_char c"
  by (drule digit_byte) (simp add: name_char_def alnum_def)

lemma name_char_alnum: "alnum r \<Longrightarrow> name_char (byte_of r)"
  by (auto simp: ascii_defs)

lemma name_char_underscore: "name_char (byte_of 95)"
proof -
  have "byte CHR ''_'' = 95" by simp
  then have "byte_of 95 = CHR ''_''" by (metis char_of_char)
  then show ?thesis by (simp add: name_char_def)
qed

lemma norm_step_chars:
  "list_all name_char b \<Longrightarrow> list_all name_char (fst (norm_step (b, d) r))"
  by (simp add: name_char_alnum name_char_underscore) (simp add: name_char_def)

lemma foldl_norm_step_chars:
  "list_all name_char (fst st) \<Longrightarrow> list_all name_char (fst (foldl norm_step st rs))"
proof (induction rs arbitrary: st)
  case (Cons r rs)
  then show ?case
    using norm_step_chars [of "fst st" "snd st" r] by simp
qed simp

lemma list_all_dropWhile: "list_all p xs \<Longrightarrow> list_all p (dropWhile q xs)"
  by (auto simp: list_all_iff dest: set_dropWhileD)

lemma normalize_chars: "list_all name_char (normalize s)"
proof -
  let ?b = "fst (foldl norm_step ([], False) (map rune_lower (runes (trim_space s))))"
  have "list_all name_char ?b" by (rule foldl_norm_step_chars) simp
  then have "list_all name_char (trim_right_set {CHR ''-'', CHR ''_''} ?b)"
    using set_trim_right_set [of "{CHR ''-'', CHR ''_''}" ?b] by (auto simp: list_all_iff)
  then show ?thesis
    by (auto simp: normalize_def Let_def list_all_iff dest!: set_dropWhileD in_set_takeD)
qed

lemma normalize_length: "length (normalize s) \<le> maxNameLen"
  unfolding normalize_def Let_def
  by (rule order_trans [OF length_dropWhile_le]) (simp add: maxNameLen_def)

lemma normalize_start: "normalize s \<noteq> [] \<Longrightarrow> name_start (hd (normalize s))"
  unfolding normalize_def Let_def by (drule hd_dropWhile) simp

lemma normalize_nameOK: "normalize s \<noteq> [] \<Longrightarrow> nameOK (normalize s)"
  by (simp add: nameOK_alt normalize_chars normalize_length normalize_start)

lemma candidate_nameOK:
  assumes "nameOK base" "i < 10000"
  shows "nameOK (candidate base i)"
proof -
  have d: "list_all name_char (dec i)"
    using dec_digits [of i] by (auto simp: list_all_iff name_char_digit)
  have "length (dec i) \<le> 4" using dec_length [of i 4] assms(2) by simp
  with d assms(1) show ?thesis
    by (auto simp: candidate_def Let_def nameOK_alt maxNameLen_def ascii_defs)
qed

section \<open>Freshness\<close>

text \<open>Whatever the base, the digits after the last dash are the counter.\<close>

lemma candidate_form: "\<exists>pre. candidate base i = pre @ CHR ''-'' # dec i"
  by (cases "length (base @ CHR ''-'' # dec i) > maxNameLen")
    (auto simp: candidate_def Let_def intro: exI [of _ "''key''"])

lemma dec_no_dash: "CHR ''-'' \<notin> set (dec n)"
proof
  assume "CHR ''-'' \<in> set (dec n)"
  with dec_digits [of n] have "is_digit CHR ''-''" by blast
  then show False by (simp add: is_digit_def)
qed

lemma candidate_suffix:
  "takeWhile (\<lambda>c. c \<noteq> CHR ''-'') (rev (candidate base i)) = rev (dec i)"
proof -
  obtain pre where pre: "candidate base i = pre @ CHR ''-'' # dec i"
    using candidate_form [of base i] by blast
  have "takeWhile (\<lambda>c. c \<noteq> CHR ''-'') (rev (dec i) @ CHR ''-'' # rev pre)
      = rev (dec i) @ takeWhile (\<lambda>c. c \<noteq> CHR ''-'') (CHR ''-'' # rev pre)"
    by (rule takeWhile_append2) (use dec_no_dash [of i] in auto)
  then show ?thesis by (simp add: pre)
qed

lemma candidate_inj: "candidate b i = candidate b' j \<Longrightarrow> i = j"
  using candidate_suffix [of b i] candidate_suffix [of b' j] by (simp add: dec_inj)

lemma derive_loop_nameOK: "nameOK (derive_loop base names i)"
proof (induction base names i rule: derive_loop.induct)
  case (1 base names i)
  then show ?case
    using nameOK_key by (simp add: derive_loop.simps [of base names i])
qed

text \<open>The loop returns a fresh name as soon as one of the remaining candidates is free.\<close>

lemma derive_loop_fresh:
  assumes "nameOK base" "i \<le> j" "j < 10000" "candidate base j \<notin> set names"
  shows "derive_loop base names i \<notin> set names"
  using assms
proof (induction base names i rule: derive_loop.induct)
  case (1 base names i)
  then show ?case
    using candidate_nameOK [of base i]
    by (cases "i = j")
      (auto simp: derive_loop.simps [of base names i] derive_loop.simps [of base names j])
qed

text \<open>Pigeonhole: 9999 distinct candidates cannot all be taken by fewer names.\<close>

lemma candidate_free:
  assumes "length names < 9999"
  shows "\<exists>j. 1 \<le> j \<and> j < 10000 \<and> candidate base j \<notin> set names"
proof (rule ccontr)
  assume "\<not> ?thesis"
  then have "candidate base ` {1..<10000} \<subseteq> set names" by auto
  moreover have "inj_on (candidate base) {1..<10000}"
    by (rule inj_onI) (rule candidate_inj)
  ultimately have "card {1..<10000::nat} \<le> card (set names)"
    by (metis List.finite_set card_image card_mono)
  also have "\<dots> \<le> length names" by (rule card_length)
  finally show False using assms by simp
qed

lemma derived_base_nameOK: "nameOK (if normalize l = [] then ''key'' else normalize l)"
  using normalize_nameOK [of l] nameOK_key by simp

lemma deriveName_nameOK: "nameOK (deriveName label existing)"
  by (simp only: deriveName_def Let_def) (simp add: derive_loop_nameOK)

lemma deriveName_fresh:
  assumes "length existing < 9999"
  shows "deriveName label existing \<notin> set existing"
proof -
  let ?base = "if normalize label = [] then ''key'' else normalize label"
  obtain j where "1 \<le> j" "j < 10000" "candidate ?base j \<notin> set existing"
    using candidate_free [OF assms] by blast
  with derive_loop_fresh [OF derived_base_nameOK] have "derive_loop ?base existing 1 \<notin> set existing"
    by blast
  then show ?thesis by (auto simp: deriveName_def Let_def)
qed


text \<open>The loop stops at the first candidate that is free: after at most one step more than there
  are names.\<close>

lemma candidate_free_early:
  "\<exists>j. 1 \<le> j \<and> j \<le> length names + 1 \<and> candidate base j \<notin> set names"
proof (rule ccontr)
  assume "\<not> ?thesis"
  then have "candidate base ` {1..length names + 1} \<subseteq> set names" by auto
  moreover have "inj_on (candidate base) {1..length names + 1}" by (rule inj_onI) (rule candidate_inj)
  ultimately have "card {1..length names + 1} \<le> card (set names)"
    by (metis List.finite_set card_image card_mono)
  also have "\<dots> \<le> length names" by (rule card_length)
  finally show False by simp
qed

lemma derive_loop_stops:
  assumes "nameOK base" "i \<le> j" "j < 10000" "candidate base j \<notin> set names"
  shows "\<exists>m. i \<le> m \<and> m \<le> j \<and> derive_loop base names i = candidate base m \<and> candidate base m \<notin> set names
    \<and> (\<forall>l. i \<le> l \<and> l < m \<longrightarrow> candidate base l \<in> set names)"
  using assms
proof (induction base names i rule: derive_loop.induct)
  case (1 base names i)
  have ok: "nameOK (candidate base i)" using candidate_nameOK 1(2-4) by simp
  show ?case
  proof (cases "candidate base i \<in> set names")
    case True
    then have next_i: "derive_loop base names i = derive_loop base names (i + 1)" "i + 1 \<le> j"
      using 1(3-5) by (auto simp: derive_loop.simps [of base names i] le_less)
    obtain m where "i + 1 \<le> m" "m \<le> j" "derive_loop base names (i + 1) = candidate base m" "candidate base m \<notin> set names"
      "\<forall>l. i + 1 \<le> l \<and> l < m \<longrightarrow> candidate base l \<in> set names"
      using 1(1) [OF _ _ 1(2) next_i(2) 1(4,5)] 1(3,4) True by auto
    moreover have "candidate base l \<in> set names" if "i \<le> l" "l < m" for l
      using calculation(5) that True by (cases "l = i") simp_all
    ultimately show ?thesis using next_i by (intro exI [of _ m]) auto
  next
    case False
    then show ?thesis using ok 1(3,4)
      by (intro exI [of _ i]) (auto simp: derive_loop.simps [of base names i])
  qed
qed

end
