(* ===== verification/Json.thy ===== *)
theory Json
  imports GoStr
begin

text \<open>
  \<open>encoding/json\<close> at the level of values: a document is a tree, a Go struct is encoded
  member by member in declaration order (\<open>omitempty\<close> written out where the struct tags
  have it), and decoding walks the members of an object with Go's rules: a member name
  matches a field exactly or up to case folding, \<open>null\<close> leaves a field alone, a value of
  the wrong kind is an error, and an unknown member is an error where the decoder disallows
  it. Strings are coerced to valid UTF-8 when they are encoded.
\<close>

type_synonym time = int \<comment> \<open>nanoseconds; 0 is Go's zero time\<close>

datatype json =
    JNull
  | JBool bool
  | JInt int
  | JFrac                          \<comment> \<open>a number that is no integer\<close>
  | JStr gostring
  | JTime time                     \<comment> \<open>a string in the RFC 3339 form of \<open>time.Time\<close>\<close>
  | JArr "json list"
  | JObj "(gostring \<times> json) list"

section \<open>Strings\<close>

definition encode_rune :: "nat \<Rightarrow> gostring" where
  "encode_rune r =
     (if r < 0x80 then [byte_of r]
      else if r < 0x800 then [byte_of (0xC0 + r div 64), byte_of (0x80 + r mod 64)]
      else if r < 0x10000 then [byte_of (0xE0 + r div 4096),
             byte_of (0x80 + r div 64 mod 64), byte_of (0x80 + r mod 64)]
      else [byte_of (0xF0 + r div 262144), byte_of (0x80 + r div 4096 mod 64),
             byte_of (0x80 + r div 64 mod 64), byte_of (0x80 + r mod 64)])"

definition to_valid_utf8 :: "gostring \<Rightarrow> gostring" where
  "to_valid_utf8 s = concat (map encode_rune (runes s))"

definition jstr :: "gostring \<Rightarrow> json" where "jstr s = JStr (to_valid_utf8 s)"

text \<open>\<open>valid_utf8 s\<close>: encoding \<open>s\<close> loses nothing.\<close>

definition valid_utf8 :: "gostring \<Rightarrow> bool" where
  "valid_utf8 s \<longleftrightarrow> to_valid_utf8 s = s"

definition ascii :: "gostring \<Rightarrow> bool" where
  "ascii s \<longleftrightarrow> list_all (\<lambda>c. byte c < 0x80) s"

section \<open>Decoding into struct fields\<close>

datatype json_error = NotAnObject | WrongType gostring | UnknownField gostring

text \<open>Case folding of member names: ASCII letters, and the two runes that fold into ASCII.\<close>

definition fold_rune :: "nat \<Rightarrow> nat" where
  "fold_rune r = (if 97 \<le> r \<and> r \<le> 122 then r - 32
     else if r = 0x212A then 75 else if r = 0x17F then 83 else r)"

definition field_match :: "gostring \<Rightarrow> gostring \<Rightarrow> bool" where
  "field_match k f \<longleftrightarrow> k = f \<or> map fold_rune (runes k) = map fold_rune (runes f)"

definition dec_string :: "gostring \<Rightarrow> json \<Rightarrow> gostring \<Rightarrow> json_error + gostring" where
  "dec_string f j old = (case j of JNull \<Rightarrow> Inr old | JStr s \<Rightarrow> Inr s | _ \<Rightarrow> Inl (WrongType f))"

definition dec_int_field :: "gostring \<Rightarrow> json \<Rightarrow> int \<Rightarrow> json_error + int" where
  "dec_int_field f j old = (case j of JNull \<Rightarrow> Inr old
     | JInt i \<Rightarrow> (if - (2 ^ 63) \<le> i \<and> i < 2 ^ 63 then Inr i else Inl (WrongType f))
     | _ \<Rightarrow> Inl (WrongType f))"

definition dec_time :: "gostring \<Rightarrow> json \<Rightarrow> time \<Rightarrow> json_error + time" where
  "dec_time f j old = (case j of JNull \<Rightarrow> Inr old | JTime t \<Rightarrow> Inr t | _ \<Rightarrow> Inl (WrongType f))"

text \<open>The members of an object, one after the other, into a struct.\<close>

fun dec_members :: "(gostring \<Rightarrow> json \<Rightarrow> 'r \<Rightarrow> json_error + 'r) \<Rightarrow> (gostring \<times> json) list \<Rightarrow> 'r
    \<Rightarrow> json_error + 'r" where
  "dec_members f [] r = Inr r"
| "dec_members f ((k, v) # kvs) r =
     (case f k v r of Inl e \<Rightarrow> Inl e | Inr r' \<Rightarrow> dec_members f kvs r')"

text \<open>The elements of an array.\<close>

fun dec_elems :: "(json \<Rightarrow> json_error + 'r) \<Rightarrow> json list \<Rightarrow> json_error + 'r list" where
  "dec_elems f [] = Inr []"
| "dec_elems f (j # js) =
     (case f j of Inl e \<Rightarrow> Inl e
      | Inr x \<Rightarrow> (case dec_elems f js of Inl e \<Rightarrow> Inl e | Inr xs \<Rightarrow> Inr (x # xs)))"

lemma dec_elems_map:
  "(\<And>x. x \<in> set xs \<Longrightarrow> f (g x) = Inr x) \<Longrightarrow> dec_elems f (map g xs) = Inr xs"
  by (induction xs) auto

section \<open>ASCII survives encoding\<close>

lemma runes_ascii: "ascii s \<Longrightarrow> runes s = map byte s"
  by (induction s) (simp_all add: ascii_def decode_rune_def)

lemma encode_rune_ascii: "byte c < 0x80 \<Longrightarrow> encode_rune (byte c) = [c]"
  by (simp add: encode_rune_def)

lemma ascii_valid_utf8: "ascii s \<Longrightarrow> valid_utf8 s"
proof -
  assume a: "ascii s"
  then have "concat (map encode_rune (map byte s)) = s"
    by (induction s) (simp_all add: ascii_def encode_rune_ascii)
  then show ?thesis
    by (simp add: valid_utf8_def to_valid_utf8_def runes_ascii [OF a])
qed

lemma jstr_valid: "valid_utf8 s \<Longrightarrow> jstr s = JStr s"
  by (simp add: jstr_def valid_utf8_def)

text \<open>Member names are matched by comparing case-folded runes; the program's own are ASCII.\<close>

lemma field_match_ascii:
  "ascii k \<Longrightarrow> ascii f \<Longrightarrow>
     field_match k f \<longleftrightarrow> map (\<lambda>c. fold_rune (byte c)) k = map (\<lambda>c. fold_rune (byte c)) f"
  by (auto simp: field_match_def runes_ascii comp_def)

lemmas eval_fields = field_match_ascii ascii_def fold_rune_def

end
