(* ===== verification/OsWorld.thy ===== *)
theory OsWorld
  imports Json
begin

text \<open>
  The world the daemon runs in, and the effect type its code is written in. The world holds
  the files, the sysctl keys and the network state; every call into the operating system
  passes a scheduler, the environment's \<open>fate\<close>, which lets the call through, makes it fail,
  or kills the process at that very call. A theorem about every environment is therefore a
  theorem about every pattern of faults and every crash point. Third-party packages and
  command-line tools are fields of the environment: the model never says what they compute,
  and a theorem that needs their documented behaviour names it as a hypothesis.
\<close>

section \<open>Files and network state\<close>

type_synonym path = gostring

text \<open>A file holds plain bytes, a JSON document, or what an interrupted write left of one.\<close>

datatype fdata = Bytes gostring | Doc json | Partial fdata nat

datatype node = File fdata nat | Symlink path | Dir nat  \<comment> \<open>\<open>nat\<close>: the permission bits\<close>

record iproute =
  rt_table :: int
  rt_dst :: gostring      \<comment> \<open>empty for a default route\<close>
  rt_via :: gostring
  rt_dev :: gostring
  rt_src :: gostring
  rt_scope_link :: bool

record iprule =
  ru_priority :: int
  ru_table :: int
  ru_to :: gostring       \<comment> \<open>empty: every destination\<close>

record netstate =
  links :: "gostring set"
  rules :: "iprule multiset"
  routes :: "iproute set"

record world =
  fs :: "path \<Rightarrow> node option"
  sysctls :: "gostring \<Rightarrow> gostring option"
  net :: netstate
  clock :: nat

abbreviation mode_0600 :: nat where "mode_0600 \<equiv> 384"
abbreviation mode_0644 :: nat where "mode_0644 \<equiv> 420"
abbreviation mode_0660 :: nat where "mode_0660 \<equiv> 432"
abbreviation mode_0700 :: nat where "mode_0700 \<equiv> 448"
abbreviation mode_0755 :: nat where "mode_0755 \<equiv> 493"

datatype oserr = ENOENT | EEXIST | EIO | ENOTDIR | ELOOP | EINVAL | EBUSY

section \<open>The environment\<close>

text \<open>\<open>Deny n\<close> and \<open>Kill n\<close>: the call fails, or the process dies in it; a write has then
  put \<open>n\<close> bytes down, any other call has done nothing.\<close>

datatype verdict = Proceed | Deny nat | Kill nat

record env =
  fate :: "nat \<Rightarrow> verdict"
  now :: "nat \<Rightarrow> time"
  rnd :: "nat \<Rightarrow> gostring"
  sha256 :: "gostring \<Rightarrow> gostring"
  hostname :: gostring
  pid :: int
  json_text :: "json \<Rightarrow> gostring"    \<comment> \<open>how \<open>encoding/json\<close> and \<open>jq\<close> print a value\<close>
  have_tool :: "gostring \<Rightarrow> bool"     \<comment> \<open>what is on the search path\<close>
  panic_path :: path                 \<comment> \<open>where the panic script is installed\<close>
  \<comment> \<open>packages \<open>netlink\<close> and \<open>water\<close>\<close>
  parse_ipnet :: "gostring \<Rightarrow> (gostring \<times> gostring) option"  \<comment> \<open>the address, and the printed network\<close>
  tun_open :: "gostring \<Rightarrow> netstate \<Rightarrow> oserr + netstate"
  tun_close :: "gostring \<Rightarrow> netstate \<Rightarrow> netstate"
  addr_add :: "gostring \<Rightarrow> gostring \<Rightarrow> netstate \<Rightarrow> bool"
  link_set_up :: "gostring \<Rightarrow> netstate \<Rightarrow> bool"
  route_add :: "iproute \<Rightarrow> netstate \<Rightarrow> oserr + netstate"
  rule_add :: "iprule \<Rightarrow> netstate \<Rightarrow> oserr + netstate"
  \<comment> \<open>packages \<open>net/url\<close>, the resolver, and \<open>outline-sdk\<close>\<close>
  url_parts :: "gostring \<Rightarrow> (gostring \<times> gostring) option"   \<comment> \<open>scheme and host name\<close>
  lookup_ip :: "gostring \<Rightarrow> gostring option list option"       \<comment> \<open>\<open>None\<close> entry: no IPv4 form\<close>
  stream_dialer :: "gostring \<Rightarrow> bool"
  packet_listener :: "gostring \<Rightarrow> bool"
  sdk_ready :: "nat \<Rightarrow> bool"
  \<comment> \<open>the \<open>ip\<close> tool\<close>
  ip_rule_del :: "int \<Rightarrow> netstate \<Rightarrow> netstate"
  ip_route_flush :: "int \<Rightarrow> netstate \<Rightarrow> netstate"
  ip_link_del :: "gostring \<Rightarrow> netstate \<Rightarrow> oserr + netstate"

section \<open>Effects\<close>

text \<open>A call returns, returns a Go error, or never returns because the process is gone.\<close>

datatype ('e, 'a) outcome = Ret 'a | Throw 'e | Dead

type_synonym ('s, 'e, 'a) act = "'s \<Rightarrow> ('e, 'a) outcome \<times> 's"

definition ret :: "'a \<Rightarrow> ('s, 'e, 'a) act" where
  "ret a s = (Ret a, s)"

definition throw :: "'e \<Rightarrow> ('s, 'e, 'a) act" where
  "throw e s = (Throw e, s)"

definition bindA :: "('s, 'e, 'a) act \<Rightarrow> ('a \<Rightarrow> ('s, 'e, 'b) act) \<Rightarrow> ('s, 'e, 'b) act" where
  "bindA m f s = (case m s of (Ret a, s') \<Rightarrow> f a s' | (Throw e, s') \<Rightarrow> (Throw e, s')
     | (Dead, s') \<Rightarrow> (Dead, s'))"

text \<open>\<open>if err := m(); err != nil { return fmt.Errorf("...: %w", err) }\<close>\<close>

definition mapE :: "('e \<Rightarrow> 'f) \<Rightarrow> ('s, 'e, 'a) act \<Rightarrow> ('s, 'f, 'a) act" where
  "mapE f m s = (case m s of (Ret a, s') \<Rightarrow> (Ret a, s') | (Throw e, s') \<Rightarrow> (Throw (f e), s')
     | (Dead, s') \<Rightarrow> (Dead, s'))"

text \<open>\<open>_ = m()\<close>: the error is dropped.\<close>

definition ignoreA :: "('s, 'e, 'a) act \<Rightarrow> ('s, 'f, unit) act" where
  "ignoreA m s = (case m s of (Ret a, s') \<Rightarrow> (Ret (), s') | (Throw e, s') \<Rightarrow> (Ret (), s')
     | (Dead, s') \<Rightarrow> (Dead, s'))"

text \<open>\<open>v, err := m()\<close> with the error inspected by the code that follows.\<close>

definition attempt :: "('s, 'e, 'a) act \<Rightarrow> ('s, 'f, 'e + 'a) act" where
  "attempt m s = (case m s of (Ret a, s') \<Rightarrow> (Ret (Inr a), s') | (Throw e, s') \<Rightarrow> (Ret (Inl e), s')
     | (Dead, s') \<Rightarrow> (Dead, s'))"

text \<open>\<open>if err := m(); err != nil { h(); return err }\<close>\<close>

definition onErr :: "('s, 'e, unit) act \<Rightarrow> ('s, 'e, 'a) act \<Rightarrow> ('s, 'e, 'a) act" where
  "onErr h m s = (case m s of (Ret a, s') \<Rightarrow> (Ret a, s')
     | (Throw e, s') \<Rightarrow> (case h s' of (Dead, s'') \<Rightarrow> (Dead, s'') | (_, s'') \<Rightarrow> (Throw e, s''))
     | (Dead, s') \<Rightarrow> (Dead, s'))"

text \<open>Statements in sequence.\<close>

fun seqA :: "('s, 'e, unit) act list \<Rightarrow> ('s, 'e, unit) act" where
  "seqA [] = ret ()"
| "seqA (m # ms) = bindA m (\<lambda>_. seqA ms)"

section \<open>path/filepath\<close>

text \<open>\<open>filepath.Join\<close> and \<open>filepath.Dir\<close> on clean paths: no empty, \<open>.\<close> or \<open>..\<close>
  component and no trailing slash, which is the form of every default and flag value.\<close>

definition filepath_join :: "path \<Rightarrow> gostring \<Rightarrow> path" where
  "filepath_join d f = (if d = [] then f else d @ CHR ''/'' # f)"

definition filepath_dir :: "path \<Rightarrow> path" where
  "filepath_dir p = (case last_index_byte p CHR ''/'' of
     None \<Rightarrow> ''.'' | Some 0 \<Rightarrow> ''/'' | Some i \<Rightarrow> take i p)"

section \<open>System calls\<close>

text \<open>One call: \<open>op\<close> is what the kernel does, \<open>part n\<close> what a call that fails or never
  returns leaves behind.\<close>

definition sys :: "env \<Rightarrow> (nat \<Rightarrow> world \<Rightarrow> world) \<Rightarrow> (world \<Rightarrow> (oserr + 'a) \<times> world)
    \<Rightarrow> (world, oserr, 'a) act" where
  "sys E part op w = (let w1 = w\<lparr>clock := Suc (clock w)\<rparr> in
     case fate E (clock w) of
       Proceed \<Rightarrow> (case op w1 of (Inl e, w2) \<Rightarrow> (Throw e, w2) | (Inr a, w2) \<Rightarrow> (Ret a, w2))
     | Deny n \<Rightarrow> (Throw EIO, part n w1)
     | Kill n \<Rightarrow> (Dead, part n w1))"

definition set_node :: "path \<Rightarrow> node option \<Rightarrow> world \<Rightarrow> world" where
  "set_node p nd w = w\<lparr>fs := (fs w)(p := nd)\<rparr>"

abbreviation nothing :: "nat \<Rightarrow> world \<Rightarrow> world" where
  "nothing n w \<equiv> w"

definition os_lstat :: "env \<Rightarrow> path \<Rightarrow> (world, oserr, node) act" where
  "os_lstat E p = sys E nothing (\<lambda>w. (case fs w p of None \<Rightarrow> Inl ENOENT | Some n \<Rightarrow> Inr n, w))"

definition os_readlink :: "env \<Rightarrow> path \<Rightarrow> (world, oserr, path) act" where
  "os_readlink E p = sys E nothing (\<lambda>w. (case fs w p of None \<Rightarrow> Inl ENOENT
     | Some (Symlink t) \<Rightarrow> Inr t | _ \<Rightarrow> Inl EINVAL, w))"

definition os_mkdir_all :: "env \<Rightarrow> path \<Rightarrow> nat \<Rightarrow> (world, oserr, unit) act" where
  "os_mkdir_all E p m = sys E nothing (\<lambda>w. case fs w p of
       None \<Rightarrow> (Inr (), set_node p (Some (Dir m)) w)
     | Some (Dir _) \<Rightarrow> (Inr (), w)
     | Some _ \<Rightarrow> (Inl ENOTDIR, w))"

text \<open>\<open>os.Stat\<close> and opening for reading follow symbolic links, forty at most; a relative target is taken from the
  directory of its link.\<close>

definition link_target :: "path \<Rightarrow> path \<Rightarrow> path" where
  "link_target p t = (if t \<noteq> [] \<and> hd t = CHR ''/'' then t
     else filepath_dir p @ CHR ''/'' # t)"

fun follow :: "nat \<Rightarrow> (path \<Rightarrow> node option) \<Rightarrow> path \<Rightarrow> oserr + node" where
  "follow 0 f p = Inl ELOOP"
| "follow (Suc n) f p = (case f p of None \<Rightarrow> Inl ENOENT
     | Some (Symlink t) \<Rightarrow> follow n f (link_target p t) | Some nd \<Rightarrow> Inr nd)"

definition os_stat :: "env \<Rightarrow> path \<Rightarrow> (world, oserr, node) act" where
  "os_stat E p = sys E nothing (\<lambda>w. (follow 41 (fs w) p, w))"

text \<open>\<open>os.Open\<close>: reading a directory fails, opening it does not.\<close>

definition os_open :: "env \<Rightarrow> path \<Rightarrow> (world, oserr, unit) act" where
  "os_open E p = sys E nothing (\<lambda>w. (case follow 41 (fs w) p of Inl e \<Rightarrow> Inl e | Inr _ \<Rightarrow> Inr (), w))"

text \<open>Reading yields the contents.\<close>

definition os_read :: "env \<Rightarrow> path \<Rightarrow> (world, oserr, fdata) act" where
  "os_read E p = sys E nothing (\<lambda>w. (case follow 41 (fs w) p of Inl e \<Rightarrow> Inl e
     | Inr (File d _) \<Rightarrow> Inr d | Inr _ \<Rightarrow> Inl EINVAL, w))"

text \<open>\<open>os.OpenFile\<close> with \<open>O_WRONLY|O_CREATE|O_TRUNC\<close>: an existing file keeps its mode.\<close>

definition os_open_trunc :: "env \<Rightarrow> path \<Rightarrow> nat \<Rightarrow> (world, oserr, unit) act" where
  "os_open_trunc E p m = sys E nothing (\<lambda>w. case fs w p of
       None \<Rightarrow> (Inr (), set_node p (Some (File (Bytes []) m)) w)
     | Some (File _ m') \<Rightarrow> (Inr (), set_node p (Some (File (Bytes []) m')) w)
     | Some (Symlink _) \<Rightarrow> (Inl ELOOP, w)
     | Some (Dir _) \<Rightarrow> (Inl EINVAL, w))"

definition os_create_temp :: "env \<Rightarrow> path \<Rightarrow> gostring \<Rightarrow> gostring \<Rightarrow> (world, oserr, path) act" where
  "os_create_temp E dir pre suf = sys E nothing (\<lambda>w.
     (let p = dir @ ''/'' @ pre @ rnd E (clock w) @ suf in
        if fs w p \<noteq> None then (Inl EEXIST, w)
        else (Inr p, set_node p (Some (File (Bytes []) mode_0600)) w)))"

definition put_data :: "path \<Rightarrow> fdata \<Rightarrow> world \<Rightarrow> world" where
  "put_data p d w = (case fs w p of Some (File _ m) \<Rightarrow> set_node p (Some (File d m)) w | _ \<Rightarrow> w)"

text \<open>Writing the whole of \<open>d\<close> to a freshly opened, empty file.\<close>

definition os_write :: "env \<Rightarrow> path \<Rightarrow> fdata \<Rightarrow> (world, oserr, unit) act" where
  "os_write E p d = sys E (\<lambda>n. put_data p (Partial d n)) (\<lambda>w. (Inr (), put_data p d w))"

text \<open>\<open>fsync\<close>, \<open>close\<close> and \<open>flock\<close> on an open file: they can fail and the process can die
  in them, but they change nothing here.\<close>

definition os_fd_call :: "env \<Rightarrow> path \<Rightarrow> (world, oserr, unit) act" where
  "os_fd_call E p = sys E nothing (\<lambda>w. (Inr (), w))"

definition os_chmod :: "env \<Rightarrow> path \<Rightarrow> nat \<Rightarrow> (world, oserr, unit) act" where
  "os_chmod E p m = sys E nothing (\<lambda>w. case fs w p of
       None \<Rightarrow> (Inl ENOENT, w)
     | Some (File d _) \<Rightarrow> (Inr (), set_node p (Some (File d m)) w)
     | Some (Dir _) \<Rightarrow> (Inr (), set_node p (Some (Dir m)) w)
     | Some (Symlink _) \<Rightarrow> (Inl ELOOP, w))"

definition os_remove :: "env \<Rightarrow> path \<Rightarrow> (world, oserr, unit) act" where
  "os_remove E p = sys E nothing (\<lambda>w. if fs w p = None then (Inl ENOENT, w)
     else (Inr (), set_node p None w))"

definition os_rename :: "env \<Rightarrow> path \<Rightarrow> path \<Rightarrow> (world, oserr, unit) act" where
  "os_rename E p q = sys E nothing (\<lambda>w. case fs w p of
       None \<Rightarrow> (Inl ENOENT, w)
     | Some n \<Rightarrow> (case fs w q of
           Some (Dir _) \<Rightarrow> (Inl EEXIST, w)
         | _ \<Rightarrow> (Inr (), set_node q (Some n) (set_node p None w))))"

definition os_symlink :: "env \<Rightarrow> path \<Rightarrow> path \<Rightarrow> (world, oserr, unit) act" where
  "os_symlink E t p = sys E nothing (\<lambda>w. if fs w p = None
     then (Inr (), set_node p (Some (Symlink t)) w) else (Inl EEXIST, w))"

text \<open>A call that reads or changes the network state.\<close>

definition net_call :: "env \<Rightarrow> (netstate \<Rightarrow> oserr + netstate) \<Rightarrow> (world, oserr, unit) act" where
  "net_call E f = sys E nothing (\<lambda>w. case f (net w) of Inl e \<Rightarrow> (Inl e, w)
     | Inr n \<Rightarrow> (Inr (), w\<lparr>net := n\<rparr>))"

text \<open>The files below \<open>/proc/sys\<close> are the sysctl keys; reading one ends in a newline.\<close>

definition sysctl_of_path :: "path \<Rightarrow> gostring" where
  "sysctl_of_path p = map (\<lambda>c. if c = CHR ''/'' then CHR ''.'' else c) (drop (length ''/proc/sys/'') p)"

definition os_read_proc :: "env \<Rightarrow> path \<Rightarrow> (world, oserr, gostring) act" where
  "os_read_proc E p = sys E nothing (\<lambda>w. (case sysctls w (sysctl_of_path p) of None \<Rightarrow> Inl ENOENT
     | Some v \<Rightarrow> Inr (v @ [byte_of 10]), w))"

definition sysctl_write :: "env \<Rightarrow> gostring \<Rightarrow> gostring \<Rightarrow> (world, oserr, unit) act" where
  "sysctl_write E k v = sys E nothing (\<lambda>w. case sysctls w k of None \<Rightarrow> (Inl ENOENT, w)
     | Some _ \<Rightarrow> (Inr (), w\<lparr>sysctls := (sysctls w)(k \<mapsto> v)\<rparr>))"

text \<open>The bytes of a file.\<close>

fun file_bytes :: "env \<Rightarrow> fdata \<Rightarrow> gostring" where
  "file_bytes E (Bytes b) = b"
| "file_bytes E (Doc j) = json_text E j"
| "file_bytes E (Partial d n) = take n (file_bytes E d)"

definition get_clock :: "(world, 'e, nat) act" where
  "get_clock w = (Ret (clock w), w)"

end
