(* ===== verification/CrashLogic.thy ===== *)
theory CrashLogic
  imports OsWorld
begin

text \<open>
  A program logic for effects that may fail and may be cut short. \<open>wp m Q X D s\<close> holds of a
  state \<open>s\<close> when running \<open>m\<close> there ends in \<open>Q\<close> if it returns, in \<open>X\<close> if it returns an
  error, and in \<open>D\<close> if the process dies in it. The rules compute it through the
  combinators; a system call yields one obligation for each of its three endings.
\<close>

definition wp :: "('s, 'e, 'a) act \<Rightarrow> ('a \<Rightarrow> 's \<Rightarrow> bool) \<Rightarrow> ('e \<Rightarrow> 's \<Rightarrow> bool) \<Rightarrow> ('s \<Rightarrow> bool)
    \<Rightarrow> 's \<Rightarrow> bool" where
  "wp m Q X D s = (case m s of (Ret a, s') \<Rightarrow> Q a s' | (Throw e, s') \<Rightarrow> X e s' | (Dead, s') \<Rightarrow> D s')"

lemma wp_ret [wp_simps]: "wp (ret a) Q X D = Q a"
  by (rule ext) (simp add: wp_def ret_def)

lemma wp_throw [wp_simps]: "wp (throw e) Q X D = X e"
  by (rule ext) (simp add: wp_def throw_def)

lemma wp_bind [wp_simps]: "wp (bindA m f) Q X D = wp m (\<lambda>a. wp (f a) Q X D) X D"
  by (rule ext) (auto simp: wp_def bindA_def split: prod.splits outcome.splits)

lemma wp_mapE [wp_simps]: "wp (mapE g m) Q X D = wp m Q (\<lambda>e. X (g e)) D"
  by (rule ext) (auto simp: wp_def mapE_def split: prod.splits outcome.splits)

lemma wp_ignore [wp_simps]: "wp (ignoreA m) Q X D = wp m (\<lambda>_. Q ()) (\<lambda>_. Q ()) D"
  by (rule ext) (auto simp: wp_def ignoreA_def split: prod.splits outcome.splits)

lemma wp_attempt [wp_simps]: "wp (attempt m) Q X D = wp m (\<lambda>a. Q (Inr a)) (\<lambda>e. Q (Inl e)) D"
  by (rule ext) (auto simp: wp_def attempt_def split: prod.splits outcome.splits)

lemma wp_onErr [wp_simps]:
  "wp (onErr h m) Q X D = wp m Q (\<lambda>e. wp h (\<lambda>_. X e) (\<lambda>_. X e) D) D"
  by (rule ext) (auto simp: wp_def onErr_def split: prod.splits outcome.splits)

lemma wp_seq_Nil [wp_simps]: "wp (seqA []) Q X D = Q ()"
  by (simp add: wp_ret)

lemma wp_seq_Cons [wp_simps]: "wp (seqA (m # ms)) Q X D = wp m (\<lambda>_. wp (seqA ms) Q X D) X D"
  by (simp add: wp_bind)

lemma wp_get_clock [wp_simps]: "wp get_clock Q X D w = Q (clock w) w"
  by (simp add: wp_def get_clock_def)

lemma wp_if [wp_simps]:
  "wp (if b then m else n) Q X D = (if b then wp m Q X D else wp n Q X D)"
  by simp

lemma wp_mono:
  assumes "wp m Q X D s"
    and "\<And>a t. Q a t \<Longrightarrow> Q' a t" "\<And>e t. X e t \<Longrightarrow> X' e t" "\<And>t. D t \<Longrightarrow> D' t"
  shows "wp m Q' X' D' s"
  using assms by (auto simp: wp_def split: prod.splits outcome.splits)

lemma wp_conj:
  assumes "wp m Q X D s" "wp m Q' X' D' s"
  shows "wp m (\<lambda>a t. Q a t \<and> Q' a t) (\<lambda>e t. X e t \<and> X' e t) (\<lambda>t. D t \<and> D' t) s"
  using assms by (auto simp: wp_def split: prod.splits outcome.splits)

text \<open>What a proof with \<open>wp\<close> says about the final state.\<close>

lemma wp_snd:
  assumes "wp m (\<lambda>_. I) (\<lambda>_. I) I s"
  shows "I (snd (m s))"
  using assms by (auto simp: wp_def split: prod.splits outcome.splits)

lemma wp_RetD: "wp m Q X D s \<Longrightarrow> m s = (Ret a, t) \<Longrightarrow> Q a t"
  by (simp add: wp_def)

lemma wp_ThrowD: "wp m Q X D s \<Longrightarrow> m s = (Throw e, t) \<Longrightarrow> X e t"
  by (simp add: wp_def)

lemma wp_DeadD: "wp m Q X D s \<Longrightarrow> m s = (Dead, t) \<Longrightarrow> D t"
  by (simp add: wp_def)

section \<open>Invariants\<close>

text \<open>\<open>keeps I D m\<close>: from a state with \<open>I\<close>, running \<open>m\<close> ends in a state with \<open>I\<close>, whether it
  returns or fails, and in one with \<open>D\<close> if the process dies in it. The rules follow the
  combinators, so what every step keeps, every program built of such steps keeps.\<close>

definition keeps :: "('s \<Rightarrow> bool) \<Rightarrow> ('s \<Rightarrow> bool) \<Rightarrow> ('s, 'e, 'a) act \<Rightarrow> bool" where
  "keeps I D m \<longleftrightarrow> (\<forall>s. I s \<longrightarrow> wp m (\<lambda>_. I) (\<lambda>_. I) D s)"

named_theorems keep_intros \<open>what the combinators and the steps of a program keep\<close>

lemma keepsI: "(\<And>s. I s \<Longrightarrow> wp m (\<lambda>_. I) (\<lambda>_. I) D s) \<Longrightarrow> keeps I D m"
  by (simp add: keeps_def)

lemma keepsD: "keeps I D m \<Longrightarrow> I s \<Longrightarrow> wp m (\<lambda>_. I) (\<lambda>_. I) D s"
  by (simp add: keeps_def)

lemma keeps_ret [keep_intros]: "keeps I D (ret a)"
  by (simp add: keeps_def wp_ret)

lemma keeps_throw [keep_intros]: "keeps I D (throw e)"
  by (simp add: keeps_def wp_throw)

lemma keeps_bind [keep_intros]:
  "keeps I D m \<Longrightarrow> (\<And>a. keeps I D (f a)) \<Longrightarrow> keeps I D (bindA m f)"
  unfolding keeps_def wp_bind by (blast intro: wp_mono)

lemma keeps_mapE [keep_intros]: "keeps I D m \<Longrightarrow> keeps I D (mapE g m)"
  by (simp add: keeps_def wp_mapE)

lemma keeps_ignore [keep_intros]: "keeps I D m \<Longrightarrow> keeps I D (ignoreA m)"
  by (simp add: keeps_def wp_ignore)

lemma keeps_attempt [keep_intros]: "keeps I D m \<Longrightarrow> keeps I D (attempt m)"
  by (simp add: keeps_def wp_attempt)

lemma keeps_onErr [keep_intros]: "keeps I D h \<Longrightarrow> keeps I D m \<Longrightarrow> keeps I D (onErr h m)"
  unfolding keeps_def wp_onErr by (blast intro: wp_mono)

lemma keeps_seq [keep_intros]: "(\<And>m. m \<in> set ms \<Longrightarrow> keeps I D m) \<Longrightarrow> keeps I D (seqA ms)"
  by (induction ms) (auto intro!: keeps_bind keeps_ret)

lemma keeps_if [keep_intros]:
  "(b \<Longrightarrow> keeps I D m) \<Longrightarrow> (\<not> b \<Longrightarrow> keeps I D n) \<Longrightarrow> keeps I D (if b then m else n)"
  by simp

section \<open>System calls\<close>

abbreviation tick :: "world \<Rightarrow> world" where
  "tick w \<equiv> w\<lparr>clock := Suc (clock w)\<rparr>"

lemma wp_sysI:
  assumes "\<And>n. X EIO (part n (tick w))" "\<And>n. D (part n (tick w))"
    and "case op (tick w) of (Inl e, w2) \<Rightarrow> X e w2 | (Inr a, w2) \<Rightarrow> Q a w2"
  shows "wp (sys E part op) Q X D w"
  using assms by (auto simp: wp_def sys_def Let_def split: verdict.splits prod.splits sum.splits)

text \<open>An environment in which no call fails; the process may still die in any.\<close>

definition no_deny :: "env \<Rightarrow> bool" where
  "no_deny E \<longleftrightarrow> (\<forall>t n. fate E t \<noteq> Deny n)"

lemma wp_sys_sure:
  assumes "no_deny E" "\<And>n. D (part n (tick w))"
    and "case op (tick w) of (Inl e, w2) \<Rightarrow> X e w2 | (Inr a, w2) \<Rightarrow> Q a w2"
  shows "wp (sys E part op) Q X D w"
  using assms by (auto simp: wp_def sys_def no_deny_def Let_def split: verdict.splits prod.splits sum.splits)

text \<open>What each call does when it is let through, for evaluating concrete runs.\<close>

lemmas os_call_defs = os_stat_def os_open_def os_read_proc_def sysctl_write_def os_lstat_def os_readlink_def os_mkdir_all_def os_read_def os_open_trunc_def
  os_create_temp_def os_write_def os_fd_call_def os_chmod_def os_remove_def os_rename_def
  os_symlink_def net_call_def

lemmas effect_defs = ret_def throw_def bindA_def mapE_def ignoreA_def attempt_def onErr_def
  get_clock_def sys_def Let_def

text \<open>One rule per call. The premises are: the call fails, the process dies in it, and what
  the kernel does when it is let through.\<close>

lemma wp_os_lstat [wp_intros]:
  assumes "X EIO (tick w)" "D (tick w)"
    "fs w p = None \<Longrightarrow> X ENOENT (tick w)" "\<And>n. fs w p = Some n \<Longrightarrow> Q n (tick w)"
  shows "wp (os_lstat E p) Q X D w"
  unfolding os_lstat_def by (rule wp_sysI) (use assms in \<open>auto split: option.split\<close>)

lemma follow_exists: "follow n f p = Inr nd \<Longrightarrow> f p \<noteq> None"
  by (cases n) (auto split: option.splits)

lemma follow_file [simp]: "f p = Some (File d m) \<Longrightarrow> follow 41 f p = Inr (File d m)"
  using follow.simps(2) [of 40 f p] by simp

lemma follow_plain: "\<forall>t. f p \<noteq> Some (Symlink t) \<Longrightarrow> follow 41 f p = Inr nd \<longleftrightarrow> f p = Some nd"
  using follow.simps(2) [of 40 f p] by (auto split: option.splits node.splits)

lemma wp_os_stat [wp_intros]:
  assumes "\<And>e. X e (tick w)" "D (tick w)" "\<And>n. fs w p \<noteq> None \<Longrightarrow> Q n (tick w)"
  shows "wp (os_stat E p) Q X D w"
  unfolding os_stat_def
  by (rule wp_sysI) (use assms follow_exists in \<open>auto split: sum.split\<close>)

lemma wp_os_open [wp_intros]:
  assumes "\<And>e. X e (tick w)" "D (tick w)" "fs w p \<noteq> None \<Longrightarrow> Q () (tick w)"
  shows "wp (os_open E p) Q X D w"
  unfolding os_open_def
  by (rule wp_sysI) (use assms follow_exists in \<open>auto split: sum.split\<close>)

lemma wp_os_read_proc [wp_intros]:
  assumes "\<And>e. X e (tick w)" "D (tick w)"
    "\<And>v. sysctls w (sysctl_of_path p) = Some v \<Longrightarrow> Q (v @ [byte_of 10]) (tick w)"
  shows "wp (os_read_proc E p) Q X D w"
  unfolding os_read_proc_def
  by (rule wp_sysI) (use assms in \<open>auto split: option.split\<close>)

lemma wp_sysctl_write [wp_intros]:
  assumes "\<And>e. X e (tick w)" "D (tick w)"
    "sysctls w k \<noteq> None \<Longrightarrow> Q () ((tick w)\<lparr>sysctls := (sysctls w)(k \<mapsto> v)\<rparr>)"
  shows "wp (sysctl_write E k v) Q X D w"
  unfolding sysctl_write_def
  by (rule wp_sysI) (use assms in \<open>auto split: option.split\<close>)

lemma wp_os_readlink [wp_intros]:
  assumes "X EIO (tick w)" "D (tick w)"
    "\<And>e. \<forall>t. fs w p \<noteq> Some (Symlink t) \<Longrightarrow> X e (tick w)"
    "\<And>t. fs w p = Some (Symlink t) \<Longrightarrow> Q t (tick w)"
  shows "wp (os_readlink E p) Q X D w"
  unfolding os_readlink_def
  by (rule wp_sysI) (use assms in \<open>auto split: option.split node.split\<close>)

lemma wp_os_mkdir_all [wp_intros]:
  assumes "X EIO (tick w)" "D (tick w)"
    "fs w p = None \<Longrightarrow> Q () (set_node p (Some (Dir m)) (tick w))"
    "\<And>m'. fs w p = Some (Dir m') \<Longrightarrow> Q () (tick w)"
    "\<And>n. fs w p = Some n \<Longrightarrow> \<forall>m'. n \<noteq> Dir m' \<Longrightarrow> X ENOTDIR (tick w)"
  shows "wp (os_mkdir_all E p m) Q X D w"
  unfolding os_mkdir_all_def
  by (rule wp_sysI) (use assms in \<open>auto split: option.split node.split\<close>)

lemma wp_os_read [wp_intros]:
  assumes "X EIO (tick w)" "D (tick w)"
    "\<And>e. \<forall>d m. follow 41 (fs w) p \<noteq> Inr (File d m) \<Longrightarrow> X e (tick w)"
    "\<And>d m. follow 41 (fs w) p = Inr (File d m) \<Longrightarrow> Q d (tick w)"
  shows "wp (os_read E p) Q X D w"
  unfolding os_read_def
  by (rule wp_sysI) (use assms in \<open>auto split: sum.split node.split\<close>)

lemma wp_os_open_trunc [wp_intros]:
  assumes "X EIO (tick w)" "D (tick w)"
    "fs w p = None \<Longrightarrow> Q () (set_node p (Some (File (Bytes []) m)) (tick w))"
    "\<And>d m'. fs w p = Some (File d m') \<Longrightarrow> Q () (set_node p (Some (File (Bytes []) m')) (tick w))"
    "\<And>e n. fs w p = Some n \<Longrightarrow> \<forall>d m'. n \<noteq> File d m' \<Longrightarrow> X e (tick w)"
  shows "wp (os_open_trunc E p m) Q X D w"
  unfolding os_open_trunc_def
  by (rule wp_sysI) (use assms in \<open>auto split: option.split node.split\<close>)

lemma wp_os_create_temp [wp_intros]:
  assumes "X EIO (tick w)" "D (tick w)" "X EEXIST (tick w)"
    "\<And>p. p = dir @ ''/'' @ pre @ rnd E (Suc (clock w)) @ suf \<Longrightarrow> fs w p = None \<Longrightarrow>
       Q p (set_node p (Some (File (Bytes []) mode_0600)) (tick w))"
  shows "wp (os_create_temp E dir pre suf) Q X D w"
  unfolding os_create_temp_def
  by (rule wp_sysI) (use assms in \<open>auto simp: Let_def\<close>)

lemma wp_os_write [wp_intros]:
  assumes "\<And>n. X EIO (put_data p (Partial d n) (tick w))" "\<And>n. D (put_data p (Partial d n) (tick w))"
    "Q () (put_data p d (tick w))"
  shows "wp (os_write E p d) Q X D w"
  unfolding os_write_def by (rule wp_sysI) (use assms in auto)

lemma wp_os_fd_call [wp_intros]:
  assumes "X EIO (tick w)" "D (tick w)" "Q () (tick w)"
  shows "wp (os_fd_call E p) Q X D w"
  unfolding os_fd_call_def by (rule wp_sysI) (use assms in auto)

lemma wp_os_chmod [wp_intros]:
  assumes "X EIO (tick w)" "D (tick w)"
    "\<And>d m'. fs w p = Some (File d m') \<Longrightarrow> Q () (set_node p (Some (File d m)) (tick w))"
    "\<And>m'. fs w p = Some (Dir m') \<Longrightarrow> Q () (set_node p (Some (Dir m)) (tick w))"
    "\<And>e. \<forall>d m'. fs w p \<noteq> Some (File d m') \<Longrightarrow> X e (tick w)"
  shows "wp (os_chmod E p m) Q X D w"
  unfolding os_chmod_def
  by (rule wp_sysI) (use assms in \<open>auto split: option.split node.split\<close>)

lemma wp_os_remove [wp_intros]:
  assumes "X EIO (tick w)" "D (tick w)"
    "fs w p = None \<Longrightarrow> X ENOENT (tick w)"
    "fs w p \<noteq> None \<Longrightarrow> Q () (set_node p None (tick w))"
  shows "wp (os_remove E p) Q X D w"
  unfolding os_remove_def by (rule wp_sysI) (use assms in auto)

lemma wp_os_rename [wp_intros]:
  assumes "X EIO (tick w)" "D (tick w)" "fs w p = None \<Longrightarrow> X ENOENT (tick w)" "X EEXIST (tick w)"
    "\<And>n. fs w p = Some n \<Longrightarrow> Q () (set_node q (Some n) (set_node p None (tick w)))"
  shows "wp (os_rename E p q) Q X D w"
  unfolding os_rename_def
  by (rule wp_sysI) (use assms in \<open>auto split: option.split node.split\<close>)

lemma wp_os_symlink [wp_intros]:
  assumes "X EIO (tick w)" "D (tick w)" "fs w p \<noteq> None \<Longrightarrow> X EEXIST (tick w)"
    "fs w p = None \<Longrightarrow> Q () (set_node p (Some (Symlink t)) (tick w))"
  shows "wp (os_symlink E t p) Q X D w"
  unfolding os_symlink_def by (rule wp_sysI) (use assms in auto)

lemma wp_net_call [wp_intros]:
  assumes "X EIO (tick w)" "D (tick w)" "\<And>e. f (net w) = Inl e \<Longrightarrow> X e (tick w)"
    "\<And>n. f (net w) = Inr n \<Longrightarrow> Q () ((tick w)\<lparr>net := n\<rparr>)"
  shows "wp (net_call E f) Q X D w"
  unfolding net_call_def
  by (rule wp_sysI) (use assms in \<open>auto split: sum.split\<close>)

end
