(* ===== verification/DurableFile.thy ===== *)
theory DurableFile
  imports CrashLogic
begin

text \<open>
  The contract both of the program's state files are written under: the new contents go to a
  temporary file, which then replaces the target in one rename. The key store and the
  snapshot writer each have their own code for it; what their clients rely on is proved once,
  in the locale, and interpreted where each writer is defined.
\<close>

text \<open>\<open>same_but S w w'\<close>: going from \<open>w\<close> to \<open>w'\<close> touched no file outside \<open>S\<close> and nothing
  but files.\<close>

definition same_but :: "path set \<Rightarrow> world \<Rightarrow> world \<Rightarrow> bool" where
  "same_but S w w' \<longleftrightarrow> (\<forall>q. q \<notin> S \<longrightarrow> fs w' q = fs w q) \<and> sysctls w' = sysctls w \<and> net w' = net w"

lemma same_but_refl [simp]: "same_but S w w"
  by (simp add: same_but_def)

lemma same_but_trans: "same_but S w w' \<Longrightarrow> same_but S w' w'' \<Longrightarrow> same_but S w w''"
  by (simp add: same_but_def)

lemma same_but_mono: "same_but S w w' \<Longrightarrow> S \<subseteq> T \<Longrightarrow> same_but T w w'"
  by (auto simp: same_but_def)

lemma same_but_clock [simp]: "same_but S w (w'\<lparr>clock := n\<rparr>) = same_but S w w'"
  by (simp add: same_but_def)

lemma same_but_set_node: "p \<in> S \<Longrightarrow> same_but S w (set_node p nd w') = same_but S w w'"
  by (auto simp: same_but_def set_node_def)

lemma same_but_put_data: "p \<in> S \<Longrightarrow> same_but S w (put_data p d w') = same_but S w w'"
  by (auto simp: same_but_set_node put_data_def split: option.splits node.splits)

lemma fs_set_node [simp]: "fs (set_node p nd w) = (fs w)(p := nd)"
  by (simp add: set_node_def)

lemma set_node_sel [simp]:
  "sysctls (set_node p nd w) = sysctls w" "net (set_node p nd w) = net w" "clock (set_node p nd w) = clock w"
  by (simp_all add: set_node_def)

lemma fs_put_data_other [simp]: "q \<noteq> p \<Longrightarrow> fs (put_data p d w) q = fs w q"
  by (simp add: put_data_def split: option.splits node.splits)

lemma fs_put_data_same: "fs w p = Some (File d m) \<Longrightarrow> fs (put_data p d' w) p = Some (File d' m)"
  by (simp add: put_data_def)

lemma fs_put_same: "fs w p = Some (File d0 m) \<Longrightarrow> put_data p d w = set_node p (Some (File d m)) w"
  by (simp add: put_data_def)

locale durable_writer =
  fixes commit :: "env \<Rightarrow> 's \<Rightarrow> (world, 'e, unit) act"
    and target :: "'s \<Rightarrow> path"
    and temps :: "'s \<Rightarrow> path set"
    and contents :: "'s \<Rightarrow> fdata"
  assumes commit_contract: "target s \<notin> temps s \<Longrightarrow>
      wp (commit E s)
        (\<lambda>_ w'. (\<exists>m. fs w' (target s) = Some (File (contents s) m))
                 \<and> same_but (insert (target s) (temps s)) w w')
        (\<lambda>_ w'. fs w' (target s) = fs w (target s) \<and> same_but (temps s) w w')
        (\<lambda>w'. fs w' (target s) = fs w (target s) \<and> same_but (temps s) w w') w"
begin

text \<open>Whatever happens, the target holds its old node or the whole new contents.\<close>

lemma old_or_new:
  assumes "target s \<notin> temps s" "commit E s w = (r, w')"
  shows "fs w' (target s) = fs w (target s) \<or> (\<exists>m. fs w' (target s) = Some (File (contents s) m))"
  using commit_contract [OF assms(1), of E w] assms(2)
  by (auto simp: wp_def split: outcome.splits)

lemma commit_ok:
  assumes "target s \<notin> temps s" "commit E s w = (Ret u, w')"
  shows "\<exists>m. fs w' (target s) = Some (File (contents s) m)"
  using commit_contract [OF assms(1), of E w] assms(2) by (simp add: wp_def)

lemma commit_failed:
  assumes "target s \<notin> temps s" "commit E s w = (r, w')" "\<forall>u. r \<noteq> Ret u"
  shows "fs w' (target s) = fs w (target s)"
  using commit_contract [OF assms(1), of E w] assms(2,3) by (auto simp: wp_def split: outcome.splits)

lemma commit_frame:
  assumes "target s \<notin> temps s" "commit E s w = (r, w')"
  shows "same_but (insert (target s) (temps s)) w w'"
proof -
  have "temps s \<subseteq> insert (target s) (temps s)" by blast
  then show ?thesis
    using commit_contract [OF assms(1), of E w] assms(2)
    by (auto simp: wp_def intro: same_but_mono split: outcome.splits)
qed

text \<open>A rule for client code: what must hold in each ending.\<close>

lemma wp_commitI:
  assumes "target s \<notin> temps s"
    and "\<And>m w'. fs w' (target s) = Some (File (contents s) m) \<Longrightarrow>
       same_but (insert (target s) (temps s)) w w' \<Longrightarrow> Q () w'"
    and "\<And>e w'. fs w' (target s) = fs w (target s) \<Longrightarrow> same_but (temps s) w w' \<Longrightarrow> X e w'"
    and "\<And>w'. fs w' (target s) = fs w (target s) \<Longrightarrow> same_but (temps s) w w' \<Longrightarrow> D w'"
  shows "wp (commit E s) Q X D w"
  by (rule wp_mono [OF commit_contract [OF assms(1)]]) (use assms in auto)

text \<open>Repeated writes of changing contents to one target: the target always holds one of
  the versions, or what it held before the first.\<close>

fun commit_all :: "env \<Rightarrow> 's list \<Rightarrow> world \<Rightarrow> world" where
  "commit_all E [] w = w"
| "commit_all E (s # ss) w = commit_all E ss (snd (commit E s w))"

lemma commit_all_version:
  assumes "\<forall>s \<in> set ss. target s = p \<and> p \<notin> temps s"
  shows "fs (commit_all E ss w) p = fs w p
     \<or> (\<exists>s \<in> set ss. \<exists>m. fs (commit_all E ss w) p = Some (File (contents s) m))"
  using assms
proof (induction ss arbitrary: w)
  case (Cons s ss)
  obtain r w' where r: "commit E s w = (r, w')" by fastforce
  from Cons.prems have "target s = p" "p \<notin> temps s" by auto
  with old_or_new [OF _ r] have
    "fs w' p = fs w p \<or> (\<exists>m. fs w' p = Some (File (contents s) m))" by simp
  with Cons.IH [of w'] Cons.prems r show ?case by auto
qed simp

end

end
