(* ===== verification/Keystore.thy ===== *)
theory Keystore
  imports Keyname DurableFile
begin

text \<open>
  The key store (\<open>internal/keystore/keystore.go\<close>): the key list and the active pointer in
  memory, the JSON file they are persisted to, and the operations the daemon calls. An
  operation runs on the store and the world together; it returns Go's result, leaves the
  store as the code leaves it on every path (rollbacks included), and dies where a system
  call kills the process. The store's mutex makes each operation one step.
\<close>

section \<open>Data\<close>

definition Version :: int where "Version = 1"
definition maxKeys :: nat where "maxKeys = 128"

record key =
  Name :: gostring
  URL :: gostring
  LabelFromURL :: gostring
  AddedAt :: time

record fileState =
  stVersion :: int
  Keys :: "key list"
  Active :: gostring
  LastConnectedAt :: time

record store =
  spath :: path
  state :: fileState

datatype persist_error = TempFile oserr | FlockTemp oserr | WriteTemp oserr | FsyncTemp oserr
  | ChmodTemp oserr | CloseTemp oserr | RenameTemp oserr

datatype ks_error =
    UrlPrefix | TooManyKeys | UrlStored gostring | BadName name_error | NameInUse gostring
  | NoKeyNamed gostring | PersistFailed persist_error

datatype open_error =
    MkdirFailed oserr | OpenFailed oserr | FlockFailed oserr | ReadFailed oserr
  | DecodeSyntax | DecodeFailed json_error | BadVersion int

section \<open>JSON form\<close>

definition encode_key :: "key \<Rightarrow> json" where
  "encode_key k = JObj ([(''name'', jstr (Name k)), (''url'', jstr (URL k))]
     @ (if LabelFromURL k = [] then [] else [(''label_from_url'', jstr (LabelFromURL k))])
     @ [(''added_at'', JTime (AddedAt k))])"

definition encode_state :: "fileState \<Rightarrow> json" where
  "encode_state st = JObj ([(''version'', JInt (stVersion st)),
       (''keys'', JArr (map encode_key (Keys st)))]
     @ (if Active st = [] then [] else [(''active'', jstr (Active st))])
     @ [(''last_connected_at'', JTime (LastConnectedAt st))])"

definition zero_key :: key where
  "zero_key = \<lparr>Name = [], URL = [], LabelFromURL = [], AddedAt = 0\<rparr>"

definition zero_state :: fileState where
  "zero_state = \<lparr>stVersion = 0, Keys = [], Active = [], LastConnectedAt = 0\<rparr>"

definition key_member :: "gostring \<Rightarrow> json \<Rightarrow> key \<Rightarrow> json_error + key" where
  "key_member f v k =
     (if field_match f ''name'' then
        map_sum id (\<lambda>s. k\<lparr>Name := s\<rparr>) (dec_string ''name'' v (Name k))
      else if field_match f ''url'' then
        map_sum id (\<lambda>s. k\<lparr>URL := s\<rparr>) (dec_string ''url'' v (URL k))
      else if field_match f ''label_from_url'' then
        map_sum id (\<lambda>s. k\<lparr>LabelFromURL := s\<rparr>) (dec_string ''label_from_url'' v (LabelFromURL k))
      else if field_match f ''added_at'' then
        map_sum id (\<lambda>t. k\<lparr>AddedAt := t\<rparr>) (dec_time ''added_at'' v (AddedAt k))
      else Inl (UnknownField f))"

definition decode_key :: "json \<Rightarrow> json_error + key" where
  "decode_key j = (case j of JNull \<Rightarrow> Inr zero_key
     | JObj m \<Rightarrow> dec_members key_member m zero_key | _ \<Rightarrow> Inl NotAnObject)"

definition state_member :: "gostring \<Rightarrow> json \<Rightarrow> fileState \<Rightarrow> json_error + fileState" where
  "state_member f v st =
     (if field_match f ''version'' then
        map_sum id (\<lambda>i. st\<lparr>stVersion := i\<rparr>) (dec_int_field ''version'' v (stVersion st))
      else if field_match f ''keys'' then
        (case v of JNull \<Rightarrow> Inr (st\<lparr>Keys := []\<rparr>)
         | JArr js \<Rightarrow> map_sum id (\<lambda>ks. st\<lparr>Keys := ks\<rparr>) (dec_elems decode_key js)
         | _ \<Rightarrow> Inl (WrongType ''keys''))
      else if field_match f ''active'' then
        map_sum id (\<lambda>s. st\<lparr>Active := s\<rparr>) (dec_string ''active'' v (Active st))
      else if field_match f ''last_connected_at'' then
        map_sum id (\<lambda>t. st\<lparr>LastConnectedAt := t\<rparr>)
          (dec_time ''last_connected_at'' v (LastConnectedAt st))
      else Inl (UnknownField f))"

definition decode_state :: "json \<Rightarrow> json_error + fileState" where
  "decode_state j = (case j of JNull \<Rightarrow> Inr zero_state
     | JObj m \<Rightarrow> dec_members state_member m zero_state | _ \<Rightarrow> Inl NotAnObject)"

section \<open>Loading and persisting\<close>

definition reload :: "env \<Rightarrow> path \<Rightarrow> (world, open_error, fileState) act" where
  "reload E p =
     bindA (attempt (os_open E p)) (\<lambda>r. case r of
         Inl e \<Rightarrow> if e = ENOENT
           then ret \<lparr>stVersion = Version, Keys = [], Active = [], LastConnectedAt = 0\<rparr>
           else throw (OpenFailed e)
       | Inr _ \<Rightarrow>
           bindA (mapE FlockFailed (os_fd_call E p)) (\<lambda>_.
           bindA (mapE ReadFailed (os_read E p)) (\<lambda>d.
             case d of
               Doc j \<Rightarrow> (case decode_state j of
                   Inl e \<Rightarrow> throw (DecodeFailed e)
                 | Inr st \<Rightarrow> if stVersion st \<noteq> Version then throw (BadVersion (stVersion st))
                            else ret st)
             | _ \<Rightarrow> throw DecodeSyntax)))"

definition Open :: "env \<Rightarrow> path \<Rightarrow> (world, open_error, store) act" where
  "Open E p =
     bindA (mapE MkdirFailed (os_mkdir_all E (filepath_dir p) mode_0755)) (\<lambda>_.
     bindA (reload E p) (\<lambda>st. ret \<lparr>spath = p, state = st\<rparr>))"

definition cleanup_temp :: "env \<Rightarrow> path \<Rightarrow> (world, 'e, unit) act" where
  "cleanup_temp E tmp = seqA [ignoreA (os_fd_call E tmp), ignoreA (os_remove E tmp)]"

definition persist :: "env \<Rightarrow> store \<Rightarrow> (world, persist_error, unit) act" where
  "persist E s =
     bindA (mapE TempFile (os_create_temp E (filepath_dir (spath s)) ''.keys.'' ''.tmp'')) (\<lambda>tmp.
     seqA [
       onErr (cleanup_temp E tmp) (mapE FlockTemp (os_fd_call E tmp)),
       onErr (cleanup_temp E tmp) (mapE WriteTemp (os_write E tmp (Doc (encode_state (state s))))),
       onErr (cleanup_temp E tmp) (mapE FsyncTemp (os_fd_call E tmp)),
       onErr (cleanup_temp E tmp) (mapE ChmodTemp (os_chmod E tmp mode_0600)),
       ignoreA (os_fd_call E tmp),
       onErr (ignoreA (os_remove E tmp)) (mapE CloseTemp (os_fd_call E tmp)),
       onErr (ignoreA (os_remove E tmp)) (mapE RenameTemp (os_rename E tmp (spath s)))])"

section \<open>Queries\<close>

definition lookup :: "gostring \<Rightarrow> key list \<Rightarrow> key option" where
  "lookup name ks = find (\<lambda>k. Name k = name) ks"

definition Get :: "store \<Rightarrow> gostring \<Rightarrow> key option" where
  "Get s name = lookup name (Keys (state s))"

definition ActiveName :: "store \<Rightarrow> gostring" where
  "ActiveName s = Active (state s)"

text \<open>\<open>sort.SliceStable\<close> by \<open>AddedAt.Before\<close>: the stable sort by the time added.\<close>

definition ListKeys :: "store \<Rightarrow> key list" where
  "ListKeys s = sort_key AddedAt (Keys (state s))"

section \<open>Updates\<close>

type_synonym 'a ks_act = "(store \<times> world, ks_error, 'a) act"

definition set_state :: "(fileState \<Rightarrow> fileState) \<Rightarrow> store \<Rightarrow> store" where
  "set_state f s = s\<lparr>state := f (state s)\<rparr>"

text \<open>The end of every mutating method: persist the new state \<open>s1\<close>; on failure put
  \<open>back s1\<close> in its place and return the error.\<close>

definition commit_or :: "env \<Rightarrow> store \<Rightarrow> (store \<Rightarrow> store) \<Rightarrow> 'a \<Rightarrow> world
    \<Rightarrow> (ks_error, 'a) outcome \<times> (store \<times> world)" where
  "commit_or E s1 back a w =
     (case persist E s1 w of
        (Ret _, w') \<Rightarrow> (Ret a, (s1, w'))
      | (Throw e, w') \<Rightarrow> (Throw (PersistFailed e), (back s1, w'))
      | (Dead, w') \<Rightarrow> (Dead, (s1, w')))"

definition add_rollback :: "fileState \<Rightarrow> fileState" where
  "add_rollback st = (let ks = butlast (Keys st) in
     st\<lparr>Keys := ks, Active := (if length ks = 0 then [] else Active st)\<rparr>)"

definition Add :: "env \<Rightarrow> gostring \<Rightarrow> gostring \<Rightarrow> key ks_act" where
  "Add E rawURL suggestedName = (\<lambda>(s, w).
     let st = state s; ks = Keys st; ssURL = trim_space rawURL in
     if \<not> has_prefix ssURL ''ss://'' then (Throw UrlPrefix, (s, w))
     else if length ks \<ge> maxKeys then (Throw TooManyKeys, (s, w))
     else (case find (\<lambda>k. URL k = ssURL) ks of
       Some k \<Rightarrow> (Throw (UrlStored (Name k)), (s, w))
     | None \<Rightarrow>
       (let label = extractLabel ssURL;
            name = (if suggestedName = [] then deriveName label (map Name ks) else suggestedName)
        in case validateName name of
          Inl e \<Rightarrow> (Throw (BadName e), (s, w))
        | Inr _ \<Rightarrow>
          if lookup name ks \<noteq> None then (Throw (NameInUse name), (s, w))
          else (let k = \<lparr>Name = name, URL = ssURL, LabelFromURL = label, AddedAt = now E (clock w)\<rparr>;
                    st1 = st\<lparr>Keys := ks @ [k], Active := (if Active st = [] then name else Active st)\<rparr>
                in commit_or E (set_state (\<lambda>_. st1) s) (set_state add_rollback) k w))))"

definition Remove :: "env \<Rightarrow> gostring \<Rightarrow> unit ks_act" where
  "Remove E name = (\<lambda>(s, w).
     let st = state s; ks = Keys st in
     case find_index (\<lambda>k. Name k = name) ks of
       None \<Rightarrow> (Throw (NoKeyNamed name), (s, w))
     | Some idx \<Rightarrow>
       (let old = ks ! idx; oldActive = Active st;
            st1 = st\<lparr>Keys := remove_at idx ks, Active := (if Active st = name then [] else Active st)\<rparr>
        in commit_or E (set_state (\<lambda>_. st1) s)
             (set_state (\<lambda>st2. st2\<lparr>Keys := Keys st2 @ [old], Active := oldActive\<rparr>)) () w))"

text \<open>The loop that renames the first key called \<open>a\<close>; also the one that rolls it back.\<close>

fun rename_first :: "gostring \<Rightarrow> gostring \<Rightarrow> key list \<Rightarrow> key list" where
  "rename_first a b [] = []"
| "rename_first a b (k # ks) = (if Name k = a then k\<lparr>Name := b\<rparr> # ks else k # rename_first a b ks)"

definition Rename :: "env \<Rightarrow> gostring \<Rightarrow> gostring \<Rightarrow> unit ks_act" where
  "Rename E oldName newName = (\<lambda>(s, w).
     let st = state s; ks = Keys st in
     case validateName newName of
       Inl e \<Rightarrow> (Throw (BadName e), (s, w))
     | Inr _ \<Rightarrow>
       if oldName = newName then (Ret (), (s, w))
       else if lookup newName ks \<noteq> None then (Throw (NameInUse newName), (s, w))
       else if lookup oldName ks = None then (Throw (NoKeyNamed oldName), (s, w))
       else (let oldActive = Active st;
                 st1 = st\<lparr>Keys := rename_first oldName newName ks,
                          Active := (if Active st = oldName then newName else Active st)\<rparr>
             in commit_or E (set_state (\<lambda>_. st1) s)
                  (set_state (\<lambda>st2. st2\<lparr>Keys := rename_first newName oldName (Keys st2),
                                        Active := oldActive\<rparr>)) () w))"

definition Use :: "env \<Rightarrow> gostring \<Rightarrow> unit ks_act" where
  "Use E name = (\<lambda>(s, w).
     if lookup name (Keys (state s)) = None then (Throw (NoKeyNamed name), (s, w))
     else (let old = Active (state s) in
       commit_or E (set_state (\<lambda>st. st\<lparr>Active := name\<rparr>) s)
         (set_state (\<lambda>st2. st2\<lparr>Active := old\<rparr>)) () w))"

definition MarkConnected :: "env \<Rightarrow> gostring \<Rightarrow> unit ks_act" where
  "MarkConnected E name = (\<lambda>(s, w).
     if lookup name (Keys (state s)) = None then (Throw (NoKeyNamed name), (s, w))
     else (let oldActive = Active (state s); oldTS = LastConnectedAt (state s) in
       commit_or E (set_state (\<lambda>st. st\<lparr>Active := name, LastConnectedAt := now E (clock w)\<rparr>) s)
         (set_state (\<lambda>st2. st2\<lparr>Active := oldActive, LastConnectedAt := oldTS\<rparr>)) () w))"

end
