(* ===== verification/KeystoreFacts.thy ===== *)
theory KeystoreFacts
  imports Keystore
begin

text \<open>
  What the key store keeps: names and URLs stay unique and well-formed under every
  operation and every fault, each operation has its map-level meaning, a failed operation
  rolls back, and \<open>keys.json\<close> is replaced whole or not at all.
\<close>

section \<open>The store file\<close>

definition key_temps :: "store \<Rightarrow> path set" where
  "key_temps s = {p. \<exists>r. p = filepath_dir (spath s) @ ''/'' @ ''.keys.'' @ r @ ''.tmp''}"

lemma key_tempsI: "filepath_dir (spath s) @ ''/'' @ ''.keys.'' @ r @ ''.tmp'' \<in> key_temps s"
  unfolding key_temps_def by blast

lemma persist_body:
  assumes t: "t \<in> key_temps s" "spath s \<notin> key_temps s" and f: "fs w t = Some (File d m)"
  shows "wp (seqA [
       onErr (cleanup_temp E t) (mapE FlockTemp (os_fd_call E t)),
       onErr (cleanup_temp E t) (mapE WriteTemp (os_write E t (Doc (encode_state (state s))))),
       onErr (cleanup_temp E t) (mapE FsyncTemp (os_fd_call E t)),
       onErr (cleanup_temp E t) (mapE ChmodTemp (os_chmod E t mode_0600)),
       ignoreA (os_fd_call E t),
       onErr (ignoreA (os_remove E t)) (mapE CloseTemp (os_fd_call E t)),
       onErr (ignoreA (os_remove E t)) (mapE RenameTemp (os_rename E t (spath s)))])
    (\<lambda>_ w'. fs w' (spath s) = Some (File (Doc (encode_state (state s))) mode_0600)
             \<and> same_but (insert (spath s) (key_temps s)) w w')
    (\<lambda>_ w'. fs w' (spath s) = fs w (spath s) \<and> same_but (key_temps s) w w')
    (\<lambda>w'. fs w' (spath s) = fs w (spath s) \<and> same_but (key_temps s) w w') w"
proof -
  define J where "J w' \<longleftrightarrow> fs w' (spath s) = fs w (spath s) \<and> same_but (key_temps s) w w'" for w' :: world
  have ne: "t \<noteq> spath s" using t by blast
  have J: "J w" "J (w'\<lparr>clock := n\<rparr>) = J w'" "J (set_node t nd w') = J w'" "J (put_data t d' w') = J w'" for w' n nd d'
    using t ne by (auto simp: J_def same_but_set_node same_but_put_data)
  have fin: "same_but (insert (spath s) (key_temps s)) w (set_node (spath s) nd (set_node t None w'))" if "J w'" for nd w'
    using that t by (auto simp: J_def same_but_def)
  have cl: "wp (cleanup_temp E t) (\<lambda>_. J) (\<lambda>_. J) J w'" if "J w'" for w'
    using that unfolding cleanup_temp_def by (auto intro!: wp_intros simp: wp_simps J)
  have rm: "wp (os_remove E t) (\<lambda>_. J) (\<lambda>_. J) J w'" if "J w'" for w'
    using that by (auto intro!: wp_intros simp: J)
  show ?thesis
    unfolding J_def [symmetric] wp_seq_Cons wp_seq_Nil wp_onErr wp_mapE wp_ignore
    using f J(1) by (auto intro!: wp_os_fd_call wp_os_write wp_os_chmod wp_os_rename cl rm simp: J fs_put_same fin)
qed

lemma persist_contract:
  assumes "spath s \<notin> key_temps s"
  shows "wp (persist E s)
    (\<lambda>_ w'. fs w' (spath s) = Some (File (Doc (encode_state (state s))) mode_0600)
             \<and> same_but (insert (spath s) (key_temps s)) w w')
    (\<lambda>_ w'. fs w' (spath s) = fs w (spath s) \<and> same_but (key_temps s) w w')
    (\<lambda>w'. fs w' (spath s) = fs w (spath s) \<and> same_but (key_temps s) w w') w"
  unfolding persist_def wp_bind wp_mapE
proof (rule wp_os_create_temp)
  fix t assume p: "t = filepath_dir (spath s) @ ''/'' @ ''.keys.'' @ rnd E (Suc (clock w)) @ ''.tmp''"
  let ?w = "set_node t (Some (File (Bytes []) mode_0600)) (tick w)"
  have t: "t \<in> key_temps s" unfolding p by (rule key_tempsI)
  with assms have ne: "spath s \<noteq> t" by blast
  have "fs ?w (spath s) = fs w (spath s)" using ne by simp
  moreover have "same_but (key_temps s) w w' = same_but (key_temps s) ?w w'"
    "same_but (insert (spath s) (key_temps s)) w w' = same_but (insert (spath s) (key_temps s)) ?w w'" for w'
    using t by (auto simp: same_but_def)
  ultimately show "wp (seqA [
       onErr (cleanup_temp E t) (mapE FlockTemp (os_fd_call E t)),
       onErr (cleanup_temp E t) (mapE WriteTemp (os_write E t (Doc (encode_state (state s))))),
       onErr (cleanup_temp E t) (mapE FsyncTemp (os_fd_call E t)),
       onErr (cleanup_temp E t) (mapE ChmodTemp (os_chmod E t mode_0600)),
       ignoreA (os_fd_call E t),
       onErr (ignoreA (os_remove E t)) (mapE CloseTemp (os_fd_call E t)),
       onErr (ignoreA (os_remove E t)) (mapE RenameTemp (os_rename E t (spath s)))])
    (\<lambda>_ w'. fs w' (spath s) = Some (File (Doc (encode_state (state s))) mode_0600)
             \<and> same_but (insert (spath s) (key_temps s)) w w')
    (\<lambda>_ w'. fs w' (spath s) = fs w (spath s) \<and> same_but (key_temps s) w w')
    (\<lambda>w'. fs w' (spath s) = fs w (spath s) \<and> same_but (key_temps s) w w') ?w"
    using persist_body [OF t assms, of ?w "Bytes []" mode_0600] by (simp add: wp_def)
qed simp_all

interpretation ks_file: durable_writer persist spath key_temps "\<lambda>s. Doc (encode_state (state s))"
  by unfold_locales (rule wp_mono [OF persist_contract]; auto)

section \<open>Lookup and the list updates\<close>

abbreviation names :: "key list \<Rightarrow> gostring list" where
  "names ks \<equiv> map Name ks"

lemma lookup_Nil [simp]: "lookup n [] = None"
  by (simp add: lookup_def)

lemma lookup_Cons [simp]: "lookup n (k # ks) = (if Name k = n then Some k else lookup n ks)"
  by (simp add: lookup_def)

lemma lookup_None: "lookup n ks = None \<longleftrightarrow> n \<notin> set (names ks)"
  by (induction ks) auto

lemma lookup_SomeD: "lookup n ks = Some k \<Longrightarrow> k \<in> set ks \<and> Name k = n"
  by (induction ks) (auto split: if_splits)

lemma lookup_mem: "distinct (names ks) \<Longrightarrow> k \<in> set ks \<Longrightarrow> lookup (Name k) ks = Some k"
  by (induction ks) auto

lemma lookup_append: "lookup n (ks @ ks') = (case lookup n ks of None \<Rightarrow> lookup n ks' | r \<Rightarrow> r)"
  by (induction ks) auto

lemma remove_at_Cons [simp]:
  "remove_at 0 (x # xs) = xs" "remove_at (Suc i) (x # xs) = x # remove_at i xs"
  by (simp_all add: remove_at_def)

lemma map_remove_at: "map f (remove_at i xs) = remove_at i (map f xs)"
  by (simp add: remove_at_def take_map drop_map)

lemma set_remove_at_subset: "set (remove_at i xs) \<subseteq> set xs"
  by (auto simp: remove_at_def dest: in_set_takeD in_set_dropD)

lemma distinct_remove_at: "distinct xs \<Longrightarrow> distinct (remove_at i xs)"
proof (induction xs arbitrary: i)
  case (Cons x xs)
  then show ?case
    using set_remove_at_subset [of _ xs] by (cases i) auto
qed (simp add: remove_at_def)

lemma lookup_remove_at:
  "distinct (names ks) \<Longrightarrow> i < length ks \<Longrightarrow>
     lookup n (remove_at i ks) = (if n = Name (ks ! i) then None else lookup n ks)"
proof (induction ks arbitrary: i)
  case (Cons k ks)
  show ?case
  proof (cases i)
    case 0
    then show ?thesis using Cons.prems by (auto simp: lookup_None)
  next
    case (Suc j)
    moreover from this Cons.prems have "Name (ks ! j) \<in> set (names ks)" by simp
    then have "Name (ks ! j) \<noteq> Name k" using Cons.prems by auto
    ultimately show ?thesis using Cons by auto
  qed
qed simp

lemma names_rename_first:
  "distinct (names ks) \<Longrightarrow>
     names (rename_first a b ks) = map (\<lambda>n. if n = a then b else n) (names ks)"
proof (induction ks)
  case (Cons k ks)
  then show ?case by (auto simp: image_iff)
qed simp

lemma rename_first_other_fields:
  "map URL (rename_first a b ks) = map URL ks"
  "map LabelFromURL (rename_first a b ks) = map LabelFromURL ks"
  "map AddedAt (rename_first a b ks) = map AddedAt ks"
  "length (rename_first a b ks) = length ks"
  by (induction ks) auto

lemma rename_first_undo: "b \<notin> set (names ks) \<Longrightarrow> rename_first b a (rename_first a b ks) = ks"
  by (induction ks) auto

lemma lookup_rename_first:
  assumes "b \<notin> set (names ks)" "a \<in> set (names ks)" "distinct (names ks)"
  shows "lookup n (rename_first a b ks) =
       (if n = b then map_option (\<lambda>k. k\<lparr>Name := b\<rparr>) (lookup a ks)
        else if n = a then None else lookup n ks)"
  using assms
proof (induction ks)
  case (Cons k ks)
  show ?case
  proof (cases "Name k = a")
    case True
    then show ?thesis using Cons.prems lookup_None [of a ks] by auto
  next
    case False
    then show ?thesis using Cons by auto
  qed
qed simp

section \<open>Well-formed states\<close>

definition ks_wf :: "fileState \<Rightarrow> bool" where
  "ks_wf st \<longleftrightarrow> distinct (names (Keys st)) \<and> distinct (map URL (Keys st))
     \<and> list_all nameOK (names (Keys st)) \<and> list_all (\<lambda>u. has_prefix u ''ss://'') (map URL (Keys st))
     \<and> length (Keys st) \<le> maxKeys"

definition active_ok :: "fileState \<Rightarrow> bool" where
  "active_ok st \<longleftrightarrow> Active st = [] \<or> Active st \<in> set (names (Keys st))"

lemma nameOK_nonempty: "nameOK n \<Longrightarrow> n \<noteq> []"
  by auto

lemma set_state_sel [simp]:
  "state (set_state f s) = f (state s)" "spath (set_state f s) = spath s"
  by (simp_all add: set_state_def)

lemma set_state_set_state [simp]: "set_state g (set_state f s) = set_state (\<lambda>x. g (f x)) s"
  by (simp add: set_state_def)

lemma set_state_id: "f (state s) = state s \<Longrightarrow> set_state f s = s"
  by (simp add: set_state_def)

text \<open>The three endings of a mutating method.\<close>

lemma commit_or_cases:
  assumes "commit_or E s1 back a w = (r, (s', w'))"
  obtains (ok) "r = Ret a" "s' = s1" "persist E s1 w = (Ret (), w')"
    | (failed) e where "r = Throw (PersistFailed e)" "s' = back s1" "persist E s1 w = (Throw e, w')"
    | (dead) "r = Dead" "s' = s1" "persist E s1 w = (Dead, w')"
  using assms by (auto simp: commit_or_def split: prod.splits outcome.splits)

lemma length_remove_at_le: "length (remove_at i xs) \<le> length xs"
  by (simp add: remove_at_def)

lemma list_all_remove_at: "list_all p xs \<Longrightarrow> list_all p (remove_at i xs)"
  using set_remove_at_subset [of i xs] by (auto simp: list_all_iff)

lemma commit_or_RetD:
  "commit_or E s1 back a w = (Ret b, (s', w')) \<Longrightarrow> s' = s1 \<and> persist E s1 w = (Ret (), w')"
  by (erule commit_or_cases) auto

text \<open>Persisting succeeds when no call fails: the way out is open.\<close>

lemma persist_succeeds:
  assumes "\<forall>t. fate E t = Proceed" "\<forall>m. fs w (spath s) \<noteq> Some (Dir m)"
    "fs w (filepath_dir (spath s) @ ''/'' @ ''.keys.'' @ rnd E (Suc (clock w)) @ ''.tmp'') = None"
    "spath s \<notin> key_temps s"
  shows "\<exists>w'. persist E s w = (Ret (), w') \<and> clock w < clock w'
    \<and> (\<forall>q. q \<noteq> spath s \<longrightarrow> q \<notin> key_temps s \<longrightarrow> fs w' q = fs w q)"
proof -
  have ne: "filepath_dir (spath s) @ ''/'' @ ''.keys.'' @ rnd E (Suc (clock w)) @ ''.tmp'' \<noteq> spath s"
    using key_tempsI [of s "rnd E (Suc (clock w))"] assms(4) by auto
  have ok: "fst (persist E s w) = Ret () \<and> clock w < clock (snd (persist E s w))"
    using assms ne
    by (simp add: persist_def effect_defs os_call_defs put_data_def set_node_def
        split: option.split node.split)
  then obtain w' where w': "persist E s w = (Ret (), w')" "clock w < clock w'"
    by (cases "persist E s w") auto
  from wp_RetD [OF persist_contract [OF assms(4)] this(1)] show ?thesis
    using w' by (auto simp: same_but_def)
qed

lemma wf_remove_at: "ks_wf st \<Longrightarrow> ks_wf (st\<lparr>Keys := remove_at i (Keys st)\<rparr>)"
  using length_remove_at_le [of i "Keys st"]
  by (simp add: ks_wf_def map_remove_at distinct_remove_at list_all_remove_at)

lemma wf_rename_first:
  assumes "ks_wf st" "nameOK b" "b \<notin> set (names (Keys st))"
  shows "ks_wf (st\<lparr>Keys := rename_first a b (Keys st)\<rparr>)"
proof -
  have "distinct (map (\<lambda>n. if n = a then b else n) (names (Keys st)))"
    using assms by (auto simp: ks_wf_def distinct_map inj_on_def)
  with assms show ?thesis
    by (auto simp: ks_wf_def names_rename_first rename_first_other_fields list_all_iff)
qed

lemma wf_snoc:
  assumes "ks_wf st" "length (Keys st) < maxKeys" "nameOK (Name k)" "has_prefix (URL k) ''ss://''"
    "Name k \<notin> set (names (Keys st))" "URL k \<notin> set (map URL (Keys st))"
  shows "ks_wf (st\<lparr>Keys := Keys st @ [k]\<rparr>)"
  using assms by (auto simp: ks_wf_def)

lemma ks_wf_Active [simp]: "ks_wf (st\<lparr>Active := a\<rparr>) = ks_wf st"
  by (simp add: ks_wf_def)

lemma ks_wf_Last [simp]: "ks_wf (st\<lparr>LastConnectedAt := t\<rparr>) = ks_wf st"
  by (simp add: ks_wf_def)

section \<open>Every operation keeps the store well-formed\<close>

text \<open>The store after an operation, whatever its ending.\<close>

abbreviation store_after :: "('e, 'a) outcome \<times> (store \<times> world) \<Rightarrow> fileState" where
  "store_after r \<equiv> state (fst (snd r))"

lemma commit_or_wf:
  assumes "ks_wf (state s1)" "ks_wf (state (back s1))"
  shows "ks_wf (store_after (commit_or E s1 back a w))"
  using assms by (simp add: commit_or_def split: prod.split outcome.split)

lemma add_rollback_append:
  "add_rollback (st\<lparr>Keys := ks @ [k], Active := a\<rparr>) =
     st\<lparr>Keys := ks, Active := (if ks = [] then [] else a)\<rparr>"
  by (simp add: add_rollback_def)

text \<open>\<open>Add\<close> either refuses, touching nothing, or persists the list with the new key.\<close>

lemma Add_cases:
  obtains (refused) e where "Add E url sug (s, w) = (Throw e, (s, w))" "\<nexists>p. e = PersistFailed p"
  | (commit) k a where
      "Add E url sug (s, w) = commit_or E
         (set_state (\<lambda>_. (state s)\<lparr>Keys := Keys (state s) @ [k], Active := a\<rparr>) s)
         (set_state add_rollback) k w"
      "a = (if Active (state s) = [] then Name k else Active (state s))"
      "URL k = trim_space url" "has_prefix (URL k) ''ss://''" "LabelFromURL k = extractLabel (URL k)"
      "Name k = (if sug = [] then deriveName (LabelFromURL k) (names (Keys (state s))) else sug)"
      "AddedAt k = now E (clock w)"
      "length (Keys (state s)) < maxKeys" "nameOK (Name k)"
      "Name k \<notin> set (names (Keys (state s)))" "URL k \<notin> set (map URL (Keys (state s)))"
proof -
  define n where "n = (if sug = [] then deriveName (extractLabel (trim_space url))
     (names (Keys (state s))) else sug)"
  define k where "k = \<lparr>Name = n, URL = trim_space url,
     LabelFromURL = extractLabel (trim_space url), AddedAt = now E (clock w)\<rparr>"
  define a where "a = (if Active (state s) = [] then n else Active (state s))"
  note Add_folded = Add_def Let_def prod.case n_def [symmetric] k_def [symmetric] a_def [symmetric]
  show thesis
  proof (cases "has_prefix (trim_space url) ''ss://'' \<and> length (Keys (state s)) < maxKeys
      \<and> find (\<lambda>k. URL k = trim_space url) (Keys (state s)) = None \<and> nameOK n
      \<and> lookup n (Keys (state s)) = None")
    case True
    then have "validateName n = Inr ()" by (simp only: validateName_ok)
    with True have "Add E url sug (s, w) = commit_or E
         (set_state (\<lambda>_. (state s)\<lparr>Keys := Keys (state s) @ [k], Active := a\<rparr>) s)
         (set_state add_rollback) k w"
      unfolding Add_folded by simp
    note C = this
    have k: "Name k = n" "URL k = trim_space url"
      "LabelFromURL k = extractLabel (trim_space url)" "AddedAt k = now E (clock w)"
      by (simp_all add: k_def)
    have N: "n \<notin> set (names (Keys (state s)))" using True lookup_None by blast
    have U: "trim_space url \<notin> set (map URL (Keys (state s)))"
      using True by (auto simp: find_None_iff)
    show thesis
    proof (rule commit [where k = k and a = a, OF C])
      show "a = (if Active (state s) = [] then Name k else Active (state s))"
        by (simp only: k a_def)
      show "Name k = (if sug = [] then deriveName (LabelFromURL k) (names (Keys (state s))) else sug)"
        by (simp only: k n_def)
      show "Name k \<notin> set (names (Keys (state s)))" unfolding k by (rule N)
      show "URL k \<notin> set (map URL (Keys (state s)))" unfolding k by (rule U)
    qed (use True in \<open>simp_all only: k\<close>)
  next
    case False
    then have "\<exists>e. Add E url sug (s, w) = (Throw e, (s, w)) \<and> (\<nexists>p. e = PersistFailed p)"
      using validateName_ok [of n] unfolding Add_folded
      by (cases "validateName n"; cases "lookup n (Keys (state s))";
          cases "find (\<lambda>k. URL k = trim_space url) (Keys (state s))") simp_all
    then show thesis using refused by blast
  qed
qed

lemma Add_wf:
  assumes "ks_wf (state s)"
  shows "ks_wf (store_after (Add E url sug (s, w)))"
proof (cases rule: Add_cases [of E url sug s w])
  case (commit k a)
  have "ks_wf ((state s)\<lparr>Keys := Keys (state s) @ [k]\<rparr>)"
    by (intro wf_snoc assms commit)
  then show ?thesis
    using assms by (auto simp: commit(1) add_rollback_append intro!: commit_or_wf)
qed (use assms in simp)

lemma Remove_wf:
  assumes "ks_wf (state s)"
  shows "ks_wf (store_after (Remove E n (s, w)))"
proof (cases "find_index (\<lambda>k. Name k = n) (Keys (state s))")
  case (Some i)
  then have i: "i < length (Keys (state s))" by (auto dest: find_index_SomeD)
  let ?ks = "Keys (state s)"
  have "mset (remove_at i ?ks @ [?ks ! i]) = mset ?ks"
    using mset_remove_at [OF i] by simp
  then have "mset (map f (remove_at i ?ks @ [?ks ! i])) = mset (map f ?ks)" for f :: "key \<Rightarrow> gostring"
    by (metis mset_map)
  then have "distinct (map f (remove_at i ?ks @ [?ks ! i])) = distinct (map f ?ks)"
    "set (map f (remove_at i ?ks @ [?ks ! i])) = set (map f ?ks)" for f :: "key \<Rightarrow> gostring"
    by (metis mset_eq_imp_distinct_iff, metis mset_eq_setD)
  moreover have "length (remove_at i ?ks @ [?ks ! i]) = length ?ks"
    using \<open>mset (remove_at i ?ks @ [?ks ! i]) = mset ?ks\<close> by (metis mset_eq_length)
  ultimately have "ks_wf (state s\<lparr>Keys := remove_at i ?ks @ [?ks ! i]\<rparr>)"
    using assms by (simp only: ks_wf_def fileState.simps list.pred_set fileState.select_convs
        fileState.update_convs) (simp add: ks_wf_def list_all_iff)
  with Some show ?thesis
    using assms by (simp add: Remove_def Let_def) (intro conjI impI commit_or_wf; simp add: wf_remove_at)
qed (use assms in \<open>simp add: Remove_def Let_def\<close>)

lemma Rename_wf: "ks_wf (state s) \<Longrightarrow> ks_wf (store_after (Rename E a b (s, w)))"
  unfolding Rename_def Let_def
  by (auto intro!: commit_or_wf wf_rename_first
      simp: lookup_None rename_first_undo validateName_ok split: sum.split)

lemma Use_wf: "ks_wf (state s) \<Longrightarrow> ks_wf (store_after (Use E n (s, w)))"
  by (auto simp: Use_def Let_def intro!: commit_or_wf)

lemma MarkConnected_wf: "ks_wf (state s) \<Longrightarrow> ks_wf (store_after (MarkConnected E n (s, w)))"
  by (auto simp: MarkConnected_def Let_def intro!: commit_or_wf)

datatype ks_op = OpAdd gostring gostring | OpRemove gostring | OpRename gostring gostring
  | OpUse gostring | OpMarkConnected gostring

definition voidA :: "('s, 'e, 'a) act \<Rightarrow> ('s, 'e, unit) act" where
  "voidA m = bindA m (\<lambda>_. ret ())"

lemma snd_voidA [simp]: "snd (voidA m s) = snd (m s)"
  by (simp add: voidA_def bindA_def ret_def split: prod.split outcome.split)

fun ks_exec :: "env \<Rightarrow> ks_op \<Rightarrow> unit ks_act" where
  "ks_exec E (OpAdd u n) = voidA (Add E u n)"
| "ks_exec E (OpRemove n) = Remove E n"
| "ks_exec E (OpRename a b) = Rename E a b"
| "ks_exec E (OpUse n) = Use E n"
| "ks_exec E (OpMarkConnected n) = MarkConnected E n"

definition ks_step :: "env \<Rightarrow> ks_op \<Rightarrow> store \<times> world \<Rightarrow> bool \<times> (store \<times> world)" where
  "ks_step E req sw = (case ks_exec E req sw of (r, sw') \<Rightarrow> (r \<noteq> Dead, sw'))"

lemma ks_exec_wf: "ks_wf (state s) \<Longrightarrow> ks_wf (store_after (ks_exec E req (s, w)))"
  by (cases req) (simp_all add: Add_wf Remove_wf Rename_wf Use_wf MarkConnected_wf)

lemma snd_ks_step [simp]: "snd (ks_step E req sw) = snd (ks_exec E req sw)"
  by (simp add: ks_step_def split: prod.split)

interpretation ks_run: request_machine "ks_step E" "\<lambda>(s, w). ks_wf (state s)" for E
proof unfold_locales
  fix sw :: "store \<times> world" and req
  assume "case sw of (s, w) \<Rightarrow> ks_wf (state s)"
  then show "case snd (ks_step E req sw) of (s, w) \<Rightarrow> ks_wf (state s)"
    using ks_exec_wf [of "fst sw" E req "snd sw"] by (simp add: case_prod_beta)
qed

section \<open>The shape of every mutating operation\<close>

lemma voidA_eqI:
  "m sw = commit_or E s1 back a w \<Longrightarrow> voidA m sw = commit_or E s1 back () w"
  "m sw = (Throw e, sw') \<Longrightarrow> voidA m sw = (Throw e, sw')"
  by (auto simp: voidA_def bindA_def ret_def commit_or_def split: prod.split outcome.split)

text \<open>An operation either answers at once, with store and world untouched, or persists a new
  state: the list of keys it builds, and the state it rolls back to.\<close>

fun new_state :: "ks_op \<Rightarrow> key \<Rightarrow> time \<Rightarrow> fileState \<Rightarrow> fileState" where
  "new_state (OpAdd u n) k t st = st\<lparr>Keys := Keys st @ [k],
     Active := (if Active st = [] then Name k else Active st)\<rparr>"
| "new_state (OpRemove n) k t st = st\<lparr>
     Keys := remove_at (the (find_index (\<lambda>k. Name k = n) (Keys st))) (Keys st),
     Active := (if Active st = n then [] else Active st)\<rparr>"
| "new_state (OpRename a b) k t st = st\<lparr>Keys := rename_first a b (Keys st),
     Active := (if Active st = a then b else Active st)\<rparr>"
| "new_state (OpUse n) k t st = st\<lparr>Active := n\<rparr>"
| "new_state (OpMarkConnected n) k t st = st\<lparr>Active := n, LastConnectedAt := t\<rparr>"

fun rolled_back :: "ks_op \<Rightarrow> key \<Rightarrow> fileState \<Rightarrow> fileState" where
  "rolled_back (OpAdd u n) k st = st\<lparr>Active := (if Keys st = [] then [] else
     if Active st = [] then Name k else Active st)\<rparr>"
| "rolled_back (OpRemove n) k st = (let i = the (find_index (\<lambda>k. Name k = n) (Keys st)) in
     st\<lparr>Keys := remove_at i (Keys st) @ [Keys st ! i]\<rparr>)"
| "rolled_back _ k st = st"

text \<open>What is known of the arguments when an operation gets as far as persisting.\<close>

fun accepted :: "env \<Rightarrow> ks_op \<Rightarrow> key \<Rightarrow> nat \<Rightarrow> fileState \<Rightarrow> bool" where
  "accepted E (OpAdd u n) k t st \<longleftrightarrow>
     URL k = trim_space u \<and> has_prefix (URL k) ''ss://'' \<and> LabelFromURL k = extractLabel (URL k)
     \<and> Name k = (if n = [] then deriveName (LabelFromURL k) (names (Keys st)) else n)
     \<and> AddedAt k = now E t \<and> length (Keys st) < maxKeys \<and> nameOK (Name k)
     \<and> Name k \<notin> set (names (Keys st)) \<and> URL k \<notin> set (map URL (Keys st))"
| "accepted E (OpRemove n) k t st \<longleftrightarrow> n \<in> set (names (Keys st))"
| "accepted E (OpRename a b) k t st \<longleftrightarrow>
     nameOK b \<and> a \<noteq> b \<and> a \<in> set (names (Keys st)) \<and> b \<notin> set (names (Keys st))"
| "accepted E (OpUse n) k t st \<longleftrightarrow> n \<in> set (names (Keys st))"
| "accepted E (OpMarkConnected n) k t st \<longleftrightarrow> n \<in> set (names (Keys st))"

lemma find_index_names:
  "find_index (\<lambda>k. Name k = n) ks = None \<longleftrightarrow> n \<notin> set (names ks)"
  by (auto simp: find_index_None)

lemma find_name:
  assumes "n \<in> set (names ks)"
  obtains i where "find_index (\<lambda>k. Name k = n) ks = Some i" "i < length ks" "Name (ks ! i) = n"
  using assms find_index_names [of n ks] find_index_SomeD [of "\<lambda>k. Name k = n" ks]
  by (cases "find_index (\<lambda>k. Name k = n) ks") auto

lemma commit_or_eqI:
  "s1 = s2 \<Longrightarrow> back s1 = back' s2 \<Longrightarrow> commit_or E s1 back a w = commit_or E s2 back' a w"
  by (simp add: commit_or_def split: prod.split outcome.split)

lemma commit_or_back_cong:
  "back s1 = back' s1 \<Longrightarrow> commit_or E s1 back a w = commit_or E s1 back' a w"
  by (simp add: commit_or_def split: prod.split outcome.split)

lemma ks_exec_cases:
  obtains (still) r where "ks_exec E req (s, w) = (r, (s, w))" "r \<noteq> Dead"
      "\<nexists>p. r = Throw (PersistFailed p)" "r \<noteq> Ret () \<or> (\<exists>a. req = OpRename a a)"
  | (commit) k where "accepted E req k (clock w) (state s)"
      "ks_exec E req (s, w) = commit_or E (set_state (new_state req k (now E (clock w))) s)
         (\<lambda>_. set_state (rolled_back req k) s) () w"
proof (cases req)
  case (OpAdd u n)
  show thesis
  proof (cases rule: Add_cases [of E u n s w])
    case (refused e)
    then show thesis using still [of "Throw e"] by (simp add: OpAdd voidA_eqI)
  next
    case (commit k a)
    have "voidA (Add E u n) (s, w) = commit_or E
         (set_state (\<lambda>_. (state s)\<lparr>Keys := Keys (state s) @ [k], Active := a\<rparr>) s)
         (set_state add_rollback) () w"
      by (rule voidA_eqI(1)) (rule commit(1))
    also have "\<dots> = commit_or E (set_state (new_state req k (now E (clock w))) s)
         (\<lambda>_. set_state (rolled_back req k) s) () w"
    proof -
      have eq: "set_state (\<lambda>_. (state s)\<lparr>Keys := Keys (state s) @ [k], Active := a\<rparr>) s
          = set_state (new_state req k (now E (clock w))) s"
        by (simp only: set_state_def OpAdd new_state.simps commit(2))
      have "set_state add_rollback (set_state (new_state req k (now E (clock w))) s)
          = set_state (rolled_back req k) s"
        by (cases s) (simp add: set_state_def OpAdd add_rollback_append split del: if_split)
      then show ?thesis unfolding eq by (rule commit_or_back_cong)
    qed
    finally have "voidA (Add E u n) (s, w) = \<dots>" .
    with commit show thesis by (intro that(2) [of k]) (simp_all add: OpAdd)
  qed
next
  case (OpRemove n)
  show thesis
  proof (cases "find_index (\<lambda>k. Name k = n) (Keys (state s))")
    case None
    then show thesis by (intro that(1) [of "Throw (NoKeyNamed n)"]) (simp_all add: OpRemove Remove_def)
  next
    case (Some i)
    then have "n \<in> set (names (Keys (state s)))" using find_index_names by (metis option.distinct(1))
    with Some show thesis
      by (intro that(2)) (auto simp: OpRemove Remove_def Let_def set_state_def
          intro!: commit_or_eqI)
  qed
next
  case (OpRename a b)
  show thesis
  proof (cases "nameOK b \<and> a \<noteq> b \<and> a \<in> set (names (Keys (state s))) \<and> b \<notin> set (names (Keys (state s)))")
    case True
    then have v: "validateName b = Inr ()" by (simp only: validateName_ok)
    obtain k0 where "lookup a (Keys (state s)) = Some k0"
      using True lookup_None [of a "Keys (state s)"] by (cases "lookup a (Keys (state s))") auto
    moreover have "lookup b (Keys (state s)) = None" using True by (simp add: lookup_None)
    ultimately have l: "lookup b (Keys (state s)) = None" "lookup a (Keys (state s)) = Some k0"
      by blast+
    from True have u: "rename_first b a (rename_first a b (Keys (state s))) = Keys (state s)"
      by (simp add: rename_first_undo)
    have "Rename E a b (s, w) = commit_or E (set_state (new_state req k (now E (clock w))) s)
         (\<lambda>_. set_state (rolled_back req k) s) () w" for k
      using True v l u unfolding Rename_def OpRename
      by (simp add: Let_def split del: if_split)
        (rule commit_or_eqI; simp add: set_state_def split del: if_split)
    with True show thesis by (intro that(2)) (simp_all add: OpRename)
  next
    case False
    show thesis
    proof (cases "validateName b")
      case (Inl e)
      then show thesis by (intro that(1) [of "Throw (BadName e)"]) (simp_all add: OpRename Rename_def)
    next
      case (Inr u)
      with False validateName_Inr [of b u] have
        "a = b \<or> a \<notin> set (names (Keys (state s))) \<or> b \<in> set (names (Keys (state s)))" by blast
      with Inr have "\<exists>r. ks_exec E req (s, w) = (r, (s, w)) \<and> r \<noteq> Dead
          \<and> (\<nexists>p. r = Throw (PersistFailed p)) \<and> (r \<noteq> Ret () \<or> (\<exists>a. req = OpRename a a))"
        by (cases "a = b"; cases "lookup b (Keys (state s))"; cases "lookup a (Keys (state s))")
          (auto simp: OpRename Rename_def lookup_None dest: lookup_SomeD)
      then show thesis using that(1) by blast
    qed
  qed
next
  case (OpUse n)
  show thesis
  proof (cases "lookup n (Keys (state s))")
    case None
    then show thesis by (intro that(1) [of "Throw (NoKeyNamed n)"]) (simp_all add: OpUse Use_def)
  next
    case (Some k)
    then have "Use E n (s, w) = commit_or E (set_state (new_state req k (now E (clock w))) s)
         (\<lambda>_. set_state (rolled_back req k) s) () w"
      unfolding Use_def OpUse by (simp add: Let_def) (rule commit_or_eqI; simp add: set_state_def)
    with Some show thesis by (intro that(2)) (auto simp: OpUse dest: lookup_SomeD)
  qed
next
  case (OpMarkConnected n)
  show thesis
  proof (cases "lookup n (Keys (state s))")
    case None
    then show thesis by (intro that(1) [of "Throw (NoKeyNamed n)"]) (simp_all add: OpMarkConnected MarkConnected_def)
  next
    case (Some k)
    then have "MarkConnected E n (s, w) = commit_or E (set_state (new_state req k (now E (clock w))) s)
         (\<lambda>_. set_state (rolled_back req k) s) () w"
      unfolding MarkConnected_def OpMarkConnected
      by (simp add: Let_def) (rule commit_or_eqI; simp add: set_state_def)
    with Some show thesis by (intro that(2)) (auto simp: OpMarkConnected dest: lookup_SomeD)
  qed
qed

end
