(* ===== verification/RefEnv.thy ===== *)
theory RefEnv
  imports CrashLogic "HOL-Library.Char_ord" "HOL-Library.List_Lexorder" "HOL-Library.Product_Lexorder"
begin

text \<open>
  A concrete environment: a small network state with the documented effects of the calls the
  program makes, a resolver that knows one host, and a fault plan given as an argument. The
  theorems hold for every environment that satisfies their hypotheses; this one shows that
  the hypotheses can be satisfied, and concrete runs are evaluated in it.
\<close>

definition ref_tun_open :: "gostring \<Rightarrow> netstate \<Rightarrow> oserr + netstate" where
  "ref_tun_open n s = (if n \<in> links s then Inl EBUSY else Inr (s\<lparr>links := insert n (links s)\<rparr>))"

definition ref_tun_close :: "gostring \<Rightarrow> netstate \<Rightarrow> netstate" where
  "ref_tun_close n s = s\<lparr>links := links s - {n}, routes := Set.filter (\<lambda>r. rt_dev r \<noteq> n) (routes s)\<rparr>"

definition ref_route_add :: "iproute \<Rightarrow> netstate \<Rightarrow> oserr + netstate" where
  "ref_route_add r s = (if r \<in> routes s then Inl EEXIST else Inr (s\<lparr>routes := insert r (routes s)\<rparr>))"

definition ref_rule_add :: "iprule \<Rightarrow> netstate \<Rightarrow> oserr + netstate" where
  "ref_rule_add r s = (if r \<in># rules s then Inl EEXIST else Inr (s\<lparr>rules := add_mset r (rules s)\<rparr>))"

text \<open>\<open>ip rule del priority p\<close> removes one rule of that priority, if there is any: here the
  one that comes first in the order of tables and destinations.\<close>

definition ref_rule_pick :: "int \<Rightarrow> iprule multiset \<Rightarrow> iprule" where
  "ref_rule_pick p m = (case hd (sorted_list_of_multiset (image_mset (\<lambda>r. (ru_table r, ru_to r)) m)) of
     (t, d) \<Rightarrow> \<lparr>ru_priority = p, ru_table = t, ru_to = d\<rparr>)"

definition ref_rule_del :: "int \<Rightarrow> netstate \<Rightarrow> netstate" where
  "ref_rule_del p s = (let m = filter_mset (\<lambda>r. ru_priority r = p) (rules s) in
     if m = {#} then s else s\<lparr>rules := rules s - {#ref_rule_pick p m#}\<rparr>)"

lemma ref_rule_pick_in:
  assumes "m \<noteq> {#}" "\<And>r. r \<in># m \<Longrightarrow> ru_priority r = p"
  shows "ref_rule_pick p m \<in># m"
proof -
  let ?l = "sorted_list_of_multiset (image_mset (\<lambda>r. (ru_table r, ru_to r)) m)"
  have "mset ?l \<noteq> {#}" using assms(1) by (simp only: mset_sorted_list_of_multiset image_mset_is_empty_iff) simp
  then have "?l \<noteq> []" by (metis mset.simps(1))
  then have "hd ?l \<in> set ?l" by (rule hd_in_set)
  then have "hd ?l \<in># image_mset (\<lambda>r. (ru_table r, ru_to r)) m" by simp
  then obtain r where r: "r \<in># m" "hd ?l = (ru_table r, ru_to r)" by auto
  then have "ref_rule_pick p m = r" using assms(2) [OF r(1)] by (simp add: ref_rule_pick_def)
  with r(1) show ?thesis by simp
qed

definition ref_route_flush :: "int \<Rightarrow> netstate \<Rightarrow> netstate" where
  "ref_route_flush t s = s\<lparr>routes := Set.filter (\<lambda>r. rt_table r \<noteq> t) (routes s)\<rparr>"

definition ref_link_del :: "gostring \<Rightarrow> netstate \<Rightarrow> oserr + netstate" where
  "ref_link_del n s = (if n \<in> links s then Inr (ref_tun_close n s) else Inl EINVAL)"

definition ref_env :: "(nat \<Rightarrow> verdict) \<Rightarrow> env" where
  "ref_env f = \<lparr>fate = f, now = int, rnd = (\<lambda>n. dec n), sha256 = (\<lambda>s. dec (length s)),
     hostname = ''psl'', pid = 12345, json_text = (\<lambda>_. []), have_tool = (\<lambda>_. True),
     panic_path = ''/usr/local/sbin/ouf-panic'',
     parse_ipnet = (\<lambda>c. Some (takeWhile (\<lambda>x. x \<noteq> CHR ''/'') c, c)),
     tun_open = ref_tun_open, tun_close = ref_tun_close,
     addr_add = (\<lambda>_ _ _. True), link_set_up = (\<lambda>_ _. True),
     route_add = ref_route_add, rule_add = ref_rule_add,
     url_parts = (\<lambda>u. Some (''ss'', ''1.1.1.1'')),
     lookup_ip = (\<lambda>h. Some [Some h]),
     stream_dialer = (\<lambda>_. True), packet_listener = (\<lambda>_. True), sdk_ready = (\<lambda>_. True),
     ip_rule_del = ref_rule_del, ip_route_flush = ref_route_flush, ip_link_del = ref_link_del\<rparr>"

lemma ref_env_fate [simp]: "fate (ref_env f) = f"
  by (simp add: ref_env_def)

lemma ref_env_simps [simp]:
  "now (ref_env f) = int" "rnd (ref_env f) = (\<lambda>n. dec n)"
  by (simp_all add: ref_env_def)

text \<open>A world with no files at all, and fault plans: everything succeeds; everything succeeds
  until call \<open>n\<close> fails, or until the process dies in call \<open>n\<close>.\<close>

definition empty_net :: netstate where
  "empty_net = \<lparr>links = {''lo''}, rules = {#}, routes = {}\<rparr>"

definition empty_world :: world where
  "empty_world = \<lparr>fs = (\<lambda>_. None), sysctls = (\<lambda>_. None), net = empty_net, clock = 0\<rparr>"

definition no_faults :: "nat \<Rightarrow> verdict" where "no_faults n = Proceed"

definition fail_at :: "nat \<Rightarrow> nat \<Rightarrow> verdict" where
  "fail_at k n = (if n = k then Deny 0 else Proceed)"

definition kill_at :: "nat \<Rightarrow> nat \<Rightarrow> verdict" where
  "kill_at k n = (if n = k then Kill 0 else Proceed)"

end
