(* ===== verification/KeystoreProps.thy ===== *)
theory KeystoreProps
  imports KeystoreFacts RefEnv
begin

text \<open>
  What the key store promises its clients, and the witnesses at concrete stores. The names
  come first, then the operations, the file, and the way back from the file.
\<close>

section \<open>Names\<close>

text \<open>C16. A name derived for a new key is accepted by the name check and is in use by no stored
  key, as long as fewer than 9999 keys exist (a store holds at most 128).\<close>

theorem derived_name_valid_and_fresh:
  assumes "length existing < 9999"
  shows "validateName (deriveName label existing) = Inr () \<and> deriveName label existing \<notin> set existing"
  by (simp add: validateName_ok deriveName_nameOK deriveName_fresh [OF assms])

theorem derived_name_valid_and_fresh_witness:
  "validateName (deriveName ''Home Server'' [''home-server'']) = Inr ()
   \<and> deriveName ''Home Server'' [''home-server''] \<notin> set [''home-server'']"
  by (rule derived_name_valid_and_fresh) simp

text \<open>The name check accepts exactly the names of the documented grammar, and the errors
  come in the order: missing, too long, ill-formed.\<close>

theorem validateName_spec:
  "validateName n =
     (if nameOK n then Inr ()
      else Inl (if n = [] then NameRequired else if length n > 32 then NameTooLong else NameMismatch n))"
  by (auto simp: validateName_def nameOK_alt maxNameLen_def)

text \<open>C17. Adding without a suggested name never fails because of the name: neither the grammar
  check nor the uniqueness check can refuse a derived name.\<close>

theorem add_without_name_never_refused_for_its_name:
  "fst (Add E url [] (s, w)) \<noteq> Throw (BadName e) \<and> fst (Add E url [] (s, w)) \<noteq> Throw (NameInUse n)"
proof (cases "length (Keys (state s)) < maxKeys")
  case True
  let ?n = "deriveName (extractLabel (trim_space url)) (names (Keys (state s)))"
  have "?n \<notin> set (names (Keys (state s)))"
    using True by (intro deriveName_fresh) (simp add: maxKeys_def)
  moreover have "validateName ?n = Inr ()" by (simp add: validateName_ok deriveName_nameOK)
  ultimately show ?thesis
    by (auto simp: Add_def Let_def commit_or_def lookup_None split: option.split prod.split outcome.split)
qed (auto simp: Add_def Let_def)

text \<open>C12. The search for a name ends early: with \<open>n\<close> names taken, after at most \<open>n + 1\<close>
  candidates, at the first one that is free, so neither the end of the loop nor the constant
  name behind it is ever reached by a store of at most 128 keys.\<close>

theorem name_search_ends:
  assumes "length existing \<le> maxKeys"
  shows "(let base = (if normalize label = [] then ''key'' else normalize label) in
     deriveName label existing = base \<and> base \<notin> set existing
   \<or> (\<exists>m. 1 \<le> m \<and> m \<le> length existing + 1 \<and> deriveName label existing = candidate base m
       \<and> candidate base m \<notin> set existing \<and> (\<forall>l. 1 \<le> l \<and> l < m \<longrightarrow> candidate base l \<in> set existing)))"
proof -
  define base where "base = (if normalize label = [] then ''key'' else normalize label)"
  have ok: "nameOK base" unfolding base_def by (rule derived_base_nameOK)
  obtain j where j: "1 \<le> j" "j \<le> length existing + 1" "candidate base j \<notin> set existing"
    using candidate_free_early by blast
  have "j < 10000" using j(2) assms by (simp add: maxKeys_def)
  from derive_loop_stops [OF ok j(1) this j(3)] obtain m where m: "1 \<le> m" "m \<le> j"
    "derive_loop base existing 1 = candidate base m" "candidate base m \<notin> set existing"
    "\<forall>l. 1 \<le> l \<and> l < m \<longrightarrow> candidate base l \<in> set existing" by blast
  have "deriveName label existing = (if base \<notin> set existing \<and> nameOK base then base else derive_loop base existing 1)"
    by (simp only: deriveName_def Let_def base_def)
  with ok m j(2) show ?thesis unfolding base_def [symmetric] Let_def
    by (cases "base \<in> set existing") (auto intro!: exI [of _ m])
qed

theorem name_search_ends_witness:
  "let base = (if normalize ''Home'' = [] then ''key'' else normalize ''Home'') in
     deriveName ''Home'' [''home'', ''home-1''] = base \<and> base \<notin> set [''home'', ''home-1'']
   \<or> (\<exists>m. 1 \<le> m \<and> m \<le> length [''home'', ''home-1''] + 1 \<and> deriveName ''Home'' [''home'', ''home-1''] = candidate base m
       \<and> candidate base m \<notin> set [''home'', ''home-1'']
       \<and> (\<forall>l. 1 \<le> l \<and> l < m \<longrightarrow> candidate base l \<in> set [''home'', ''home-1'']))"
  by (rule name_search_ends) (simp add: maxKeys_def)

section \<open>Operations\<close>

definition demo_key :: "gostring \<Rightarrow> gostring \<Rightarrow> key" where
  "demo_key n u = \<lparr>Name = n, URL = u, LabelFromURL = [], AddedAt = 0\<rparr>"

definition demo_store :: store where
  "demo_store = \<lparr>spath = ''/e/keys.json'', state = \<lparr>stVersion = 1,
     Keys = [demo_key ''a'' ''ss://u@h'', demo_key ''b'' ''ss://v@h''], Active = ''a'', LastConnectedAt = 0\<rparr>\<rparr>"

lemmas eval_store = demo_store_def demo_key_def ks_wf_def active_ok_def maxKeys_def has_prefix_def
  name_start_def name_char_def alnum_def

lemma demo_store_wf: "ks_wf (state demo_store)"
  by (simp add: eval_store)

text \<open>C10. Names and URLs in a store stay pairwise distinct and well-formed, and their number
  within the limit, through every sequence of operations, under every pattern of failing
  system calls and at every point where the process may be killed.\<close>

theorem store_stays_wellformed:
  assumes "ks_wf (state s)"
  shows "ks_wf (state (fst (ks_run.run E reqs (s, w))))"
  using ks_run.run_inv [of "(s, w)" E reqs] assms by (simp add: case_prod_beta)

theorem store_stays_wellformed_witness:
  "ks_wf (state (fst (ks_run.run (ref_env no_faults) [OpRemove ''a'', OpUse ''b''] (demo_store, empty_world))))"
  by (rule store_stays_wellformed [OF demo_store_wf])

text \<open>C13. A refused or failed operation gives back the state it found: the same keys (in the same
  order, but after a failed removal, which puts the key back at the end), the same active
  pointer except after a failed addition, the same connection time.\<close>

theorem failed_operation_rolls_back:
  assumes "ks_exec E req (s, w) = (Throw e, (s', w'))"
  shows "mset (Keys (state s')) = mset (Keys (state s))
    \<and> LastConnectedAt (state s') = LastConnectedAt (state s)
    \<and> (case req of OpAdd u n \<Rightarrow> Keys (state s') = Keys (state s)
       | OpRemove n \<Rightarrow> Active (state s') = Active (state s)
       | _ \<Rightarrow> s' = s)"
proof (cases rule: ks_exec_cases [of E req s w])
  case (still r)
  with assms show ?thesis by (auto split: ks_op.split)
next
  case (commit k)
  with assms have s': "s' = set_state (rolled_back req k) s"
    by (auto elim!: commit_or_cases)
  show ?thesis
  proof (cases req)
    case (OpRemove n)
    with commit have "n \<in> set (names (Keys (state s)))" by simp
    then obtain i where "find_index (\<lambda>k. Name k = n) (Keys (state s)) = Some i"
      "i < length (Keys (state s))" by (rule find_name)
    with mset_put_back OpRemove show ?thesis by (simp add: s' Let_def)
  qed (simp_all add: s' set_state_id)
qed

theorem failed_operation_rolls_back_witness:
  "\<exists>s' w'. ks_exec (ref_env (fail_at 0)) (OpUse ''b'') (demo_store, empty_world)
       = (Throw (PersistFailed (TempFile EIO)), (s', w')) \<and> s' = demo_store"
proof -
  have run: "ks_exec (ref_env (fail_at 0)) (OpUse ''b'') (demo_store, empty_world)
     = (Throw (PersistFailed (TempFile EIO)), (demo_store, empty_world\<lparr>clock := 1\<rparr>))"
    by (simp add: Use_def commit_or_def persist_def bindA_def mapE_def os_create_temp_def sys_def
        fail_at_def empty_world_def demo_store_def demo_key_def set_state_def)
  show ?thesis
    using run failed_operation_rolls_back [OF run] by simp
qed

text \<open>C14. The active pointer names a stored key, or nothing, after every operation that keeps the
  process alive, whether it succeeds or fails, provided it did before; the one exception is
  an addition that fails.\<close>

theorem active_pointer_stays_valid:
  assumes "ks_wf (state s)" "active_ok (state s)" "ks_exec E req (s, w) = (r, (s', w'))"
    "r = Ret () \<or> (\<forall>u n. req \<noteq> OpAdd u n)"
  shows "r = Dead \<or> active_ok (state s')"
proof (cases rule: ks_exec_cases [of E req s w])
  case (still r)
  with assms show ?thesis by auto
next
  case (commit k)
  let ?st = "state s"
  have dist: "distinct (names (Keys ?st))" using assms(1) by (simp add: ks_wf_def)
  have new: "active_ok (new_state req k t ?st)" for t
  proof (cases req)
    case (OpRemove n)
    with commit have "n \<in> set (names (Keys ?st))" by simp
    then obtain i where i: "find_index (\<lambda>k. Name k = n) (Keys ?st) = Some i"
      "i < length (Keys ?st)" "Name (Keys ?st ! i) = n" by (rule find_name)
    then have "m \<in> set (names (remove_at i (Keys ?st))) \<longleftrightarrow> m \<in> set (names (Keys ?st)) \<and> m \<noteq> n" for m
      using lookup_remove_at [OF dist, of i m] lookup_None
      by (metis (full_types))
    with OpRemove i assms(2) show ?thesis by (auto simp: active_ok_def)
  next
    case (OpRename a b)
    with commit assms(2) show ?thesis
      by (auto simp: active_ok_def names_rename_first [OF dist])
  qed (use commit assms(2) in \<open>auto simp: active_ok_def\<close>)
  have backed: "active_ok (rolled_back req k ?st)" if "\<forall>u n. req \<noteq> OpAdd u n"
  proof (cases req)
    case (OpRemove n)
    with commit have "n \<in> set (names (Keys ?st))" by simp
    then obtain i where i: "find_index (\<lambda>k. Name k = n) (Keys ?st) = Some i"
      "i < length (Keys ?st)" by (rule find_name)
    then have "set (names (remove_at i (Keys ?st) @ [Keys ?st ! i])) = set (names (Keys ?st))"
      by (simp only: set_map set_put_back)
    with OpRemove i(1) assms(2) show ?thesis by (simp add: active_ok_def Let_def)
  qed (use that assms(2) in \<open>auto simp: active_ok_def\<close>)
  have "commit_or E (set_state (new_state req k (now E (clock w))) s)
       (\<lambda>_. set_state (rolled_back req k) s) () w = (r, (s', w'))"
    using commit(2) assms(3) by simp
  then show ?thesis
    by (cases rule: commit_or_cases) (use new backed assms(4) in auto)
qed

theorem active_pointer_stays_valid_witness:
  "\<exists>s' w'. ks_exec (ref_env (fail_at 0)) (OpUse ''b'') (demo_store, empty_world)
       = (Throw (PersistFailed (TempFile EIO)), (s', w')) \<and> active_ok (state s')"
proof -
  have run: "ks_exec (ref_env (fail_at 0)) (OpUse ''b'') (demo_store, empty_world)
     = (Throw (PersistFailed (TempFile EIO)), (demo_store, empty_world\<lparr>clock := 1\<rparr>))"
    by (simp add: Use_def commit_or_def persist_def bindA_def mapE_def os_create_temp_def sys_def
        fail_at_def empty_world_def demo_store_def demo_key_def set_state_def)
  have "active_ok (state demo_store)" by (simp add: eval_store)
  from active_pointer_stays_valid [OF demo_store_wf this run] show ?thesis using run by simp
qed

text \<open>C18. An addition whose persisting fails leaves a dangling active pointer when no key was
  active before: the rollback removes the key but keeps its name as the active one.\<close>

theorem failed_add_leaves_dangling_active:
  assumes "Active (state s) = []" "Keys (state s) \<noteq> []"
    "Add E url sug (s, w) = (Throw (PersistFailed e), (s', w'))"
  shows "Active (state s') \<noteq> [] \<and> lookup (Active (state s')) (Keys (state s')) = None"
proof (cases rule: Add_cases [of E url sug s w])
  case (refused e')
  with assms(3) show ?thesis by auto
next
  case (commit k a)
  with assms have "s' = set_state add_rollback (set_state
      (\<lambda>_. (state s)\<lparr>Keys := Keys (state s) @ [k], Active := a\<rparr>) s)"
    by (auto elim!: commit_or_cases)
  then have "state s' = (state s)\<lparr>Active := Name k\<rparr>"
    using assms(1,2) commit(2) by (simp add: add_rollback_append)
  moreover have "Name k \<noteq> []" using commit(9) nameOK_nonempty by blast
  ultimately show ?thesis using commit(10) lookup_None by simp
qed

definition idle_store :: store where
  "idle_store = set_state (\<lambda>st. st\<lparr>Active := []\<rparr>) demo_store"

theorem failed_add_leaves_dangling_active_witness:
  "\<exists>s' w'. Add (ref_env (fail_at 0)) ''ss://w@h'' ''c'' (idle_store, empty_world)
       = (Throw (PersistFailed (TempFile EIO)), (s', w'))
     \<and> Active (state s') \<noteq> [] \<and> lookup (Active (state s')) (Keys (state s')) = None"
proof -
  have t: "trim_space ''ss://w@h'' = ''ss://w@h''" by (rule trim_space_id) (simp_all add: is_space_def)
  have v: "validateName ''c'' = Inr ()" by (simp add: validateName_ok name_start_def alnum_def)
  have run: "\<exists>s' w'. Add (ref_env (fail_at 0)) ''ss://w@h'' ''c'' (idle_store, empty_world)
     = (Throw (PersistFailed (TempFile EIO)), (s', w'))"
    using t v by (simp add: Add_def Let_def commit_or_def persist_def bindA_def mapE_def
        os_create_temp_def sys_def fail_at_def empty_world_def idle_store_def demo_store_def
        demo_key_def set_state_def has_prefix_def maxKeys_def lookup_def)
  then obtain s' w' where run': "Add (ref_env (fail_at 0)) ''ss://w@h'' ''c'' (idle_store, empty_world)
     = (Throw (PersistFailed (TempFile EIO)), (s', w'))" by blast
  have "Active (state idle_store) = []" "Keys (state idle_store) \<noteq> []"
    by (simp_all add: idle_store_def demo_store_def)
  from failed_add_leaves_dangling_active [OF this run'] show ?thesis using run' by blast
qed

section \<open>The file\<close>

text \<open>C9. \<open>keys.json\<close> is replaced whole or not at all: after an operation that answers without an
  error the file is the encoding of the store in memory, with mode 0600, unless the operation
  had nothing to do; after a failed one, or one the process died in, it is what it was.\<close>

theorem keys_file_replaced_whole:
  assumes "spath s \<notin> key_temps s" "ks_exec E req (s, w) = (r, (s', w'))"
  shows "(r = Ret () \<longrightarrow> (s' = s \<and> w' = w)
       \<or> fs w' (spath s) = Some (File (Doc (encode_state (state s'))) mode_0600))
     \<and> (r \<noteq> Ret () \<longrightarrow> fs w' (spath s) = fs w (spath s))"
proof (cases rule: ks_exec_cases [of E req s w])
  case (still r)
  with assms(2) show ?thesis by auto
next
  case (commit k)
  define s1 where "s1 = set_state (new_state req k (now E (clock w))) s"
  have "spath s1 \<notin> key_temps s1" using assms(1) by (simp add: s1_def key_temps_def)
  from persist_contract [OF this, of E w] assms(2) commit(2) show ?thesis
    by (auto simp: wp_def s1_def elim!: commit_or_cases)
qed

theorem keys_file_replaced_whole_witness:
  "\<exists>s' w'. ks_exec (ref_env (fail_at 0)) (OpUse ''b'') (demo_store, empty_world)
       = (Throw (PersistFailed (TempFile EIO)), (s', w')) \<and> fs w' ''/e/keys.json'' = None"
proof -
  have run: "ks_exec (ref_env (fail_at 0)) (OpUse ''b'') (demo_store, empty_world)
     = (Throw (PersistFailed (TempFile EIO)), (demo_store, empty_world\<lparr>clock := 1\<rparr>))"
    by (simp add: Use_def commit_or_def persist_def bindA_def mapE_def os_create_temp_def sys_def
        fail_at_def empty_world_def demo_store_def demo_key_def set_state_def)
  have "filepath_dir ''/e/keys.json'' = ''/e''"
    by (simp add: filepath_dir_def last_index_byte_def)
  then have "spath demo_store \<notin> key_temps demo_store"
    by (simp add: demo_store_def key_temps_def)
  from keys_file_replaced_whole [OF this run] show ?thesis
    using run by (simp add: demo_store_def empty_world_def)
qed

definition key_valid :: "key \<Rightarrow> bool" where
  "key_valid k \<longleftrightarrow> valid_utf8 (Name k) \<and> valid_utf8 (URL k) \<and> valid_utf8 (LabelFromURL k)"

definition state_valid :: "fileState \<Rightarrow> bool" where
  "state_valid st \<longleftrightarrow> list_all key_valid (Keys st) \<and> valid_utf8 (Active st)
     \<and> - (2 ^ 63) \<le> stVersion st \<and> stVersion st < 2 ^ 63"

lemma key_member_simps [simp]:
  "key_member ''name'' v k = map_sum id (\<lambda>s. k\<lparr>Name := s\<rparr>) (dec_string ''name'' v (Name k))"
  "key_member ''url'' v k = map_sum id (\<lambda>s. k\<lparr>URL := s\<rparr>) (dec_string ''url'' v (URL k))"
  "key_member ''label_from_url'' v k =
     map_sum id (\<lambda>s. k\<lparr>LabelFromURL := s\<rparr>) (dec_string ''label_from_url'' v (LabelFromURL k))"
  "key_member ''added_at'' v k = map_sum id (\<lambda>t. k\<lparr>AddedAt := t\<rparr>) (dec_time ''added_at'' v (AddedAt k))"
  by (simp_all add: key_member_def eval_fields)

lemma state_member_simps [simp]:
  "state_member ''version'' v st =
     map_sum id (\<lambda>i. st\<lparr>stVersion := i\<rparr>) (dec_int_field ''version'' v (stVersion st))"
  "state_member ''keys'' (JArr js) st = map_sum id (\<lambda>ks. st\<lparr>Keys := ks\<rparr>) (dec_elems decode_key js)"
  "state_member ''active'' v st = map_sum id (\<lambda>s. st\<lparr>Active := s\<rparr>) (dec_string ''active'' v (Active st))"
  "state_member ''last_connected_at'' v st = map_sum id (\<lambda>t. st\<lparr>LastConnectedAt := t\<rparr>)
     (dec_time ''last_connected_at'' v (LastConnectedAt st))"
  by (simp_all add: state_member_def eval_fields)

lemma decode_encode_key: "key_valid k \<Longrightarrow> decode_key (encode_key k) = Inr k"
  by (cases k) (simp add: decode_key_def encode_key_def key_valid_def jstr_valid dec_string_def
      dec_time_def zero_key_def)

text \<open>C15. Decoding the JSON form of a store state gives the state back, if its strings are valid
  UTF-8 (every other string is changed by the encoder).\<close>

theorem decode_encode_state:
  assumes "state_valid st"
  shows "decode_state (encode_state st) = Inr st"
proof -
  have "dec_elems decode_key (map encode_key (Keys st)) = Inr (Keys st)"
    using assms by (intro dec_elems_map decode_encode_key) (auto simp: state_valid_def list_all_iff)
  then show ?thesis
    using assms by (cases st) (simp add: decode_state_def encode_state_def state_valid_def jstr_valid
        dec_string_def dec_time_def dec_int_field_def zero_state_def)
qed

lemma demo_store_valid: "state_valid (state demo_store)"
  by (simp add: demo_store_def demo_key_def state_valid_def key_valid_def ascii_valid_utf8 ascii_def)

theorem decode_encode_state_witness:
  "decode_state (encode_state (state demo_store)) = Inr (state demo_store)"
  by (rule decode_encode_state) (rule demo_store_valid)


definition demo_disk :: world where
  "demo_disk = empty_world\<lparr>fs := [''/e'' \<mapsto> Dir mode_0755]\<rparr>"

lemma demo_paths: "spath demo_store = ''/e/keys.json''" "filepath_dir ''/e/keys.json'' = ''/e''"
  "spath demo_store \<notin> key_temps demo_store"
  by (simp_all add: demo_store_def key_temps_def filepath_dir_def last_index_byte_def)

lemma demo_use_succeeds:
  "\<exists>w'. ks_exec (ref_env no_faults) (OpUse ''b'') (demo_store, demo_disk)
     = (Ret (), (set_state (\<lambda>st. st\<lparr>Active := ''b''\<rparr>) demo_store, w'))
     \<and> w' \<noteq> demo_disk \<and> fs w' ''/e'' = Some (Dir mode_0755)"
proof -
  let ?s = "set_state (\<lambda>st. st\<lparr>Active := ''b''\<rparr>) demo_store"
  have "?s = demo_store\<lparr>state := state ?s\<rparr>" by (simp add: set_state_def)
  then have t: "spath ?s \<notin> key_temps ?s" using demo_paths(3) by (simp add: key_temps_def)
  obtain w' where w': "persist (ref_env no_faults) ?s demo_disk = (Ret (), w')"
    "clock demo_disk < clock w'"
    "\<forall>q. q \<noteq> spath ?s \<longrightarrow> q \<notin> key_temps ?s \<longrightarrow> fs w' q = fs demo_disk q"
    using persist_succeeds [of "ref_env no_faults" demo_disk ?s] t
    by (auto simp: no_faults_def demo_disk_def demo_paths)
  have "''/e'' \<notin> key_temps ?s" by (simp add: key_temps_def demo_paths)
  with w'(3) have "fs w' ''/e'' = Some (Dir mode_0755)" by (simp add: demo_paths demo_disk_def)
  with w'(1,2) show ?thesis
    by (auto simp: Use_def commit_or_def demo_store_def demo_key_def)
qed


section \<open>Queries\<close>

text \<open>Listing returns exactly the stored keys, ordered by the time they were added, and keys
  added at the same time keep their order.\<close>

theorem list_is_stable_sort:
  "mset (ListKeys s) = mset (Keys (state s)) \<and> sorted (map AddedAt (ListKeys s))
   \<and> filter (\<lambda>k. AddedAt k = t) (ListKeys s) = filter (\<lambda>k. AddedAt k = t) (Keys (state s))"
  by (simp add: ListKeys_def filter_sort [symmetric] sort_key_stable)

text \<open>What an operation means for the map from names to keys.\<close>

lemma ks_exec_meaning:
  assumes "ks_wf (state s)" "ks_exec E req (s, w) = (Ret (), (s', w'))"
  shows "case req of
      OpAdd u n \<Rightarrow> \<exists>k. URL k = trim_space u \<and> LabelFromURL k = extractLabel (trim_space u)
        \<and> (n \<noteq> [] \<longrightarrow> Name k = n) \<and> Get s (Name k) = None
        \<and> Get s' = (Get s)(Name k \<mapsto> k)
        \<and> ActiveName s' = (if ActiveName s = [] then Name k else ActiveName s)
    | OpRemove n \<Rightarrow> Get s n \<noteq> None \<and> Get s' = (Get s)(n := None)
        \<and> ActiveName s' = (if ActiveName s = n then [] else ActiveName s)
    | OpRename a b \<Rightarrow> (if a = b then s' = s else
        (\<exists>k. Get s a = Some k \<and> Get s b = None \<and> Get s' = (Get s)(a := None, b \<mapsto> k\<lparr>Name := b\<rparr>))
        \<and> ActiveName s' = (if ActiveName s = a then b else ActiveName s))
    | OpUse n \<Rightarrow> Get s n \<noteq> None \<and> Get s' = Get s \<and> ActiveName s' = n
    | OpMarkConnected n \<Rightarrow> Get s n \<noteq> None \<and> Get s' = Get s \<and> ActiveName s' = n"
proof (cases rule: ks_exec_cases [of E req s w])
  case (still r)
  with assms(2) show ?thesis by auto
next
  case (commit k)
  then have s': "s' = set_state (new_state req k (now E (clock w))) s"
    using assms(2) commit_or_RetD by metis
  have dist: "distinct (names (Keys (state s)))" using assms(1) by (simp add: ks_wf_def)
  show ?thesis
  proof (cases req)
    case (OpAdd u n)
    from commit(1) have acc: "URL k = trim_space u" "LabelFromURL k = extractLabel (trim_space u)"
      "n \<noteq> [] \<longrightarrow> Name k = n" "Name k \<notin> set (names (Keys (state s)))"
      unfolding OpAdd accepted.simps by auto
    then have none: "Get s (Name k) = None" unfolding Get_def by (simp only: lookup_None not_False_eq_True)
    then have "Get s' = (Get s)(Name k \<mapsto> k)"
      by (auto simp: fun_eq_iff s' OpAdd Get_def lookup_append split: option.split)
    moreover have "ActiveName s' = (if ActiveName s = [] then Name k else ActiveName s)"
      by (simp add: OpAdd s' ActiveName_def)
    ultimately show ?thesis
      using acc none unfolding OpAdd ks_op.case by blast
  next
    case (OpRemove n)
    with commit have n: "n \<in> set (names (Keys (state s)))" by simp
    then obtain i where i: "find_index (\<lambda>k. Name k = n) (Keys (state s)) = Some i"
      "i < length (Keys (state s))" "Name (Keys (state s) ! i) = n" by (rule find_name)
    then have "Get s' = (Get s)(n := None)"
      by (auto simp: fun_eq_iff s' OpRemove Get_def lookup_remove_at [OF dist])
    then show ?thesis using n by (simp add: OpRemove s' ActiveName_def Get_def lookup_None)
  next
    case (OpRename a b)
    with commit have acc: "a \<noteq> b" "a \<in> set (names (Keys (state s)))" "b \<notin> set (names (Keys (state s)))"
      by simp_all
    obtain x where x: "lookup a (Keys (state s)) = Some x"
      using acc(2) lookup_None [of a "Keys (state s)"] by (cases "lookup a (Keys (state s))") auto
    have "Get s' = (Get s)(a := None, b \<mapsto> x\<lparr>Name := b\<rparr>)"
      using acc(1) x lookup_rename_first [OF acc(3,2) dist]
      by (auto simp: fun_eq_iff s' OpRename Get_def)
    moreover have "Get s b = None" using acc(3) by (simp add: Get_def lookup_None)
    ultimately show ?thesis using acc(1) x by (simp add: OpRename s' ActiveName_def Get_def)
  qed (use commit in \<open>auto simp: s' Get_def ActiveName_def lookup_None fun_eq_iff\<close>)
qed

lemma Add_meaning:
  assumes "Add E u n (s, w) = (Ret k, (s', w'))"
  shows "URL k = trim_space u \<and> Get s (Name k) = None \<and> Get s' = (Get s)(Name k \<mapsto> k)
    \<and> ActiveName s' = (if ActiveName s = [] then Name k else ActiveName s)"
proof (cases rule: Add_cases [of E u n s w])
  case (refused e)
  with assms show ?thesis by simp
next
  case (commit k' a)
  have "k' = k" "s' = set_state (\<lambda>_. (state s)\<lparr>Keys := Keys (state s) @ [k'], Active := a\<rparr>) s"
    using assms commit(1) by (auto simp: commit_or_def split: prod.splits outcome.splits)
  moreover have "Get s (Name k') = None" unfolding Get_def using commit(10) by (simp only: lookup_None not_False_eq_True)
  ultimately show ?thesis using commit(2,3)
    by (auto simp: fun_eq_iff Get_def ActiveName_def lookup_append split: option.split)
qed

lemma lookup_mset:
  assumes "distinct (names ks)" "mset ks' = mset ks"
  shows "lookup n ks' = lookup n ks"
proof -
  have sets: "set ks' = set ks" using assms(2) by (rule mset_eq_setD)
  have "mset (names ks') = mset (names ks)" using assms(2) by (simp only: mset_map)
  with assms(1) have dist: "distinct (names ks')" by (metis distinct_count_atmost_1 mset_eq_setD)
  show ?thesis
  proof (cases "lookup n ks")
    case None
    then have "lookup n ks' = None" using sets by (simp add: lookup_None)
    with None show ?thesis by simp
  next
    case (Some k)
    then have "k \<in> set ks'" "Name k = n" using lookup_SomeD sets by auto
    with lookup_mem [OF dist] Some show ?thesis by metis
  qed
qed

lemma ks_exec_failed:
  assumes "ks_wf (state s)" "ks_exec E req (s, w) = (Throw e, (s', w'))"
  shows "Get s' = Get s \<and> (ActiveName s' = ActiveName s \<or> (\<exists>u n. req = OpAdd u n))"
proof (cases rule: ks_exec_cases [of E req s w])
  case (still r)
  with assms(2) show ?thesis by simp
next
  case (commit k)
  with assms have s': "s' = set_state (rolled_back req k) s" by (auto elim!: commit_or_cases)
  have dist: "distinct (names (Keys (state s)))" using assms(1) by (simp add: ks_wf_def)
  show ?thesis
  proof (cases req)
    case (OpRemove n)
    with commit have "n \<in> set (names (Keys (state s)))" by simp
    then obtain i where "find_index (\<lambda>k. Name k = n) (Keys (state s)) = Some i" "i < length (Keys (state s))"
      by (rule find_name)
    with lookup_mset [OF dist mset_put_back] show ?thesis
      by (simp add: s' OpRemove Get_def ActiveName_def fun_eq_iff)
  qed (auto simp: s' Get_def ActiveName_def fun_eq_iff)
qed

text \<open>C8. What a successful operation does to the directory of keys by name, and to the active
  pointer: \<open>Add\<close> adds one fresh key, \<open>Remove\<close> takes one away, \<open>Rename\<close> moves one key, with its
  URL, label and time, to its new name, and the pointer follows; the others move only the
  pointer.\<close>

theorem operation_meaning:
  assumes "ks_wf (state s)" "ks_exec E req (s, w) = (Ret (), (s', w'))"
  shows "case req of
      OpAdd u n \<Rightarrow> \<exists>k. URL k = trim_space u \<and> LabelFromURL k = extractLabel (trim_space u)
        \<and> (n \<noteq> [] \<longrightarrow> Name k = n) \<and> Get s (Name k) = None
        \<and> Get s' = (Get s)(Name k \<mapsto> k)
        \<and> ActiveName s' = (if ActiveName s = [] then Name k else ActiveName s)
    | OpRemove n \<Rightarrow> Get s n \<noteq> None \<and> Get s' = (Get s)(n := None)
        \<and> ActiveName s' = (if ActiveName s = n then [] else ActiveName s)
    | OpRename a b \<Rightarrow> (if a = b then s' = s else
        (\<exists>k. Get s a = Some k \<and> Get s b = None \<and> Get s' = (Get s)(a := None, b \<mapsto> k\<lparr>Name := b\<rparr>))
        \<and> ActiveName s' = (if ActiveName s = a then b else ActiveName s))
    | OpUse n \<Rightarrow> Get s n \<noteq> None \<and> Get s' = Get s \<and> ActiveName s' = n
    | OpMarkConnected n \<Rightarrow> Get s n \<noteq> None \<and> Get s' = Get s \<and> ActiveName s' = n"
  by (rule ks_exec_meaning [OF assms])

theorem operation_meaning_witness:
  "\<exists>s' w'. ks_exec (ref_env no_faults) (OpUse ''b'') (demo_store, demo_disk) = (Ret (), (s', w'))
     \<and> Get demo_store ''b'' \<noteq> None \<and> Get s' = Get demo_store \<and> ActiveName s' = ''b''"
proof -
  obtain s' w' where run: "ks_exec (ref_env no_faults) (OpUse ''b'') (demo_store, demo_disk) = (Ret (), (s', w'))"
    using demo_use_succeeds by blast
  from operation_meaning [OF demo_store_wf run] show ?thesis using run by simp
qed

end
