(* ===== verification/TunConfig.thy ===== *)
theory TunConfig
  imports GoStr
begin

text \<open>
  The configuration of one connect attempt (\<open>internal/tun/config.go\<close>): the defaults filled
  in for zero values, and the bounds enforced before anything touches the host.
\<close>

definition DefaultTunName :: gostring where "DefaultTunName = ''ouftun0''"
definition DefaultTunIP :: gostring where "DefaultTunIP = ''10.233.233.1''"
definition DefaultTunGatewayCIDR :: gostring where "DefaultTunGatewayCIDR = ''10.233.233.2/32''"
definition DefaultTunMTU :: int where "DefaultTunMTU = 1500"
definition DefaultRoutingTableID :: int where "DefaultRoutingTableID = 233"
definition DefaultRoutingRulePriority :: int where "DefaultRoutingRulePriority = 23333"
definition DefaultDNSServerIP :: gostring where "DefaultDNSServerIP = ''9.9.9.9''"
definition IPv6DisableSysctlKey :: gostring where
  "IPv6DisableSysctlKey = ''net.ipv6.conf.all.disable_ipv6''"
definition IPv6DisableProcFile :: gostring where
  "IPv6DisableProcFile = ''/proc/sys/net/ipv6/conf/all/disable_ipv6''"

record config =
  TunName :: gostring
  TunIP :: gostring
  TunGatewayCIDR :: gostring
  TunMTU :: int
  RoutingTableID :: int
  RoutingRulePriority :: int
  DNSServerIP :: gostring
  TransportURL :: gostring
  ResolvPath :: gostring
  StateDir :: gostring
  OUFVersion :: gostring

definition or_default :: "'a \<Rightarrow> 'a \<Rightarrow> 'a \<Rightarrow> 'a" where
  "or_default zero d v = (if v = zero then d else v)"

definition ApplyDefaults :: "config \<Rightarrow> config" where
  "ApplyDefaults c = c\<lparr>
     TunName := or_default [] DefaultTunName (TunName c),
     TunIP := or_default [] DefaultTunIP (TunIP c),
     TunGatewayCIDR := or_default [] DefaultTunGatewayCIDR (TunGatewayCIDR c),
     TunMTU := or_default 0 DefaultTunMTU (TunMTU c),
     RoutingTableID := or_default 0 DefaultRoutingTableID (RoutingTableID c),
     RoutingRulePriority := or_default 0 DefaultRoutingRulePriority (RoutingRulePriority c),
     DNSServerIP := or_default [] DefaultDNSServerIP (DNSServerIP c),
     ResolvPath := or_default [] ''/etc/resolv.conf'' (ResolvPath c),
     StateDir := or_default [] ''/var/lib/outline-fedora'' (StateDir c),
     OUFVersion := or_default [] ''dev'' (OUFVersion c)\<rparr>"

datatype config_error = TunNameLength gostring | TunNameReserved gostring
  | TableNotPositive int | TableReserved int | TableInReservedRange int
  | PriorityTooLow int | TransportRequired

definition Validate :: "config \<Rightarrow> config_error + unit" where
  "Validate c =
     (if length (TunName c) = 0 \<or> length (TunName c) > 15 then Inl (TunNameLength (TunName c))
      else if TunName c \<in> {[], ''lo''} then Inl (TunNameReserved (TunName c))
      else if RoutingTableID c \<le> 0 then Inl (TableNotPositive (RoutingTableID c))
      else if RoutingTableID c = 253 \<or> RoutingTableID c = 254 \<or> RoutingTableID c = 255
        then Inl (TableReserved (RoutingTableID c))
      else if RoutingTableID c > 252 \<and> RoutingTableID c < 256
        then Inl (TableInReservedRange (RoutingTableID c))
      else if RoutingRulePriority c < 1000 then Inl (PriorityTooLow (RoutingRulePriority c))
      else if TransportURL c = [] then Inl TransportRequired
      else Inr ())"

text \<open>The zero value of the struct.\<close>

definition zero_config :: config where
  "zero_config = \<lparr>TunName = [], TunIP = [], TunGatewayCIDR = [], TunMTU = 0, RoutingTableID = 0,
     RoutingRulePriority = 0, DNSServerIP = [], TransportURL = [], ResolvPath = [], StateDir = [],
     OUFVersion = []\<rparr>"

section \<open>What validation buys\<close>

lemma Validate_ok: "Validate c = Inr u \<longleftrightarrow>
   TunName c \<noteq> [] \<and> length (TunName c) \<le> 15 \<and> TunName c \<noteq> ''lo''
   \<and> RoutingTableID c > 0 \<and> RoutingTableID c \<notin> {253, 254, 255}
   \<and> RoutingRulePriority c \<ge> 1000 \<and> TransportURL c \<noteq> []"
  by (cases u) (auto simp: Validate_def)

lemma or_default_idem [simp]: "or_default z d (or_default z d v) = or_default z d v"
  by (simp add: or_default_def)

lemma ApplyDefaults_idem: "ApplyDefaults (ApplyDefaults c) = ApplyDefaults c"
  by (simp add: ApplyDefaults_def)

lemma ApplyDefaults_sel:
  "TransportURL (ApplyDefaults c) = TransportURL c"
  "TunName (ApplyDefaults c) \<noteq> []" "TunIP (ApplyDefaults c) \<noteq> []"
  "ResolvPath (ApplyDefaults c) \<noteq> []" "StateDir (ApplyDefaults c) \<noteq> []"
  "RoutingTableID (ApplyDefaults c) \<noteq> 0" "RoutingRulePriority (ApplyDefaults c) \<noteq> 0"
  by (simp_all add: ApplyDefaults_def or_default_def DefaultTunName_def DefaultTunIP_def
      DefaultRoutingTableID_def DefaultRoutingRulePriority_def)

end
