(* ===== verification/Snapshot.thy ===== *)
theory Snapshot
  imports DurableFile "HOL-Library.Word"
begin

text \<open>
  The snapshot of the host's state before a connect (\<open>internal/snapshot/snapshot.go\<close>): the
  records and their JSON form, the writer that fills them in and puts them on disk, and the
  backup of \<open>resolv.conf\<close>. A writer's methods that only change memory are functions on the
  writer; those that touch the disk run on the world.
\<close>

section \<open>Data\<close>

definition SnapVersion :: int where "SnapVersion = 1"
definition DefaultStateDir :: path where "DefaultStateDir = ''/var/lib/outline-fedora''"
definition SnapshotFile :: gostring where "SnapshotFile = ''snapshot.json''"
definition BackupSubdir :: gostring where "BackupSubdir = ''backup''"

definition OpTunCreate :: gostring where "OpTunCreate = ''tun_create''"
definition OpRouteAdd :: gostring where "OpRouteAdd = ''route_add''"
definition OpRuleAdd :: gostring where "OpRuleAdd = ''rule_add''"
definition OpSysctlSet :: gostring where "OpSysctlSet = ''sysctl_set''"
definition OpResolvWrite :: gostring where "OpResolvWrite = ''resolv_write''"

record our_marks =
  TunIfname :: gostring
  TableID :: int
  RulePriority :: int
  Fwmark :: "32 word option"

record created_by =
  Hostname :: gostring
  PID :: int
  CreatorVersion :: gostring

record resolv_conf_state =
  Existed :: bool
  BackupPath :: path
  WasSymlink :: bool
  SymlinkTarget :: path
  SHA256Before :: gostring

record sysctl_state =
  SysctlKey :: gostring
  ValueBefore :: gostring

record pre_state =
  ResolvConf :: resolv_conf_state
  TunExisted :: bool
  Sysctls :: "sysctl_state list"

record action =
  Seq :: int
  Op :: gostring
  Done :: bool
  Ifname :: gostring
  Table :: int
  Spec :: gostring
  Priority :: int
  ActKey :: gostring
  Value :: gostring
  ActPath :: path
  SHA256After :: gostring

record snapshot =
  Vers :: int
  StartedAt :: time
  OurMarks :: our_marks
  CreatedBy :: created_by
  PreState :: pre_state
  Actions :: "action list"

record snap_writer =
  stateDir :: path
  snap :: snapshot
  nextSeq :: int

datatype snap_error = MkdirState oserr | MkdirBackup oserr | LstatFailed oserr
  | ReadlinkFailed oserr | BackupFailed oserr | HashFailed oserr | OpenTmp oserr
  | WriteTmp oserr | FsyncTmp oserr | CloseTmp oserr | RenameTmp oserr | ClearFailed oserr

section \<open>JSON form\<close>

definition omit_str :: "gostring \<Rightarrow> gostring \<Rightarrow> (gostring \<times> json) list" where
  "omit_str f s = (if s = [] then [] else [(f, jstr s)])"

definition omit_int :: "gostring \<Rightarrow> int \<Rightarrow> (gostring \<times> json) list" where
  "omit_int f i = (if i = 0 then [] else [(f, JInt i)])"

definition encode_marks :: "our_marks \<Rightarrow> json" where
  "encode_marks m = JObj [(''tun_ifname'', jstr (TunIfname m)), (''table_id'', JInt (TableID m)),
     (''rule_priority'', JInt (RulePriority m)),
     (''fwmark'', case Fwmark m of None \<Rightarrow> JNull | Some w \<Rightarrow> JInt (uint w))]"

definition encode_created_by :: "created_by \<Rightarrow> json" where
  "encode_created_by c = JObj [(''hostname'', jstr (Hostname c)), (''pid'', JInt (PID c)),
     (''ouf_version'', jstr (CreatorVersion c))]"

definition encode_resolv :: "resolv_conf_state \<Rightarrow> json" where
  "encode_resolv r = JObj [(''existed'', JBool (Existed r)), (''backup_path'', jstr (BackupPath r)),
     (''was_symlink'', JBool (WasSymlink r)), (''symlink_target'', jstr (SymlinkTarget r)),
     (''sha256_before'', jstr (SHA256Before r))]"

definition encode_sysctl :: "sysctl_state \<Rightarrow> json" where
  "encode_sysctl s = JObj [(''key'', jstr (SysctlKey s)), (''value_before'', jstr (ValueBefore s))]"

definition encode_pre_state :: "pre_state \<Rightarrow> json" where
  "encode_pre_state p = JObj [(''resolv_conf'', encode_resolv (ResolvConf p)),
     (''tun_existed'', JBool (TunExisted p)), (''sysctls'', JArr (map encode_sysctl (Sysctls p)))]"

definition encode_action :: "action \<Rightarrow> json" where
  "encode_action a = JObj ([(''seq'', JInt (Seq a)), (''op'', jstr (Op a)), (''done'', JBool (Done a))]
     @ omit_str ''ifname'' (Ifname a) @ omit_int ''table'' (Table a) @ omit_str ''spec'' (Spec a)
     @ omit_int ''priority'' (Priority a) @ omit_str ''key'' (ActKey a) @ omit_str ''value'' (Value a)
     @ omit_str ''path'' (ActPath a) @ omit_str ''sha256_after'' (SHA256After a))"

definition encode_snapshot :: "snapshot \<Rightarrow> json" where
  "encode_snapshot s = JObj [(''version'', JInt (Vers s)), (''started_at'', JTime (StartedAt s)),
     (''our_marks'', encode_marks (OurMarks s)), (''created_by'', encode_created_by (CreatedBy s)),
     (''pre_state'', encode_pre_state (PreState s)), (''actions'', JArr (map encode_action (Actions s)))]"

section \<open>The writer\<close>

definition no_resolv_conf :: resolv_conf_state where
  "no_resolv_conf = \<lparr>Existed = False, BackupPath = [], WasSymlink = False, SymlinkTarget = [],
     SHA256Before = []\<rparr>"

definition snapshot_New :: "env \<Rightarrow> path \<Rightarrow> our_marks \<Rightarrow> gostring
    \<Rightarrow> (world, snap_error, snap_writer) act" where
  "snapshot_New E dir marks oufVersion =
     bindA (mapE MkdirState (os_mkdir_all E dir mode_0700)) (\<lambda>_.
     bindA (mapE MkdirBackup (os_mkdir_all E (filepath_join dir BackupSubdir) mode_0700)) (\<lambda>_.
     bindA get_clock (\<lambda>t.
     ret \<lparr>stateDir = dir,
          snap = \<lparr>Vers = SnapVersion, StartedAt = now E t, OurMarks = marks,
            CreatedBy = \<lparr>Hostname = hostname E, PID = pid E, CreatorVersion = oufVersion\<rparr>,
            PreState = \<lparr>ResolvConf = no_resolv_conf, TunExisted = False, Sysctls = []\<rparr>,
            Actions = []\<rparr>,
          nextSeq = 1\<rparr>)))"

definition on_pre :: "(pre_state \<Rightarrow> pre_state) \<Rightarrow> snap_writer \<Rightarrow> snap_writer" where
  "on_pre f w = w\<lparr>snap := (snap w)\<lparr>PreState := f (PreState (snap w))\<rparr>\<rparr>"

definition set_resolv :: "resolv_conf_state \<Rightarrow> snap_writer \<Rightarrow> snap_writer" where
  "set_resolv r = on_pre (\<lambda>p. p\<lparr>ResolvConf := r\<rparr>)"

definition copyFile :: "env \<Rightarrow> path \<Rightarrow> path \<Rightarrow> nat \<Rightarrow> (world, oserr, unit) act" where
  "copyFile E src dst mode =
     seqA [
       os_open E src,
       os_open_trunc E dst mode,
       onErr (ignoreA (os_fd_call E dst)) (bindA (os_read E src) (\<lambda>d. os_write E dst d)),
       onErr (ignoreA (os_fd_call E dst)) (os_fd_call E dst),
       os_fd_call E dst]"

definition hashFile :: "env \<Rightarrow> path \<Rightarrow> (world, oserr, gostring) act" where
  "hashFile E p = bindA (os_open E p) (\<lambda>_. bindA (os_read E p) (\<lambda>d.
     ret (sha256 E (file_bytes E d))))"

definition backup_path :: "path \<Rightarrow> path" where
  "backup_path dir = filepath_join (filepath_join dir BackupSubdir) ''resolv.conf''"

definition RecordResolvConf :: "env \<Rightarrow> path \<Rightarrow> snap_writer \<Rightarrow> (world, snap_error, snap_writer) act" where
  "RecordResolvConf E resolvPath w =
     bindA (attempt (os_lstat E resolvPath)) (\<lambda>fi. case fi of
       Inl e \<Rightarrow> if e = ENOENT then ret (set_resolv no_resolv_conf w) else throw (LstatFailed e)
     | Inr (Symlink _) \<Rightarrow>
         bindA (mapE ReadlinkFailed (os_readlink E resolvPath)) (\<lambda>tgt.
         ret (set_resolv \<lparr>Existed = True, BackupPath = [], WasSymlink = True, SymlinkTarget = tgt,
           SHA256Before = []\<rparr> w))
     | Inr _ \<Rightarrow>
         bindA (mapE BackupFailed (copyFile E resolvPath (backup_path (stateDir w)) mode_0600)) (\<lambda>_.
         bindA (mapE HashFailed (hashFile E (backup_path (stateDir w)))) (\<lambda>sum.
         ret (set_resolv \<lparr>Existed = True, BackupPath = backup_path (stateDir w), WasSymlink = False,
           SymlinkTarget = [], SHA256Before = sum\<rparr> w))))"

definition RecordSysctl :: "gostring \<Rightarrow> gostring \<Rightarrow> snap_writer \<Rightarrow> snap_writer" where
  "RecordSysctl k v = on_pre (\<lambda>p. p\<lparr>Sysctls := Sysctls p @ [\<lparr>SysctlKey = k, ValueBefore = v\<rparr>]\<rparr>)"

definition SetTunExisted :: "bool \<Rightarrow> snap_writer \<Rightarrow> snap_writer" where
  "SetTunExisted b = on_pre (\<lambda>p. p\<lparr>TunExisted := b\<rparr>)"

definition AppendAction :: "action \<Rightarrow> snap_writer \<Rightarrow> snap_writer" where
  "AppendAction a w = w\<lparr>snap := (snap w)\<lparr>Actions := Actions (snap w) @ [a\<lparr>Seq := nextSeq w\<rparr>]\<rparr>,
     nextSeq := nextSeq w + 1\<rparr>"

definition MarkLastDone :: "snap_writer \<Rightarrow> snap_writer" where
  "MarkLastDone w = (let n = length (Actions (snap w)) in
     if n = 0 then w
     else w\<lparr>snap := (snap w)\<lparr>Actions := (Actions (snap w))
            [n - 1 := (Actions (snap w) ! (n - 1))\<lparr>Done := True\<rparr>]\<rparr>\<rparr>)"

definition snapshot_Path :: "snap_writer \<Rightarrow> path" where
  "snapshot_Path w = filepath_join (stateDir w) SnapshotFile"

definition Persist :: "env \<Rightarrow> snap_writer \<Rightarrow> (world, snap_error, unit) act" where
  "Persist E w = (let final = filepath_join (stateDir w) SnapshotFile; tmp = final @ ''.tmp'' in
     seqA [
       mapE OpenTmp (os_open_trunc E tmp mode_0600),
       onErr (seqA [ignoreA (os_fd_call E tmp), ignoreA (os_remove E tmp)])
         (mapE WriteTmp (os_write E tmp (Doc (encode_snapshot (snap w))))),
       onErr (seqA [ignoreA (os_fd_call E tmp), ignoreA (os_remove E tmp)])
         (mapE FsyncTmp (os_fd_call E tmp)),
       onErr (ignoreA (os_remove E tmp)) (mapE CloseTmp (os_fd_call E tmp)),
       onErr (ignoreA (os_remove E tmp)) (mapE RenameTmp (os_rename E tmp final))])"

definition Clear :: "env \<Rightarrow> snap_writer \<Rightarrow> (world, snap_error, unit) act" where
  "Clear E w = bindA (attempt (os_remove E (filepath_join (stateDir w) SnapshotFile))) (\<lambda>r. case r of
     Inl e \<Rightarrow> if e \<noteq> ENOENT then throw (ClearFailed e) else ret ()
   | Inr _ \<Rightarrow> ret ())"

section \<open>Action constructors\<close>

definition zero_action :: action where
  "zero_action = \<lparr>Seq = 0, Op = [], Done = False, Ifname = [], Table = 0, Spec = [], Priority = 0,
     ActKey = [], Value = [], ActPath = [], SHA256After = []\<rparr>"

definition TunCreateAction :: "gostring \<Rightarrow> bool \<Rightarrow> action" where
  "TunCreateAction ifname d = zero_action\<lparr>Op := OpTunCreate, Ifname := ifname, Done := d\<rparr>"

definition RouteAddAction :: "int \<Rightarrow> gostring \<Rightarrow> bool \<Rightarrow> action" where
  "RouteAddAction table spec d = zero_action\<lparr>Op := OpRouteAdd, Table := table, Spec := spec, Done := d\<rparr>"

definition RuleAddAction :: "int \<Rightarrow> int \<Rightarrow> gostring \<Rightarrow> bool \<Rightarrow> action" where
  "RuleAddAction priority table spec d =
     zero_action\<lparr>Op := OpRuleAdd, Priority := priority, Table := table, Spec := spec, Done := d\<rparr>"

definition SysctlSetAction :: "gostring \<Rightarrow> gostring \<Rightarrow> bool \<Rightarrow> action" where
  "SysctlSetAction k v d = zero_action\<lparr>Op := OpSysctlSet, ActKey := k, Value := v, Done := d\<rparr>"

definition ResolvWriteAction :: "path \<Rightarrow> gostring \<Rightarrow> bool \<Rightarrow> action" where
  "ResolvWriteAction p sha256After d =
     zero_action\<lparr>Op := OpResolvWrite, ActPath := p, SHA256After := sha256After, Done := d\<rparr>"

section \<open>The snapshot on disk\<close>

definition snap_temps :: "snap_writer \<Rightarrow> path set" where
  "snap_temps w = {snapshot_Path w @ ''.tmp''}"

lemma Persist_contract:
  "wp (Persist E s)
    (\<lambda>_ w'. (\<exists>m. fs w' (snapshot_Path s) = Some (File (Doc (encode_snapshot (snap s))) m))
             \<and> same_but (insert (snapshot_Path s) (snap_temps s)) w w')
    (\<lambda>_ w'. fs w' (snapshot_Path s) = fs w (snapshot_Path s) \<and> same_but (snap_temps s) w w')
    (\<lambda>w'. fs w' (snapshot_Path s) = fs w (snapshot_Path s) \<and> same_but (snap_temps s) w w') w"
proof -
  define tmp where "tmp = snapshot_Path s @ ''.tmp''"
  have ne: "tmp \<noteq> snapshot_Path s" by (simp add: tmp_def)
  have temps: "snap_temps s = {tmp}" by (simp add: snap_temps_def tmp_def)
  show ?thesis
    unfolding Persist_def Let_def temps snapshot_Path_def [symmetric] tmp_def [symmetric]
    using ne
    by (auto intro!: wp_intros simp: wp_simps same_but_set_node same_but_put_data fs_put_data_same)
qed

interpretation snap_file: durable_writer Persist snapshot_Path snap_temps
    "\<lambda>s. Doc (encode_snapshot (snap s))"
  by unfold_locales (rule Persist_contract)

end
