(* ===== verification/PanicScript.thy ===== *)
theory PanicScript
  imports Snapshot
begin

text \<open>
  The revert script \<open>scripts/ouf-panic\<close>. It reads the snapshot with \<open>jq\<close>, checks what it
  says it owns, and undoes it with \<open>sysctl\<close>, \<open>ip\<close>, \<open>rm\<close>, \<open>ln\<close> and \<open>cp\<close>. The whole script is
  modelled, each command a system call that may fail or in which the service may die; its
  \<open>jq\<close> invocations all read the same file, so one read stands for them. A \<open>run\<close> that
  fails sets the script's flag \<open>FAILED\<close>, a \<open>soft_run\<close> that fails is ignored.
\<close>

section \<open>What the script gets from jq and the shell\<close>

text \<open>\<open>.f\<close> in \<open>jq\<close>: the last member of that name, \<open>null\<close> if there is none or the input is
  \<open>null\<close>; \<open>None\<close> is the error of indexing anything else.\<close>

fun jq_get :: "gostring \<Rightarrow> json \<Rightarrow> json option" where
  "jq_get f (JObj m) = Some (case map_of (rev m) f of None \<Rightarrow> JNull | Some v \<Rightarrow> v)"
| "jq_get f JNull = Some JNull"
| "jq_get f _ = None"

fun jq_path :: "gostring list \<Rightarrow> json \<Rightarrow> json option" where
  "jq_path [] j = Some j"
| "jq_path (f # p) j = (case jq_get f j of None \<Rightarrow> None | Some v \<Rightarrow> jq_path p v)"

text \<open>\<open>jq -r\<close> prints a string without its quotes.\<close>

fun jq_raw :: "env \<Rightarrow> json \<Rightarrow> gostring" where
  "jq_raw E (JStr s) = s"
| "jq_raw E (JInt i) = dec_int i"
| "jq_raw E (JBool b) = (if b then ''true'' else ''false'')"
| "jq_raw E JNull = ''null''"
| "jq_raw E j = json_text E j"

text \<open>Command substitution drops trailing newlines.\<close>

definition cmd_subst :: "gostring \<Rightarrow> gostring" where
  "cmd_subst s = trim_right_set {byte_of 10} s"

definition jq_r :: "env \<Rightarrow> gostring list \<Rightarrow> json \<Rightarrow> gostring" where
  "jq_r E p j = (case jq_path p j of None \<Rightarrow> [] | Some v \<Rightarrow> cmd_subst (jq_raw E v))"

text \<open>\<open>$(jq -r 'path // empty')\<close>\<close>

definition jq_or_empty :: "env \<Rightarrow> gostring list \<Rightarrow> json \<Rightarrow> gostring" where
  "jq_or_empty E p j = (case jq_path p j of
     None \<Rightarrow> [] | Some JNull \<Rightarrow> [] | Some (JBool False) \<Rightarrow> [] | Some v \<Rightarrow> cmd_subst (jq_raw E v))"

text \<open>The elements of an array; everything else the daemon never writes there counts as none.\<close>

definition jq_elems :: "gostring list \<Rightarrow> json \<Rightarrow> json list" where
  "jq_elems p j = (case jq_path p j of Some (JArr js) \<Rightarrow> js | _ \<Rightarrow> [])"

text \<open>An operand of \<open>-gt\<close>, \<open>-ge\<close>, \<open>-lt\<close>; \<open>None\<close> is the shell's "integer expression expected".\<close>

definition sh_digits :: "gostring \<Rightarrow> nat" where
  "sh_digits s = foldl (\<lambda>a c. 10 * a + (byte c - 48)) 0 s"

definition sh_int :: "gostring \<Rightarrow> int option" where
  "sh_int s = (let neg = (s \<noteq> [] \<and> hd s = CHR ''-'');
                   t = (if s \<noteq> [] \<and> (hd s = CHR ''-'' \<or> hd s = CHR ''+'') then tl s else s);
                   v = (if neg then - int (sh_digits t) else int (sh_digits t))
     in if t \<noteq> [] \<and> list_all is_digit t \<and> - (2 ^ 63) \<le> v \<and> v < 2 ^ 63 then Some v else None)"

text \<open>The patterns of the script's \<open>case "$TUN_IFNAME"\<close>.\<close>

definition reserved_ifname :: "gostring \<Rightarrow> bool" where
  "reserved_ifname n \<longleftrightarrow> n = [] \<or> n = ''lo'' \<or> n = ''*''
     \<or> list_ex (has_prefix n) [''eth'', ''en'', ''wl'', ''virbr'', ''docker'', ''br-'', ''veth'']"

section \<open>Commands\<close>

definition soft_run :: "(world, oserr, unit) act \<Rightarrow> (world, 'e, unit) act" where
  "soft_run m = ignoreA m"

text \<open>\<open>if ! run ...; then FAILED=1; fi\<close>\<close>

definition run_or_fail :: "(world, oserr, unit) act \<Rightarrow> bool \<Rightarrow> (world, 'e, bool) act" where
  "run_or_fail m failed = bindA (attempt m) (\<lambda>r. ret (failed \<or> isl r))"

definition rm_f :: "env \<Rightarrow> path \<Rightarrow> (world, oserr, unit) act" where
  "rm_f E p = sys E nothing (\<lambda>w. case fs w p of
       None \<Rightarrow> (Inr (), w)
     | Some (Dir _) \<Rightarrow> (Inl EINVAL, w)
     | Some _ \<Rightarrow> (Inr (), set_node p None w))"

definition cp_a :: "env \<Rightarrow> path \<Rightarrow> path \<Rightarrow> (world, oserr, unit) act" where
  "cp_a E src dst = bindA (os_lstat E src) (\<lambda>nd. case nd of
       File d m \<Rightarrow> seqA [os_open_trunc E dst m, os_write E dst d, os_chmod E dst m]
     | Symlink t \<Rightarrow> os_symlink E t dst
     | Dir _ \<Rightarrow> throw EINVAL)"

definition link_show :: "env \<Rightarrow> gostring \<Rightarrow> (world, oserr, unit) act" where
  "link_show E n = sys E nothing (\<lambda>w. (if n \<in> links (net w) then Inr () else Inl ENOENT, w))"

section \<open>The script\<close>

datatype panic_error = NoTool gostring | NotJson | UnsupportedVersion gostring
  | MissingMark gostring | ReservedIfname gostring | InvalidTable gostring
  | ReservedTable gostring | ReservedPriority gostring | NoSymlinkTarget | RevertHadErrors

fun exit_code :: "panic_error \<Rightarrow> nat" where
  "exit_code RevertHadErrors = 1"
| "exit_code _ = 2"

definition require_tool :: "env \<Rightarrow> gostring \<Rightarrow> (world, panic_error, unit) act" where
  "require_tool E t = (if have_tool E t then ret () else throw (NoTool t))"

definition guard :: "bool \<Rightarrow> 'e \<Rightarrow> ('s, 'e, unit) act" where
  "guard ok e = (if ok then ret () else throw e)"

text \<open>The identifiers the script may touch.\<close>

record marks =
  TUN_IFNAME :: gostring
  TABLE_ID :: int
  RULE_PRIORITY :: gostring

definition read_marks :: "env \<Rightarrow> json \<Rightarrow> (world, panic_error, marks) act" where
  "read_marks E j = (
     let version = jq_or_empty E [''version''] j;
         tun = jq_or_empty E [''our_marks'', ''tun_ifname''] j;
         table = jq_or_empty E [''our_marks'', ''table_id''] j;
         prio = jq_or_empty E [''our_marks'', ''rule_priority''] j
     in bindA (seqA [
          guard (version = ''1'') (UnsupportedVersion version),
          guard (tun \<noteq> []) (MissingMark ''tun_ifname''),
          guard (table \<noteq> []) (MissingMark ''table_id''),
          guard (prio \<noteq> []) (MissingMark ''rule_priority''),
          guard (\<not> reserved_ifname tun) (ReservedIfname tun),
          guard (case sh_int table of Some t \<Rightarrow> t > 0 | None \<Rightarrow> False) (InvalidTable table),
          guard (table \<notin> {''253'', ''254'', ''255''}) (ReservedTable table),
          guard (case sh_int prio of Some p \<Rightarrow> \<not> p < 1000 | None \<Rightarrow> True) (ReservedPriority prio)])
        (\<lambda>_. ret \<lparr>TUN_IFNAME = tun, TABLE_ID = the (sh_int table), RULE_PRIORITY = prio\<rparr>))"

fun revert_sysctls :: "env \<Rightarrow> json list \<Rightarrow> bool \<Rightarrow> (world, panic_error, bool) act" where
  "revert_sysctls E [] failed = ret failed"
| "revert_sysctls E (s # ss) failed =
     bindA (run_or_fail (sysctl_write E (jq_r E [''key''] s) (jq_r E [''value_before''] s)) failed)
       (revert_sysctls E ss)"

text \<open>\<open>ip rule del priority P\<close>; a word that is no number is refused by \<open>ip\<close>.\<close>

definition del_rule :: "env \<Rightarrow> gostring \<Rightarrow> (world, panic_error, unit) act" where
  "del_rule E p = soft_run (net_call E (\<lambda>n. case sh_int p of None \<Rightarrow> Inl EINVAL
     | Some i \<Rightarrow> Inr (ip_rule_del E i n)))"

definition rule_priorities :: "env \<Rightarrow> json \<Rightarrow> gostring list" where
  "rule_priorities E j = map (jq_r E [''priority''])
     (filter (\<lambda>a. jq_path [''op''] a = Some (JStr ''rule_add'')) (jq_elems [''actions''] j))"

definition del_recorded_rule :: "env \<Rightarrow> gostring \<Rightarrow> (world, panic_error, unit) act" where
  "del_recorded_rule E p = (case sh_int p of
     Some i \<Rightarrow> if i \<ge> 1000 then del_rule E p else ret () | None \<Rightarrow> ret ())"

definition revert_net :: "env \<Rightarrow> marks \<Rightarrow> json \<Rightarrow> bool \<Rightarrow> (world, panic_error, bool) act" where
  "revert_net E m j failed =
     bindA (seqA (del_rule E (RULE_PRIORITY m) # map (del_recorded_rule E) (rule_priorities E j)
       @ [soft_run (net_call E (\<lambda>n. Inr (ip_route_flush E (TABLE_ID m) n)))])) (\<lambda>_.
     bindA (attempt (link_show E (TUN_IFNAME m))) (\<lambda>r. case r of
       Inl _ \<Rightarrow> ret failed
     | Inr _ \<Rightarrow> run_or_fail (net_call E (ip_link_del E (TUN_IFNAME m))) failed))"

definition test_exists :: "env \<Rightarrow> path \<Rightarrow> (world, panic_error, bool) act" where
  "test_exists E p = bindA (attempt (os_stat E p)) (\<lambda>r. case r of
     Inr _ \<Rightarrow> ret True
   | Inl _ \<Rightarrow> bindA (attempt (os_lstat E p)) (\<lambda>l. ret (case l of Inr (Symlink _) \<Rightarrow> True | _ \<Rightarrow> False)))"

definition check_backup :: "env \<Rightarrow> path \<Rightarrow> gostring \<Rightarrow> bool \<Rightarrow> (world, panic_error, bool) act" where
  "check_backup E backup sha failed = (if sha = [] then ret failed
     else bindA (attempt (hashFile E backup)) (\<lambda>r. ret (failed \<or> r \<noteq> Inr sha)))"

definition restore_resolv :: "env \<Rightarrow> path \<Rightarrow> json \<Rightarrow> bool \<Rightarrow> (world, panic_error, bool) act" where
  "restore_resolv E resolv j failed = (
     let rc = [''pre_state'', ''resolv_conf'']; existed = jq_r E (rc @ [''existed'']) j;
         backup = jq_r E (rc @ [''backup_path'']) j;
         was_symlink = (jq_r E (rc @ [''was_symlink'']) j = ''true'');
         target = jq_or_empty E (rc @ [''symlink_target'']) j;
         sha = jq_or_empty E (rc @ [''sha256_before'']) j
     in if existed = ''true'' then
          bindA (if was_symlink then ret True else test_exists E backup) (\<lambda>there.
          if \<not> there then ret True
          else bindA (if was_symlink then ret failed else check_backup E backup sha failed) (\<lambda>failed1.
            if \<not> failed1 \<or> was_symlink then
              bindA (soft_run (rm_f E resolv)) (\<lambda>_.
              if was_symlink then
                bindA (guard (target \<noteq> []) NoSymlinkTarget) (\<lambda>_.
                run_or_fail (os_symlink E target resolv) failed1)
              else run_or_fail (cp_a E backup resolv) failed1)
            else ret failed1))
        else if existed = ''false'' then bindA (soft_run (rm_f E resolv)) (\<lambda>_. ret failed)
        else ret failed)"

definition retire :: "env \<Rightarrow> path \<Rightarrow> bool \<Rightarrow> (world, panic_error, unit) act" where
  "retire E snapshot failed = (if failed then throw RevertHadErrors else ignoreA (rm_f E snapshot))"

definition revert_from :: "env \<Rightarrow> path \<Rightarrow> path \<Rightarrow> json \<Rightarrow> (world, panic_error, unit) act" where
  "revert_from E snapshot resolv j =
     bindA (read_marks E j) (\<lambda>m.
     bindA (revert_sysctls E (jq_elems [''pre_state'', ''sysctls''] j) False) (\<lambda>failed1.
     bindA (revert_net E m j failed1) (\<lambda>failed2.
     bindA (restore_resolv E resolv j failed2) (\<lambda>failed3.
     retire E snapshot failed3))))"

text \<open>\<open>jq -e .\<close> accepts a document that is neither \<open>null\<close> nor \<open>false\<close>.\<close>

fun jq_document :: "fdata \<Rightarrow> json option" where
  "jq_document (Doc j) = (if j = JNull \<or> j = JBool False then None else Some j)"
| "jq_document _ = None"

definition ouf_panic :: "env \<Rightarrow> path \<Rightarrow> path \<Rightarrow> (world, panic_error, unit) act" where
  "ouf_panic E state_dir resolv = (let snapshot = filepath_join state_dir ''snapshot.json'' in
     bindA (attempt (os_stat E snapshot)) (\<lambda>st. case st of
       Inr (File _ _) \<Rightarrow>
         bindA (seqA (map (require_tool E) [''jq'', ''ip'', ''sysctl'', ''sha256sum''])) (\<lambda>_.
         bindA (attempt (os_read E snapshot)) (\<lambda>r. case r of
           Inl _ \<Rightarrow> throw NotJson
         | Inr d \<Rightarrow> (case jq_document d of None \<Rightarrow> throw NotJson
             | Some j \<Rightarrow> revert_from E snapshot resolv j)))
     | _ \<Rightarrow> ret ()))"

end
