(* ===== verification/Session.thy ===== *)
theory Session
  imports TunConfig PanicScript
begin

text \<open>
  One VPN session (package \<open>internal/tun\<close>): creating it, bringing it up, tearing it down.
  The code of \<open>session_linux.go\<close>, \<open>routing_linux.go\<close>, \<open>resolv_linux.go\<close>, \<open>ipv6_linux.go\<close>,
  \<open>tun_linux.go\<close>, \<open>packet_linux.go\<close> and \<open>panic_linux.go\<close>, in that order of calls. It runs on the
  session and the world together; a nil pointer that is used kills the daemon.
\<close>

section \<open>Session state\<close>

record tun_device =
  ifname :: gostring
  fd_open :: bool

record session =
  cfg :: config
  wr :: "snap_writer option"
  tun :: "tun_device option"
  device :: bool
  svrIP :: "gostring option"
  pumps :: nat
  stopped :: bool
  closed :: bool

type_synonym ('e, 'a) sess_act = "(session \<times> world, 'e, 'a) act"

definition onW :: "(world, 'e, 'a) act \<Rightarrow> ('e, 'a) sess_act" where
  "onW m = (\<lambda>(s, w). case m w of (r, w') \<Rightarrow> (r, (s, w')))"

definition with_session :: "(session \<Rightarrow> ('e, 'a) sess_act) \<Rightarrow> ('e, 'a) sess_act" where
  "with_session f = (\<lambda>(s, w). f s (s, w))"

definition update :: "(session \<Rightarrow> session) \<Rightarrow> ('e, unit) sess_act" where
  "update f = (\<lambda>(s, w). (Ret (), (f s, w)))"

definition lift_sum :: "'e + 'a \<Rightarrow> ('s, 'e, 'a) act" where
  "lift_sum r = (case r of Inl e \<Rightarrow> throw e | Inr a \<Rightarrow> ret a)"

definition nil_deref :: "('s, 'e, 'a) act" where
  "nil_deref s = (Dead, s)"

definition with_writer :: "(snap_writer \<Rightarrow> ('e, 'a) sess_act) \<Rightarrow> ('e, 'a) sess_act" where
  "with_writer f = with_session (\<lambda>s. case wr s of None \<Rightarrow> nil_deref | Some v \<Rightarrow> f v)"

definition on_writer :: "(snap_writer \<Rightarrow> snap_writer) \<Rightarrow> ('e, unit) sess_act" where
  "on_writer f = with_writer (\<lambda>v. update (\<lambda>s. s\<lparr>wr := Some (f v)\<rparr>))"

definition persist_snap :: "env \<Rightarrow> (snap_error, unit) sess_act" where
  "persist_snap E = with_writer (\<lambda>v. onW (Persist E v))"

definition markLastActionDone :: "('e, unit) sess_act" where
  "markLastActionDone = on_writer MarkLastDone"

section \<open>IPv6\<close>

datatype ipv6_error = ReadProc oserr | UnexpectedValue gostring | BadValue gostring | WriteProc oserr

definition readIPv6Disabled :: "env \<Rightarrow> (world, ipv6_error, gostring) act" where
  "readIPv6Disabled E = bindA (mapE ReadProc (os_read_proc E IPv6DisableProcFile)) (\<lambda>b.
     let v = trim_space b in
     if v \<noteq> ''0'' \<and> v \<noteq> ''1'' then throw (UnexpectedValue v) else ret v)"

definition writeIPv6Disabled :: "env \<Rightarrow> gostring \<Rightarrow> (world, ipv6_error, unit) act" where
  "writeIPv6Disabled E v =
     (if v \<noteq> ''0'' \<and> v \<noteq> ''1'' then throw (BadValue v)
      else mapE WriteProc (sysctl_write E (sysctl_of_path IPv6DisableProcFile) v))"

section \<open>The Shadowsocks server\<close>

datatype resolve_error = MultiPart | ResolveNoURL | ParseURL | WrongScheme gostring | NoHost
  | LookupFailed gostring | IPv6Only

fun first_v4 :: "gostring option list \<Rightarrow> resolve_error + gostring" where
  "first_v4 [] = Inl IPv6Only"
| "first_v4 (None # ips) = first_v4 ips"
| "first_v4 (Some v4 # ips) = Inr v4"

definition resolveShadowsocksServerIPv4 :: "env \<Rightarrow> gostring \<Rightarrow> resolve_error + gostring" where
  "resolveShadowsocksServerIPv4 E transportConfig =
     (if CHR ''|'' \<in> set transportConfig then Inl MultiPart
      else let t = trim_space transportConfig in
        if t = [] then Inl ResolveNoURL
        else (case url_parts E t of
          None \<Rightarrow> Inl ParseURL
        | Some (scheme, host) \<Rightarrow>
            if scheme \<noteq> ''ss'' then Inl (WrongScheme scheme)
            else if host = [] then Inl NoHost
            else (case lookup_ip E host of
              None \<Rightarrow> Inl (LookupFailed host)
            | Some ips \<Rightarrow> first_v4 ips)))"

datatype proxy = Remote gostring | DnsTruncate | Delegate proxy

datatype packet_error = UdpListener | UdpProxy | TruncateProxy | DelegateProxy

text \<open>The constructors of the SDK are parameters; \<open>sdk_ready\<close> says whether the n-th of the
  session's other constructor calls succeeds.\<close>

definition newPacketProxy :: "env \<Rightarrow> gostring \<Rightarrow> packet_error + proxy" where
  "newPacketProxy E transportURL =
     (if \<not> packet_listener E transportURL then Inl UdpListener
      else if \<not> sdk_ready E 0 then Inl UdpProxy
      else let remote = Remote transportURL in
        if \<not> sdk_ready E 1 then Inl TruncateProxy
        else let fallback = DnsTruncate in
          if \<not> sdk_ready E 2 then Inl DelegateProxy
          else Inr (Delegate remote))"

section \<open>The TUN device\<close>

datatype tun_error = TunNameRequired | TunIPRequired | CreateTun oserr | LinkLookup oserr
  | ParseTunIP gostring | AddrAdd | LinkUp

text \<open>Closing the descriptor of a device that is not persistent removes the device.\<close>

definition iface_close :: "env \<Rightarrow> gostring \<Rightarrow> (world, oserr, unit) act" where
  "iface_close E name = net_call E (\<lambda>n. Inr (tun_close E name n))"

definition newTunDevice :: "env \<Rightarrow> gostring \<Rightarrow> gostring \<Rightarrow> (world, tun_error, tun_device) act" where
  "newTunDevice E name ip =
     (if name = [] then throw TunNameRequired
      else if ip = [] then throw TunIPRequired
      else
        bindA (mapE CreateTun (net_call E (tun_open E name))) (\<lambda>_.
        bindA (seqA [
          onErr (ignoreA (iface_close E name)) (mapE LinkLookup (link_show E name)),
          onErr (ignoreA (iface_close E name))
            (if parse_ipnet E (ip @ ''/32'') = None then throw (ParseTunIP ip) else ret ()),
          onErr (ignoreA (iface_close E name)) (mapE (\<lambda>_. AddrAdd)
            (net_call E (\<lambda>n. if addr_add E name ip n then Inr n else Inl EINVAL))),
          onErr (ignoreA (iface_close E name)) (mapE (\<lambda>_. LinkUp)
            (net_call E (\<lambda>n. if link_set_up E name n then Inr n else Inl EINVAL)))]) (\<lambda>_.
        ret \<lparr>ifname = name, fd_open = True\<rparr>)))"

text \<open>\<open>s.tun.Close()\<close>, on an open descriptor.\<close>

definition close_tun :: "env \<Rightarrow> ('e, unit) sess_act" where
  "close_tun E = with_session (\<lambda>s. case tun s of
     Some d \<Rightarrow> (if fd_open d then seqA [update (\<lambda>s. s\<lparr>tun := Some (d\<lparr>fd_open := False\<rparr>)\<rparr>),
        ignoreA (onW (iface_close E (ifname d)))] else ret ())
   | None \<Rightarrow> ret ())"

section \<open>resolv.conf\<close>

datatype resolv_error = UnlinkSymlink oserr | LstatResolv oserr | ResolvSnap snap_error
  | WriteTmpResolv oserr | RenameResolv oserr

definition resolv_content :: "gostring \<Rightarrow> gostring" where
  "resolv_content dns = ''# outline-fedora: managed while VPN is active'' @ [byte_of 10]
     @ ''nameserver '' @ dns @ [byte_of 10]"

definition os_write_file :: "env \<Rightarrow> path \<Rightarrow> gostring \<Rightarrow> nat \<Rightarrow> (world, oserr, unit) act" where
  "os_write_file E p b m = seqA [os_open_trunc E p m,
     onErr (ignoreA (os_fd_call E p)) (os_write E p (Bytes b)), os_fd_call E p]"

definition writeResolvConf :: "env \<Rightarrow> (resolv_error, unit) sess_act" where
  "writeResolvConf E = with_session (\<lambda>s.
     let resolv = ResolvPath (cfg s); content = resolv_content (DNSServerIP (cfg s));
         sha = sha256 E content; tmp = resolv @ ''.ouf.tmp'' in
     bindA (onW (attempt (os_lstat E resolv))) (\<lambda>fi.
     seqA [
       (case fi of
          Inr (Symlink _) \<Rightarrow> mapE UnlinkSymlink (onW (os_remove E resolv))
        | Inr _ \<Rightarrow> ret ()
        | Inl e \<Rightarrow> if e \<noteq> ENOENT then throw (LstatResolv e) else ret ()),
       on_writer (AppendAction (ResolvWriteAction resolv sha False)),
       mapE ResolvSnap (persist_snap E),
       mapE WriteTmpResolv (onW (os_write_file E tmp content mode_0644)),
       onErr (ignoreA (onW (os_remove E tmp))) (mapE RenameResolv (onW (os_rename E tmp resolv))),
       on_writer MarkLastDone,
       mapE ResolvSnap (persist_snap E)]))"

section \<open>Routes and rules\<close>

datatype routing_error = ParseGateway gostring | RouteSnap snap_error | AddRoute oserr
  | PriorityUnderflow int | ParseBypass gostring | AddRule int oserr

definition add_route :: "env \<Rightarrow> iproute \<Rightarrow> gostring \<Rightarrow> (routing_error, unit) sess_act" where
  "add_route E r spec = seqA [
     on_writer (AppendAction (RouteAddAction (rt_table r) spec False)),
     mapE RouteSnap (persist_snap E),
     mapE AddRoute (onW (net_call E (route_add E r))),
     markLastActionDone,
     mapE RouteSnap (persist_snap E)]"

definition add_rule :: "env \<Rightarrow> iprule \<Rightarrow> gostring \<Rightarrow> (routing_error, unit) sess_act" where
  "add_rule E r spec = seqA [
     on_writer (AppendAction (RuleAddAction (ru_priority r) (ru_table r) spec False)),
     mapE RouteSnap (persist_snap E),
     mapE (AddRule (ru_priority r)) (onW (net_call E (rule_add E r))),
     markLastActionDone,
     mapE RouteSnap (persist_snap E)]"

definition bypasses :: "gostring \<Rightarrow> (gostring \<times> gostring) list" where
  "bypasses svr = [
     (svr @ ''/32'', ''shadowsocks server''),
     (''10.0.0.0/8'', ''private 10/8''),
     (''172.16.0.0/12'', ''private 172.16/12''),
     (''192.168.0.0/16'', ''private 192.168/16''),
     (''127.0.0.0/8'', ''loopback''),
     (''169.254.0.0/16'', ''link-local''),
     (''224.0.0.0/4'', ''multicast'')]"

definition install_bypass :: "env \<Rightarrow> int \<Rightarrow> nat \<Rightarrow> nat \<times> gostring \<times> gostring
    \<Rightarrow> (routing_error, unit) sess_act" where
  "install_bypass E base n = (\<lambda>(i, cidr, desc).
     let pri = base - int n + int i in
     if pri < 1 then throw (PriorityUnderflow base)
     else (case parse_ipnet E cidr of
       None \<Rightarrow> throw (ParseBypass cidr)
     | Some (_, dst) \<Rightarrow>
         add_rule E \<lparr>ru_priority = pri, ru_table = 254, ru_to = dst\<rparr>
           (''to '' @ cidr @ '' lookup main (bypass '' @ desc @ '')'')))"

definition catchall :: "config \<Rightarrow> iprule" where
  "catchall c = \<lparr>ru_priority = RoutingRulePriority c, ru_table = RoutingTableID c, ru_to = []\<rparr>"

definition gateway_route :: "config \<Rightarrow> gostring \<Rightarrow> gostring \<Rightarrow> iproute" where
  "gateway_route c dev gwNet = \<lparr>rt_table = RoutingTableID c, rt_dst = gwNet, rt_via = [],
     rt_dev = dev, rt_src = TunIP c, rt_scope_link = True\<rparr>"

definition default_route :: "config \<Rightarrow> gostring \<Rightarrow> gostring \<Rightarrow> iproute" where
  "default_route c dev gwIP = \<lparr>rt_table = RoutingTableID c, rt_dst = [], rt_via = gwIP,
     rt_dev = dev, rt_src = [], rt_scope_link = False\<rparr>"

definition installRouting :: "env \<Rightarrow> (routing_error, unit) sess_act" where
  "installRouting E = with_session (\<lambda>s. let c = cfg s in
     case parse_ipnet E (TunGatewayCIDR c) of
       None \<Rightarrow> throw (ParseGateway (TunGatewayCIDR c))
     | Some (gwIP, gwNet) \<Rightarrow> (case tun s of
         Some d \<Rightarrow>
           (let bs = bypasses (case svrIP s of Some ip \<Rightarrow> ip | None \<Rightarrow> ''<nil>'') in seqA (
             [add_route E (gateway_route c (ifname d) gwNet)
                (gwNet @ '' dev '' @ TunName c @ '' scope link src '' @ TunIP c),
              add_route E (default_route c (ifname d) gwIP)
                (''default via '' @ gwIP @ '' dev '' @ TunName c)]
             @ map (install_bypass E (RoutingRulePriority c) (length bs)) (enumerate 0 bs)
             @ [add_rule E (catchall c) (''from all lookup '' @ dec_int (RoutingTableID c) @ '' (catchall)'')]))
       | None \<Rightarrow> nil_deref))"

section \<open>Reverting\<close>

datatype run_error = ScriptNotFound oserr | ScriptNotStarted oserr | ScriptFailed nat

text \<open>The script's path: the variable \<open>OUF_PANIC_SCRIPT\<close>, if it is set, at the start of the program.\<close>

definition PanicScriptPath :: "gostring \<Rightarrow> path" where
  "PanicScriptPath p = (if p \<noteq> [] then p else ''/usr/local/sbin/ouf-panic'')"

definition runPanicScript :: "env \<Rightarrow> path \<Rightarrow> path \<Rightarrow> (world, run_error, unit) act" where
  "runPanicScript E dir resolv = seqA [
     bindA (mapE ScriptNotFound (os_stat E (panic_path E))) (\<lambda>_. ret ()),
     mapE ScriptNotStarted (os_fd_call E (panic_path E)),
     mapE (\<lambda>e. ScriptFailed (exit_code e)) (ouf_panic E dir resolv)]"

definition RunPanicStandalone :: "env \<Rightarrow> path \<Rightarrow> path \<Rightarrow> (world, run_error, unit) act" where
  "RunPanicStandalone E dir resolv = runPanicScript E dir resolv"

definition close_device :: "('e, unit) sess_act" where
  "close_device = update (\<lambda>s. s\<lparr>device := False\<rparr>)"

text \<open>\<open>Wait\<close> returns when \<open>closed\<close> is closed and both copies have ended; \<open>None\<close> is waiting on.\<close>

definition Wait :: "session \<Rightarrow> unit option" where
  "Wait s = (if closed s \<and> pumps s = 0 then Some () else None)"

definition cleanupOnFailure :: "env \<Rightarrow> ('e, unit) sess_act" where
  "cleanupOnFailure E = seqA [close_tun E, close_device,
     ignoreA (with_session (\<lambda>s. onW (runPanicScript E (StateDir (cfg s)) (ResolvPath (cfg s)))))]"

text \<open>With the tun and the device closed both copies return, so the wait for the pumps ends.\<close>

definition Close :: "env \<Rightarrow> (run_error, unit) sess_act" where
  "Close E = with_session (\<lambda>s. if stopped s then ret () else seqA [
     update (\<lambda>s. s\<lparr>stopped := True\<rparr>),
     close_tun E, close_device,
     update (\<lambda>s. s\<lparr>closed := True, pumps := 0\<rparr>),
     onW (runPanicScript E (StateDir (cfg s)) (ResolvPath (cfg s)))])"

section \<open>Starting\<close>

datatype start_error = SnapshotExists path | InitSnapshot snap_error | RecordResolv snap_error
  | ReadIPv6 ipv6_error | TunTaken gostring | PersistInitial snap_error | DisableIPv6 ipv6_error
  | StartSnap snap_error | ResolveServer resolve_error | BuildDialer | BuildProxy packet_error
  | ConfigureLwip | CreateTunFailed tun_error | WriteResolv resolv_error | InstallRouting routing_error

definition New :: "config \<Rightarrow> config_error + session" where
  "New c0 = (let c = ApplyDefaults c0 in case Validate c of
     Inl e \<Rightarrow> Inl e
   | Inr _ \<Rightarrow> Inr \<lparr>cfg = c, wr = None, tun = None, device = False, svrIP = None, pumps = 0,
       stopped = False, closed = False\<rparr>)"

definition ServerIP :: "session \<Rightarrow> gostring option" where
  "ServerIP s = svrIP s"

text \<open>Up to and including the first snapshot on disk: nothing of the host is changed yet.\<close>

definition record_rest :: "env \<Rightarrow> config \<Rightarrow> (start_error, unit) sess_act" where
  "record_rest E c = seqA [
     bindA (mapE ReadIPv6 (onW (readIPv6Disabled E)))
       (\<lambda>cur. on_writer (RecordSysctl IPv6DisableSysctlKey cur)),
     bindA (onW (attempt (link_show E (TunName c)))) (\<lambda>r.
       if \<not> isl r then seqA [on_writer (SetTunExisted True), throw (TunTaken (TunName c))]
       else ret ()),
     mapE PersistInitial (persist_snap E)]"

definition start_record :: "env \<Rightarrow> (start_error, unit) sess_act" where
  "start_record E = with_session (\<lambda>s.
     let c = cfg s; snapPath = StateDir c @ ''/'' @ SnapshotFile;
         marks = \<lparr>TunIfname = TunName c, TableID = RoutingTableID c,
                  RulePriority = RoutingRulePriority c, Fwmark = None\<rparr> in
     bindA (onW (attempt (os_stat E snapPath))) (\<lambda>st.
     if \<not> isl st then throw (SnapshotExists snapPath)
     else
       bindA (mapE InitSnapshot (onW (snapshot_New E (StateDir c) marks (OUFVersion c)))) (\<lambda>v.
       bindA (update (\<lambda>s. s\<lparr>wr := Some v\<rparr>)) (\<lambda>_.
       bindA (mapE RecordResolv (onW (RecordResolvConf E (ResolvPath c) v))) (\<lambda>v1.
       bindA (update (\<lambda>s. s\<lparr>wr := Some v1\<rparr>)) (\<lambda>_.
       record_rest E c))))))"

text \<open>Everything after the deferred cleanup is installed.\<close>

definition start_mutate :: "env \<Rightarrow> (start_error, unit) sess_act" where
  "start_mutate E = with_session (\<lambda>s. let c = cfg s in
     seqA [
       mapE DisableIPv6 (onW (writeIPv6Disabled E ''1'')),
       on_writer (AppendAction (SysctlSetAction IPv6DisableSysctlKey ''1'' True)),
       mapE StartSnap (persist_snap E),
       bindA (mapE ResolveServer (lift_sum (resolveShadowsocksServerIPv4 E (TransportURL c))))
         (\<lambda>ip. update (\<lambda>s. s\<lparr>svrIP := Some ip\<rparr>)),
       (if stream_dialer E (TransportURL c) then ret () else throw BuildDialer),
       bindA (mapE BuildProxy (lift_sum (newPacketProxy E (TransportURL c)))) (\<lambda>_. ret ()),
       (if sdk_ready E 3 then update (\<lambda>s. s\<lparr>device := True\<rparr>) else throw ConfigureLwip),
       bindA (mapE CreateTunFailed (onW (newTunDevice E (TunName c) (TunIP c))))
         (\<lambda>d. update (\<lambda>s. s\<lparr>tun := Some d\<rparr>)),
       on_writer (AppendAction (TunCreateAction (TunName c) True)),
       mapE StartSnap (persist_snap E),
       mapE WriteResolv (writeResolvConf E),
       mapE InstallRouting (installRouting E),
       update (\<lambda>s. s\<lparr>pumps := 2\<rparr>)])"

definition Start :: "env \<Rightarrow> (start_error, unit) sess_act" where
  "Start E = bindA (start_record E) (\<lambda>_. onErr (cleanupOnFailure E) (start_mutate E))"

end
