(* ===== verification/Recovery.thy ===== *)
theory Recovery
  imports Session
begin

text \<open>
  What it means that the host can be reverted. \<open>recoverable\<close> describes every world the
  daemon may die in while a session is starting or running: the snapshot on disk matches
  what was there before, every rule added is recorded in it, and nothing outside the
  session's own marks has changed. \<open>keeps\<close> lemmas show that the steps of a session stay
  within it. The kernel is a parameter; what is used of it is stated in \<open>lawful_kernel\<close>.
\<close>

section \<open>The kernel and the tools\<close>

definition plain :: "gostring \<Rightarrow> bool" where
  "plain s \<longleftrightarrow> valid_utf8 s \<and> cmd_subst s = s"

definition lawful_kernel :: "env \<Rightarrow> bool" where
  "lawful_kernel E \<longleftrightarrow>
     (\<forall>n s s'. tun_open E n s = Inr s' \<longrightarrow> s' = s\<lparr>links := insert n (links s)\<rparr>)
   \<and> (\<forall>n s. tun_close E n s =
        s\<lparr>links := links s - {n}, routes := {r \<in> routes s. rt_dev r \<noteq> n}\<rparr>)
   \<and> (\<forall>r s s'. route_add E r s = Inr s' \<longrightarrow> s' = s\<lparr>routes := insert r (routes s)\<rparr>)
   \<and> (\<forall>r s s'. rule_add E r s = Inr s' \<longrightarrow> s' = s\<lparr>rules := add_mset r (rules s)\<rparr>)
   \<and> (\<forall>p s. if \<exists>r. r \<in># rules s \<and> ru_priority r = p
        then \<exists>r. r \<in># rules s \<and> ru_priority r = p \<and> ip_rule_del E p s = s\<lparr>rules := rules s - {#r#}\<rparr>
        else ip_rule_del E p s = s)
   \<and> (\<forall>t s. ip_route_flush E t s = s\<lparr>routes := {r \<in> routes s. rt_table r \<noteq> t}\<rparr>)
   \<and> (\<forall>n s. n \<in> links s \<longrightarrow> ip_link_del E n s = Inr (tun_close E n s))
   \<and> (\<forall>n s s'. ip_link_del E n s = Inr s' \<longrightarrow> s' = tun_close E n s)
   \<and> (\<forall>b. sha256 E b \<noteq> [] \<and> plain (sha256 E b))"

section \<open>A session's own paths and marks\<close>

definition snap_path :: "config \<Rightarrow> path" where
  "snap_path c = StateDir c @ ''/'' @ SnapshotFile"

definition resolv_tmp :: "config \<Rightarrow> path" where
  "resolv_tmp c = ResolvPath c @ ''.ouf.tmp''"

definition snap_files :: "config \<Rightarrow> path set" where
  "snap_files c = {StateDir c, filepath_join (StateDir c) BackupSubdir, backup_path (StateDir c),
     snap_path c, snap_path c @ ''.tmp''}"

definition scratch :: "config \<Rightarrow> path set" where
  "scratch c = insert (resolv_tmp c) (snap_files c)"

definition marks_of :: "config \<Rightarrow> our_marks" where
  "marks_of c = \<lparr>TunIfname = TunName c, TableID = RoutingTableID c,
     RulePriority = RoutingRulePriority c, Fwmark = None\<rparr>"

definition our_priority :: "config \<Rightarrow> int \<Rightarrow> bool" where
  "our_priority c p \<longleftrightarrow> RoutingRulePriority c - 7 \<le> p \<and> p \<le> RoutingRulePriority c"

text \<open>Configurations whose marks the script accepts.\<close>

definition config_ok :: "config \<Rightarrow> bool" where
  "config_ok c \<longleftrightarrow> StateDir c \<noteq> [] \<and> plain (TunName c) \<and> \<not> reserved_ifname (TunName c)
   \<and> 0 < RoutingTableID c \<and> RoutingTableID c < 2 ^ 63 \<and> RoutingTableID c \<notin> {253, 254, 255}
   \<and> 1007 \<le> RoutingRulePriority c \<and> RoutingRulePriority c < 2 ^ 63
   \<and> plain (backup_path (StateDir c))
   \<and> ResolvPath c \<notin> snap_files c \<and> resolv_tmp c \<notin> snap_files c"

text \<open>A host with no session: none of the marks is in use.\<close>

definition host_clean :: "config \<Rightarrow> world \<Rightarrow> bool" where
  "host_clean c w \<longleftrightarrow> fs w (snap_path c) = None
   \<and> (\<forall>m. fs w (ResolvPath c) \<noteq> Some (Dir m)) \<and> (\<forall>m. fs w (resolv_tmp c) \<noteq> Some (Dir m))
   \<and> (\<forall>t. fs w (ResolvPath c) = Some (Symlink t) \<longrightarrow> t \<noteq> [] \<and> plain t)
   \<and> sysctls w IPv6DisableSysctlKey \<in> {Some ''0'', Some ''1''}
   \<and> TunName c \<notin> links (net w)
   \<and> (\<forall>r. r \<in># rules (net w) \<longrightarrow> \<not> our_priority c (ru_priority r))
   \<and> (\<forall>r \<in> routes (net w). rt_table r \<noteq> RoutingTableID c \<and> rt_dev r \<noteq> TunName c)"

section \<open>Worlds that can be reverted\<close>

definition rule_prios :: "snapshot \<Rightarrow> int list" where
  "rule_prios sn = map Priority (filter (\<lambda>a. Op a = OpRuleAdd) (Actions sn))"

definition backup_mode :: "config \<Rightarrow> world \<Rightarrow> nat" where
  "backup_mode c w0 = (case fs w0 (backup_path (StateDir c)) of Some (File _ m) \<Rightarrow> m | _ \<Rightarrow> mode_0600)"

definition resolv_saved :: "env \<Rightarrow> config \<Rightarrow> world \<Rightarrow> world \<Rightarrow> resolv_conf_state \<Rightarrow> bool" where
  "resolv_saved E c w0 w rc \<longleftrightarrow> (case fs w0 (ResolvPath c) of
     None \<Rightarrow> rc = no_resolv_conf
   | Some (Symlink t) \<Rightarrow> rc = \<lparr>Existed = True, BackupPath = [], WasSymlink = True,
       SymlinkTarget = t, SHA256Before = []\<rparr>
   | Some (File d m) \<Rightarrow> rc = \<lparr>Existed = True, BackupPath = backup_path (StateDir c),
       WasSymlink = False, SymlinkTarget = [], SHA256Before = sha256 E (file_bytes E d)\<rparr>
       \<and> fs w (backup_path (StateDir c)) = Some (File d (backup_mode c w0))
   | Some (Dir m) \<Rightarrow> False)"

text \<open>The network state \<open>n\<close> is \<open>n0\<close> with the session's link, rules at the priorities \<open>ps\<close> and
  routes in its table on top.\<close>

definition net_over :: "config \<Rightarrow> netstate \<Rightarrow> int multiset \<Rightarrow> netstate \<Rightarrow> bool" where
  "net_over c n0 ps n \<longleftrightarrow> links n - {TunName c} = links n0
   \<and> (\<exists>R. rules n = rules n0 + R \<and> image_mset ru_priority R \<subseteq># ps)
   \<and> {r \<in> routes n. rt_table r \<noteq> RoutingTableID c} = routes n0"

definition pre_saved :: "env \<Rightarrow> config \<Rightarrow> world \<Rightarrow> world \<Rightarrow> snapshot \<Rightarrow> bool" where
  "pre_saved E c w0 w sn \<longleftrightarrow> Vers sn = 1 \<and> OurMarks sn = marks_of c
   \<and> resolv_saved E c w0 w (ResolvConf (PreState sn))
   \<and> Sysctls (PreState sn) =
      [\<lparr>SysctlKey = IPv6DisableSysctlKey, ValueBefore = the (sysctls w0 IPv6DisableSysctlKey)\<rparr>]"

definition covers :: "env \<Rightarrow> config \<Rightarrow> world \<Rightarrow> world \<Rightarrow> snapshot \<Rightarrow> bool" where
  "covers E c w0 w sn \<longleftrightarrow> pre_saved E c w0 w sn
   \<and> net_over c (net w0) (mset (rule_prios sn)) (net w)
   \<and> list_all (our_priority c) (rule_prios sn) \<and> list_all (\<lambda>a. valid_utf8 (Op a)) (Actions sn)"

definition host_ok :: "config \<Rightarrow> world \<Rightarrow> world \<Rightarrow> bool" where
  "host_ok c w0 w \<longleftrightarrow> sysctls w IPv6DisableSysctlKey \<noteq> None
   \<and> (\<forall>k. k \<noteq> IPv6DisableSysctlKey \<longrightarrow> sysctls w k = sysctls w0 k)
   \<and> (\<forall>m. fs w (ResolvPath c) \<noteq> Some (Dir m)) \<and> (\<forall>m. fs w (resolv_tmp c) \<noteq> Some (Dir m))
   \<and> (\<forall>q. q \<notin> insert (ResolvPath c) (scratch c) \<longrightarrow> fs w q = fs w0 q)"

definition on_disk :: "config \<Rightarrow> snapshot \<Rightarrow> world \<Rightarrow> bool" where
  "on_disk c sn w \<longleftrightarrow> (\<exists>m. fs w (snap_path c) = Some (File (Doc (encode_snapshot sn)) m))"

definition recoverable :: "env \<Rightarrow> config \<Rightarrow> world \<Rightarrow> world \<Rightarrow> bool" where
  "recoverable E c w0 w \<longleftrightarrow> host_ok c w0 w \<and> (\<exists>sn. on_disk c sn w \<and> covers E c w0 w sn)"

text \<open>Nothing of the host has changed: only files of the session's own.\<close>

definition untouched :: "config \<Rightarrow> world \<Rightarrow> world \<Rightarrow> bool" where
  "untouched c w0 w \<longleftrightarrow> fs w (snap_path c) = None \<and> net w = net w0 \<and> sysctls w = sysctls w0
   \<and> (\<forall>q. q \<notin> snap_files c \<longrightarrow> fs w q = fs w0 q)"

text \<open>The host is as it was: the network, the sysctls, and \<open>resolv.conf\<close> by kind and content,
  with the mode of the backup; no snapshot is left, and nothing is in the way of the next start.\<close>

definition restored :: "config \<Rightarrow> world \<Rightarrow> world \<Rightarrow> bool" where
  "restored c w0 w \<longleftrightarrow> fs w (snap_path c) = None \<and> net w = net w0 \<and> sysctls w = sysctls w0
   \<and> (\<forall>m. fs w (resolv_tmp c) \<noteq> Some (Dir m))
   \<and> (\<forall>q. q \<notin> insert (ResolvPath c) (scratch c) \<longrightarrow> fs w q = fs w0 q)
   \<and> fs w (ResolvPath c) = (case fs w0 (ResolvPath c) of
        Some (File d m) \<Rightarrow> Some (File d (backup_mode c w0)) | nd \<Rightarrow> nd)"

section \<open>Harmless changes\<close>

definition harmless :: "config \<Rightarrow> world \<Rightarrow> world \<Rightarrow> world \<Rightarrow> bool" where
  "harmless c w0 w w' \<longleftrightarrow> (host_ok c w0 w \<longrightarrow> host_ok c w0 w')
   \<and> fs w' (snap_path c) = fs w (snap_path c)
   \<and> fs w' (backup_path (StateDir c)) = fs w (backup_path (StateDir c))
   \<and> (\<forall>ps. net_over c (net w0) ps (net w) \<longrightarrow> net_over c (net w0) ps (net w'))"

lemma harmless_refl [simp]: "harmless c w0 w w"
  by (simp add: harmless_def)

lemma harmless_trans: "harmless c w0 w w' \<Longrightarrow> harmless c w0 w' w'' \<Longrightarrow> harmless c w0 w w''"
  by (simp add: harmless_def)

lemma covers_harmless: "covers E c w0 w sn \<Longrightarrow> harmless c w0 w w' \<Longrightarrow> covers E c w0 w' sn"
  by (auto simp: covers_def pre_saved_def resolv_saved_def harmless_def split: option.splits node.splits)

lemma covers_net:
  "covers E c w0 w sn \<Longrightarrow> fs w' (backup_path (StateDir c)) = fs w (backup_path (StateDir c)) \<Longrightarrow>
     net_over c (net w0) (mset (rule_prios sn)) (net w') \<Longrightarrow> covers E c w0 w' sn"
  unfolding covers_def pre_saved_def resolv_saved_def by (simp split: option.splits node.splits)

lemma recoverable_harmless: "recoverable E c w0 w \<Longrightarrow> harmless c w0 w w' \<Longrightarrow> recoverable E c w0 w'"
  unfolding recoverable_def on_disk_def
  by (metis covers_harmless harmless_def)

lemma host_ok_clock [simp]: "host_ok c w0 (w\<lparr>clock := n\<rparr>) = host_ok c w0 w"
  by (simp add: host_ok_def)

lemma harmless_clock [simp]: "harmless c w0 wa (w\<lparr>clock := n\<rparr>) = harmless c w0 wa w"
  by (simp add: harmless_def)

text \<open>A step is gentle if it makes only harmless changes, wherever it ends.\<close>

abbreviation gentle :: "config \<Rightarrow> world \<Rightarrow> (world, 'e, 'a) act \<Rightarrow> bool" where
  "gentle c w0 m \<equiv> \<forall>wa. keeps (harmless c w0 wa) (harmless c w0 wa) m"

lemma gentleI:
  assumes "\<And>w. wp m (\<lambda>_. harmless c w0 w) (\<lambda>_. harmless c w0 w) (harmless c w0 w) w"
  shows "keeps (harmless c w0 wa) (harmless c w0 wa) m"
proof (rule keepsI)
  fix s assume "harmless c w0 wa s"
  with assms [of s] show "wp m (\<lambda>_. harmless c w0 wa) (\<lambda>_. harmless c w0 wa) (harmless c w0 wa) s"
    by (blast intro: wp_mono harmless_trans)
qed

lemma keeps_recoverable:
  assumes "gentle c w0 m"
  shows "keeps (recoverable E c w0) (recoverable E c w0) m"
proof (rule keepsI)
  fix w assume r: "recoverable E c w0 w"
  have "wp m (\<lambda>_. harmless c w0 w) (\<lambda>_. harmless c w0 w) (harmless c w0 w) w"
    using assms by (auto intro: keepsD)
  then show "wp m (\<lambda>_. recoverable E c w0) (\<lambda>_. recoverable E c w0) (recoverable E c w0) w"
    by (rule wp_mono) (use r recoverable_harmless in blast)+
qed

end
