(* ===== verification/GentleSteps.thy ===== *)
theory GentleSteps
  imports Recovery
begin

text \<open>
  The single steps of a session and of the revert script that change nothing but what the
  script reverts: reading, writing \<open>resolv.conf\<close> and its temporary file, the IPv6 sysctl,
  and the network operations on the session's own marks.
\<close>

section \<open>Paths\<close>

lemma path_simps [simp]:
  "ResolvPath c \<noteq> resolv_tmp c" "resolv_tmp c \<noteq> ResolvPath c"
  "snap_path c \<noteq> backup_path (StateDir c)" "backup_path (StateDir c) \<noteq> snap_path c"
  by (simp_all add: resolv_tmp_def snap_path_def backup_path_def filepath_join_def BackupSubdir_def
      SnapshotFile_def)

lemma snap_path_join: "StateDir c \<noteq> [] \<Longrightarrow> filepath_join (StateDir c) SnapshotFile = snap_path c"
  by (simp add: snap_path_def filepath_join_def)

lemma config_paths:
  assumes "config_ok c" "p \<in> {ResolvPath c, resolv_tmp c}"
  shows "p \<noteq> snap_path c" "p \<noteq> backup_path (StateDir c)" "p \<in> insert (ResolvPath c) (scratch c)"
    "snap_path c \<noteq> p" "backup_path (StateDir c) \<noteq> p"
proof -
  have "p \<notin> snap_files c" using assms unfolding config_ok_def by blast
  then show "p \<noteq> snap_path c" "p \<noteq> backup_path (StateDir c)" "snap_path c \<noteq> p"
    "backup_path (StateDir c) \<noteq> p" unfolding snap_files_def by blast+
  show "p \<in> insert (ResolvPath c) (scratch c)" using assms(2) unfolding scratch_def by blast
qed

lemma sysctl_key: "sysctl_of_path IPv6DisableProcFile = IPv6DisableSysctlKey"
  by (simp add: sysctl_of_path_def IPv6DisableProcFile_def IPv6DisableSysctlKey_def)

section \<open>Reading\<close>

lemma keeps_sys_query:
  assumes "\<And>w n. I w \<Longrightarrow> I (w\<lparr>clock := n\<rparr>)" "\<And>w. I w \<Longrightarrow> I (snd (op w))"
  shows "keeps I I (sys E nothing op)"
proof (rule keepsI)
  fix w assume "I w"
  then have "I (tick w)" by (rule assms(1))
  with assms(2) [of "tick w"] show "wp (sys E nothing op) (\<lambda>_. I) (\<lambda>_. I) I w"
    by (intro wp_sysI) (auto split: prod.split sum.split)
qed

lemma gentle_reads [keep_intros]:
  "keeps (harmless c w0 wa) (harmless c w0 wa) (os_stat E p)"
  "keeps (harmless c w0 wa) (harmless c w0 wa) (os_lstat E p)"
  "keeps (harmless c w0 wa) (harmless c w0 wa) (os_readlink E p)"
  "keeps (harmless c w0 wa) (harmless c w0 wa) (os_read E p)"
  "keeps (harmless c w0 wa) (harmless c w0 wa) (os_open E p)"
  "keeps (harmless c w0 wa) (harmless c w0 wa) (os_fd_call E p)"
  "keeps (harmless c w0 wa) (harmless c w0 wa) (os_read_proc E p)"
  "keeps (harmless c w0 wa) (harmless c w0 wa) (link_show E n)"
  unfolding os_call_defs link_show_def by (rule keeps_sys_query; simp)+

lemma gentle_hashFile [keep_intros]: "keeps (harmless c w0 wa) (harmless c w0 wa) (hashFile E p)"
  unfolding hashFile_def by (intro keep_intros)

section \<open>The sysctl and resolv.conf\<close>

lemma gentle_sysctl [keep_intros]:
  "keeps (harmless c w0 wa) (harmless c w0 wa) (sysctl_write E IPv6DisableSysctlKey v)"
  by (rule gentleI, rule wp_sysctl_write) (auto simp: harmless_def host_ok_def)

lemma host_ok_set_node:
  assumes "host_ok c w0 w" "p \<in> insert (ResolvPath c) (scratch c)" "\<forall>m. nd \<noteq> Some (Dir m)"
  shows "host_ok c w0 (set_node p nd w)"
proof -
  have "q \<noteq> p" if "q \<notin> insert (ResolvPath c) (scratch c)" for q using that assms(2) by blast
  with assms(1,3) show ?thesis by (simp add: host_ok_def)
qed

lemma harmless_set_node:
  assumes "config_ok c" "p \<in> {ResolvPath c, resolv_tmp c}" "host_ok c w0 w \<longrightarrow> (\<forall>m. nd \<noteq> Some (Dir m))"
    "harmless c w0 wa w"
  shows "harmless c w0 wa (set_node p nd w)"
  using assms(3,4) config_paths [OF assms(1,2)] host_ok_set_node [of c w0 w p nd]
  unfolding harmless_def by (simp del: insert_iff)

lemma harmless_put_data:
  "config_ok c \<Longrightarrow> p \<in> {ResolvPath c, resolv_tmp c} \<Longrightarrow> harmless c w0 wa w \<Longrightarrow>
     harmless c w0 wa (put_data p d w)"
  by (auto simp: put_data_def intro!: harmless_set_node split: option.split node.split)

lemma host_ok_no_dir: "host_ok c w0 w \<Longrightarrow> p \<in> {ResolvPath c, resolv_tmp c} \<Longrightarrow> fs w p \<noteq> Some (Dir m)"
  by (auto simp: host_ok_def)

lemma gentle_file_ops [keep_intros]:
  assumes "config_ok c" "p \<in> {ResolvPath c, resolv_tmp c}"
  shows "keeps (harmless c w0 wa) (harmless c w0 wa) (os_open_trunc E p m)"
    and "keeps (harmless c w0 wa) (harmless c w0 wa) (os_write E p d)"
    and "keeps (harmless c w0 wa) (harmless c w0 wa) (os_remove E p)"
    and "keeps (harmless c w0 wa) (harmless c w0 wa) (os_symlink E t p)"
    and "keeps (harmless c w0 wa) (harmless c w0 wa) (os_chmod E p m)"
    and "keeps (harmless c w0 wa) (harmless c w0 wa) (rm_f E p)"
proof -
  note [intro!] = wp_intros harmless_set_node [OF assms] harmless_put_data [OF assms]
  show "keeps (harmless c w0 wa) (harmless c w0 wa) (os_open_trunc E p m)" by (rule gentleI) auto
  show "keeps (harmless c w0 wa) (harmless c w0 wa) (os_write E p d)" by (rule gentleI) auto
  show "keeps (harmless c w0 wa) (harmless c w0 wa) (os_remove E p)" by (rule gentleI) auto
  show "keeps (harmless c w0 wa) (harmless c w0 wa) (os_symlink E t p)" by (rule gentleI) auto
  show "keeps (harmless c w0 wa) (harmless c w0 wa) (os_chmod E p m)"
    by (rule gentleI) (use host_ok_no_dir [OF _ assms(2), of w0] in auto)
  show "keeps (harmless c w0 wa) (harmless c w0 wa) (rm_f E p)"
    unfolding rm_f_def by (rule gentleI, rule wp_sysI) (auto split: option.split node.split)
qed

lemma gentle_rename [keep_intros]:
  assumes "config_ok c"
  shows "keeps (harmless c w0 wa) (harmless c w0 wa) (os_rename E (resolv_tmp c) (ResolvPath c))"
proof -
  have paths: "resolv_tmp c \<in> insert (ResolvPath c) (scratch c)" "ResolvPath c \<in> insert (ResolvPath c) (scratch c)"
    by (simp_all add: scratch_def)
  show ?thesis
  proof (rule gentleI, rule wp_os_rename)
    fix w :: world and n assume n: "fs w (resolv_tmp c) = Some n"
    let ?w1 = "set_node (resolv_tmp c) None (tick w)"
    have "host_ok c w0 (set_node (ResolvPath c) (Some n) ?w1)" if h: "host_ok c w0 w"
    proof -
      have t: "host_ok c w0 (tick w)" using h by simp
      have nd: "\<forall>m. Some n \<noteq> Some (Dir m)" using h n host_ok_no_dir [of c w0 w "resolv_tmp c"] by simp
      have "host_ok c w0 ?w1" by (rule host_ok_set_node [OF t paths(1)]) simp
      from host_ok_set_node [OF this paths(2) nd] show ?thesis .
    qed
    then show "harmless c w0 w (set_node (ResolvPath c) (Some n) ?w1)"
      using config_paths [OF assms, of "resolv_tmp c"] config_paths [OF assms, of "ResolvPath c"]
      by (simp add: harmless_def)
  qed auto
qed

section \<open>The network\<close>

lemma gentle_net:
  assumes "\<And>n n' ps. net_over c (net w0) ps n \<Longrightarrow> f n = Inr n' \<Longrightarrow> net_over c (net w0) ps n'"
  shows "keeps (harmless c w0 wa) (harmless c w0 wa) (net_call E f)"
  by (rule gentleI, rule wp_net_call) (use assms in \<open>auto simp: harmless_def host_ok_def\<close>)

lemma lawful_tun_open: "lawful_kernel E \<Longrightarrow> tun_open E n s = Inr s' \<Longrightarrow> s' = s\<lparr>links := insert n (links s)\<rparr>"
  by (simp add: lawful_kernel_def)

lemma lawful_tun_close: "lawful_kernel E \<Longrightarrow>
   tun_close E n s = s\<lparr>links := links s - {n}, routes := {r \<in> routes s. rt_dev r \<noteq> n}\<rparr>"
  by (simp add: lawful_kernel_def)

lemma lawful_route_add: "lawful_kernel E \<Longrightarrow> route_add E r s = Inr s' \<Longrightarrow> s' = s\<lparr>routes := insert r (routes s)\<rparr>"
  by (simp add: lawful_kernel_def)

lemma lawful_rule_add: "lawful_kernel E \<Longrightarrow> rule_add E r s = Inr s' \<Longrightarrow> s' = s\<lparr>rules := add_mset r (rules s)\<rparr>"
  by (simp add: lawful_kernel_def)

lemma lawful_flush: "lawful_kernel E \<Longrightarrow> ip_route_flush E t s = s\<lparr>routes := {r \<in> routes s. rt_table r \<noteq> t}\<rparr>"
  by (simp add: lawful_kernel_def)

lemma lawful_link_del:
  "lawful_kernel E \<Longrightarrow> ip_link_del E n s = Inr s' \<Longrightarrow> s' = tun_close E n s"
  "lawful_kernel E \<Longrightarrow> n \<in> links s \<Longrightarrow> ip_link_del E n s = Inr (tun_close E n s)"
  unfolding lawful_kernel_def by blast+

lemma lawful_rule_del:
  assumes "lawful_kernel E"
  obtains (none) "\<forall>r. r \<in># rules s \<longrightarrow> ru_priority r \<noteq> p" "ip_rule_del E p s = s"
  | (one) r where "r \<in># rules s" "ru_priority r = p" "ip_rule_del E p s = s\<lparr>rules := rules s - {#r#}\<rparr>"
proof -
  have "if \<exists>r. r \<in># rules s \<and> ru_priority r = p
        then \<exists>r. r \<in># rules s \<and> ru_priority r = p \<and> ip_rule_del E p s = s\<lparr>rules := rules s - {#r#}\<rparr>
        else ip_rule_del E p s = s"
    using assms unfolding lawful_kernel_def by blast
  then show thesis using none one by (auto split: if_splits)
qed

lemma net_over_tun_open:
  "lawful_kernel E \<Longrightarrow> TunName c \<notin> links n0 \<Longrightarrow> tun_open E (TunName c) n = Inr n' \<Longrightarrow>
     net_over c n0 ps n \<Longrightarrow> net_over c n0 ps n'"
proof -
  assume a: "lawful_kernel E" "tun_open E (TunName c) n = Inr n'" "net_over c n0 ps n"
  note n' = lawful_tun_open [OF a(1,2)]
  have "links n' - {TunName c} = links n - {TunName c}" unfolding n' by simp
  then show ?thesis using a(3) unfolding net_over_def n' by simp
qed

lemma net_over_tun_close:
  "lawful_kernel E \<Longrightarrow> \<forall>r \<in> routes n0. rt_dev r \<noteq> TunName c \<Longrightarrow>
     net_over c n0 ps n \<Longrightarrow> net_over c n0 ps (tun_close E (TunName c) n)"
proof -
  assume a: "lawful_kernel E" "\<forall>r \<in> routes n0. rt_dev r \<noteq> TunName c" "net_over c n0 ps n"
  have "{r \<in> {r \<in> routes n. rt_dev r \<noteq> TunName c}. rt_table r \<noteq> RoutingTableID c}
      = {r \<in> {r \<in> routes n. rt_table r \<noteq> RoutingTableID c}. rt_dev r \<noteq> TunName c}" by blast
  also have "\<dots> = routes n0" using a(2,3) unfolding net_over_def by auto
  finally have "{r \<in> {r \<in> routes n. rt_dev r \<noteq> TunName c}. rt_table r \<noteq> RoutingTableID c} = routes n0" .
  moreover have "links n - {TunName c} - {TunName c} = links n0" using a(3) unfolding net_over_def by blast
  ultimately show ?thesis using a(3) unfolding net_over_def lawful_tun_close [OF a(1)] by simp
qed

lemma net_over_route_add:
  assumes "lawful_kernel E" "rt_table r = RoutingTableID c" "route_add E r n = Inr n'" "net_over c n0 ps n"
  shows "net_over c n0 ps n'"
proof -
  have "{x \<in> insert r (routes n). rt_table x \<noteq> RoutingTableID c} = {x \<in> routes n. rt_table x \<noteq> RoutingTableID c}"
    using assms(2) by blast
  with assms(4) show ?thesis unfolding net_over_def lawful_route_add [OF assms(1,3)] by simp
qed

lemma net_over_flush:
  "lawful_kernel E \<Longrightarrow> net_over c n0 ps n \<Longrightarrow> net_over c n0 ps (ip_route_flush E (RoutingTableID c) n)"
  by (auto simp: net_over_def lawful_flush)

lemma net_over_rule_add:
  "lawful_kernel E \<Longrightarrow> rule_add E r n = Inr n' \<Longrightarrow> net_over c n0 ps n \<Longrightarrow>
     net_over c n0 (add_mset (ru_priority r) ps) n'"
proof -
  assume a: "lawful_kernel E" "rule_add E r n = Inr n'" "net_over c n0 ps n"
  then obtain R where R: "rules n = rules n0 + R" "image_mset ru_priority R \<subseteq># ps"
    by (auto simp: net_over_def)
  have "image_mset ru_priority (add_mset r R) \<subseteq># add_mset (ru_priority r) ps"
    using R(2) by simp
  moreover have "rules n' = rules n0 + add_mset r R"
    using R(1) lawful_rule_add [OF a(1,2)] by simp
  ultimately show ?thesis
    using a(3) lawful_rule_add [OF a(1,2)] unfolding net_over_def by auto
qed

lemma net_over_mono: "net_over c n0 ps n \<Longrightarrow> ps \<subseteq># ps' \<Longrightarrow> net_over c n0 ps' n"
  unfolding net_over_def by (metis subset_mset.trans)

lemma msubset_diff_single: "A \<subseteq># B \<Longrightarrow> A - {#x#} \<subseteq># B - {#x#}"
  by (simp add: subseteq_mset_def diff_le_mono)

text \<open>Deleting the rule of one priority that the host itself does not use.\<close>

lemma net_over_rule_del:
  assumes "lawful_kernel E" "net_over c n0 ps n" "\<forall>r. r \<in># rules n0 \<longrightarrow> ru_priority r \<noteq> p"
  shows "net_over c n0 (ps - {#p#}) (ip_rule_del E p n)"
proof -
  obtain R where R: "rules n = rules n0 + R" "image_mset ru_priority R \<subseteq># ps"
    using assms(2) by (auto simp: net_over_def)
  from assms(1) show ?thesis
  proof (cases rule: lawful_rule_del [of E n p])
    case none
    then have "p \<notin># image_mset ru_priority R" using R(1) by auto
    then have "image_mset ru_priority R = image_mset ru_priority R - {#p#}" by simp
    then have "image_mset ru_priority R \<subseteq># ps - {#p#}" using R(2) msubset_diff_single by metis
    with none R assms(2) show ?thesis unfolding net_over_def by auto
  next
    case (one r)
    then have r: "r \<in># R" using R(1) assms(3) by auto
    then have "image_mset ru_priority (R - {#r#}) \<subseteq># ps - {#p#}"
      using msubset_diff_single [OF R(2), of p] one(2) by (simp add: image_mset_Diff)
    moreover have "rules n - {#r#} = rules n0 + (R - {#r#})" using R(1) r by simp
    ultimately show ?thesis using one(3) assms(2) unfolding net_over_def by auto
  qed
qed

end
