(* ===== verification/SessionFacts.thy ===== *)
theory SessionFacts
  imports GentleSteps
begin

text \<open>
  The invariant of a session that is being started: the host is recoverable from the snapshot
  on disk, and the writer in memory covers the host as well, so the next version written
  will. Every step of \<open>start_mutate\<close> keeps it.
\<close>

section \<open>Weakest preconditions of session actions\<close>

lemma wp_onW [wp_simps]:
  "wp (onW m) Q X D sw = wp m (\<lambda>a w. Q a (fst sw, w)) (\<lambda>e w. X e (fst sw, w)) (\<lambda>w. D (fst sw, w)) (snd sw)"
  by (cases sw) (auto simp: wp_def onW_def split: prod.splits outcome.splits)

lemma wp_with_session [wp_simps]: "wp (with_session f) Q X D sw = wp (f (fst sw)) Q X D sw"
  by (cases sw) (simp add: wp_def with_session_def)

lemma wp_update [wp_simps]: "wp (update f) Q X D sw = Q () (f (fst sw), snd sw)"
  by (cases sw) (simp add: wp_def update_def)

lemma wp_nil_deref [wp_simps]: "wp nil_deref Q X D s = D s"
  by (simp add: wp_def nil_deref_def)

lemma wp_lift_sum [wp_simps]:
  "wp (lift_sum r) Q X D s = (case r of Inl e \<Rightarrow> X e s | Inr a \<Rightarrow> Q a s)"
  by (simp add: lift_sum_def wp_ret wp_throw split: sum.split)

lemma wp_with_writer [wp_simps]:
  "wp (with_writer f) Q X D sw = (case wr (fst sw) of None \<Rightarrow> D sw | Some v \<Rightarrow> wp (f v) Q X D sw)"
  by (simp add: with_writer_def wp_with_session wp_nil_deref split: option.split)

lemma wp_on_writer [wp_simps]:
  "wp (on_writer f) Q X D sw = (case wr (fst sw) of None \<Rightarrow> D sw
     | Some v \<Rightarrow> Q () ((fst sw)\<lparr>wr := Some (f v)\<rparr>, snd sw))"
  by (simp add: on_writer_def wp_with_writer wp_update split: option.split)

section \<open>Versions of the snapshot\<close>

definition action_ok :: "config \<Rightarrow> action \<Rightarrow> bool" where
  "action_ok c a \<longleftrightarrow> valid_utf8 (Op a) \<and> (Op a = OpRuleAdd \<longrightarrow> our_priority c (Priority a))"

lemma action_ok_constructors [simp]:
  "action_ok c (SysctlSetAction k v d)" "action_ok c (TunCreateAction n d)"
  "action_ok c (RouteAddAction t s d)" "action_ok c (ResolvWriteAction p h d)"
  "action_ok c (RuleAddAction q t s d) = our_priority c q"
  by (simp_all add: action_ok_def SysctlSetAction_def TunCreateAction_def RouteAddAction_def
      ResolvWriteAction_def RuleAddAction_def zero_action_def OpSysctlSet_def OpTunCreate_def
      OpRouteAdd_def OpResolvWrite_def OpRuleAdd_def ascii_valid_utf8 ascii_def)

lemma snap_AppendAction: "snap (AppendAction a v) =
    (snap v)\<lparr>Actions := Actions (snap v) @ [a\<lparr>Seq := nextSeq v\<rparr>]\<rparr>"
  by (simp add: AppendAction_def)

lemma rule_prios_AppendAction: "rule_prios (snap (AppendAction a v)) =
    rule_prios (snap v) @ (if Op a = OpRuleAdd then [Priority a] else [])"
  by (simp add: snap_AppendAction rule_prios_def)

lemma covers_AppendAction:
  assumes "covers E c w0 w (snap v)" "action_ok c a"
  shows "covers E c w0 w (snap (AppendAction a v))"
proof -
  have "net_over c (net w0) (mset (rule_prios (snap (AppendAction a v)))) (net w)"
    using assms(1) by (auto simp: covers_def rule_prios_AppendAction intro: net_over_mono)
  moreover have "list_all (our_priority c) (rule_prios (snap (AppendAction a v)))"
    using assms by (auto simp: covers_def rule_prios_AppendAction action_ok_def)
  ultimately show ?thesis
    using assms by (simp add: covers_def pre_saved_def snap_AppendAction action_ok_def)
qed

lemma map_filter_list_update:
  "i < length xs \<Longrightarrow> P y = P (xs ! i) \<Longrightarrow> f y = f (xs ! i) \<Longrightarrow>
     map f (filter P (xs[i := y])) = map f (filter P xs)"
  by (induction xs arbitrary: i) (auto split: nat.split simp: less_Suc_eq_0_disj)

lemma MarkLastDone_snap:
  "rule_prios (snap (MarkLastDone v)) = rule_prios (snap v)"
  "Vers (snap (MarkLastDone v)) = Vers (snap v)" "OurMarks (snap (MarkLastDone v)) = OurMarks (snap v)"
  "PreState (snap (MarkLastDone v)) = PreState (snap v)" "stateDir (MarkLastDone v) = stateDir v"
  "list_all (\<lambda>a. valid_utf8 (Op a)) (Actions (snap v)) \<Longrightarrow>
     list_all (\<lambda>a. valid_utf8 (Op a)) (Actions (snap (MarkLastDone v)))"
  by (auto simp: MarkLastDone_def Let_def rule_prios_def map_filter_list_update list_all_length
      nth_list_update)

lemma covers_MarkLastDone: "covers E c w0 w (snap v) \<Longrightarrow> covers E c w0 w (snap (MarkLastDone v))"
  by (simp add: covers_def pre_saved_def MarkLastDone_snap)

lemma AppendAction_stateDir [simp]: "stateDir (AppendAction a v) = stateDir v"
  by (simp add: AppendAction_def)

section \<open>The invariant\<close>

definition sess_inv :: "env \<Rightarrow> config \<Rightarrow> world \<Rightarrow> session \<times> world \<Rightarrow> bool" where
  "sess_inv E c w0 = (\<lambda>(s, w). cfg s = c \<and> recoverable E c w0 w
     \<and> (\<exists>v. wr s = Some v \<and> stateDir v = StateDir c \<and> covers E c w0 w (snap v))
     \<and> (\<forall>d. tun s = Some d \<longrightarrow> ifname d = TunName c))"

abbreviation died :: "env \<Rightarrow> config \<Rightarrow> world \<Rightarrow> session \<times> world \<Rightarrow> bool" where
  "died E c w0 sw \<equiv> recoverable E c w0 (snd sw)"

abbreviation skeeps :: "env \<Rightarrow> config \<Rightarrow> world \<Rightarrow> ('e, 'a) sess_act \<Rightarrow> bool" where
  "skeeps E c w0 m \<equiv> keeps (sess_inv E c w0) (died E c w0) m"

lemma sess_inv_died: "sess_inv E c w0 sw \<Longrightarrow> died E c w0 sw"
  by (auto simp: sess_inv_def)

lemma sess_inv_recoverable: "sess_inv E c w0 (s, w) \<Longrightarrow> recoverable E c w0 w"
  by (simp add: sess_inv_def)

lemma sess_inv_harmless:
  "sess_inv E c w0 (s, w) \<Longrightarrow> harmless c w0 w w' \<Longrightarrow> sess_inv E c w0 (s, w')"
  by (auto simp: sess_inv_def intro: covers_harmless recoverable_harmless)

lemma skeeps_onW [keep_intros]:
  assumes "\<And>wa. keeps (harmless c w0 wa) (harmless c w0 wa) m"
  shows "skeeps E c w0 (onW m)"
proof (rule keepsI)
  fix sw assume i: "sess_inv E c w0 sw"
  obtain s w where sw: "sw = (s, w)" by fastforce
  have "wp m (\<lambda>_. harmless c w0 w) (\<lambda>_. harmless c w0 w) (harmless c w0 w) w"
    by (rule keepsD [OF assms]) simp
  then show "wp (onW m) (\<lambda>_. sess_inv E c w0) (\<lambda>_. sess_inv E c w0) (died E c w0) sw"
    unfolding wp_onW sw fst_conv snd_conv
    by (rule wp_mono) (use i sw in \<open>auto intro: sess_inv_harmless sess_inv_recoverable
        recoverable_harmless [OF sess_inv_recoverable]\<close>)
qed

lemma skeeps_with_session [keep_intros]:
  assumes "\<And>s. cfg s = c \<Longrightarrow> (\<forall>d. tun s = Some d \<longrightarrow> ifname d = TunName c) \<Longrightarrow> skeeps E c w0 (f s)"
  shows "skeeps E c w0 (with_session f)"
proof (rule keepsI)
  fix sw assume i: "sess_inv E c w0 sw"
  then have "skeeps E c w0 (f (fst sw))" by (intro assms) (auto simp: sess_inv_def)
  from keepsD [OF this i]
  show "wp (with_session f) (\<lambda>_. sess_inv E c w0) (\<lambda>_. sess_inv E c w0) (died E c w0) sw"
    by (simp add: wp_with_session)
qed

lemma skeeps_nil [keep_intros]: "skeeps E c w0 nil_deref"
  by (rule keepsI) (simp add: wp_nil_deref sess_inv_died)

lemma skeeps_lift_sum [keep_intros]: "skeeps E c w0 (lift_sum r)"
  unfolding lift_sum_def by (cases r) (auto intro: keep_intros)

lemma skeeps_update [keep_intros]:
  assumes "\<And>s. cfg (f s) = cfg s" "\<And>s. wr (f s) = wr s"
    "\<And>s d. cfg s = c \<Longrightarrow> \<forall>d. tun s = Some d \<longrightarrow> ifname d = TunName c \<Longrightarrow> tun (f s) = Some d \<Longrightarrow> ifname d = TunName c"
  shows "skeeps E c w0 (update f)"
proof (rule keepsI)
  fix sw assume i: "sess_inv E c w0 sw"
  obtain s w where sw: "sw = (s, w)" by fastforce
  have "\<forall>d. tun (f s) = Some d \<longrightarrow> ifname d = TunName c"
    using i assms(3) [of s] unfolding sw sess_inv_def by blast
  then have "sess_inv E c w0 (f s, w)"
    using i unfolding sw sess_inv_def by (simp add: assms(1,2))
  then show "wp (update f) (\<lambda>_. sess_inv E c w0) (\<lambda>_. sess_inv E c w0) (died E c w0) sw"
    by (simp add: wp_update sw)
qed

lemma skeeps_AppendAction [keep_intros]:
  assumes "action_ok c a"
  shows "skeeps E c w0 (on_writer (AppendAction a))"
  by (rule keepsI)
    (use assms covers_AppendAction in \<open>auto simp: wp_on_writer sess_inv_def split: option.split\<close>)

lemma skeeps_MarkLastDone [keep_intros]:
  "skeeps E c w0 (on_writer MarkLastDone)" "skeeps E c w0 markLastActionDone"
  unfolding markLastActionDone_def
  by (rule keepsI, use covers_MarkLastDone MarkLastDone_snap(5) in
      \<open>auto simp: wp_on_writer sess_inv_def split: option.split\<close>)+

section \<open>Writing the snapshot\<close>

abbreviation snap_own :: "config \<Rightarrow> path set" where
  "snap_own c \<equiv> {snap_path c, snap_path c @ ''.tmp''}"

lemma same_but_snap:
  assumes "config_ok c" "same_but (snap_own c) w w'"
  shows "host_ok c w0 w \<Longrightarrow> host_ok c w0 w'" "net w' = net w"
    "fs w' (backup_path (StateDir c)) = fs w (backup_path (StateDir c))"
    "covers E c w0 w sn \<Longrightarrow> covers E c w0 w' sn"
proof -
  have b: "backup_path (StateDir c) \<notin> snap_own c"
    by (simp add: snap_path_def backup_path_def filepath_join_def BackupSubdir_def SnapshotFile_def)
  with assms(2) show bk: "fs w' (backup_path (StateDir c)) = fs w (backup_path (StateDir c))"
    by (simp add: same_but_def)
  show n: "net w' = net w" using assms(2) by (simp add: same_but_def)
  have "ResolvPath c \<notin> snap_own c" "resolv_tmp c \<notin> snap_own c"
    using assms(1) unfolding config_ok_def snap_files_def by blast+
  then have "fs w' (ResolvPath c) = fs w (ResolvPath c)" "fs w' (resolv_tmp c) = fs w (resolv_tmp c)"
    using assms(2) by (simp_all only: same_but_def not_False_eq_True)
  moreover have "fs w' q = fs w q" if "q \<notin> insert (ResolvPath c) (scratch c)" for q
  proof -
    have "q \<notin> snap_own c" using that unfolding scratch_def snap_files_def by blast
    then show ?thesis using assms(2) by (simp only: same_but_def not_False_eq_True)
  qed
  ultimately show "host_ok c w0 w'" if "host_ok c w0 w"
    using that assms(2) unfolding host_ok_def by (simp only: same_but_def) metis
  show "covers E c w0 w' sn" if "covers E c w0 w sn"
    using that n bk unfolding covers_def pre_saved_def resolv_saved_def by (simp split: option.splits node.splits)
qed

lemma writer_paths:
  "StateDir c \<noteq> [] \<Longrightarrow> stateDir v = StateDir c \<Longrightarrow> snapshot_Path v = snap_path c"
  "StateDir c \<noteq> [] \<Longrightarrow> stateDir v = StateDir c \<Longrightarrow> snap_temps v = {snap_path c @ ''.tmp''}"
  by (simp_all add: snapshot_Path_def snap_temps_def snap_path_join)

lemma wp_persist_snap:
  assumes c: "config_ok c" and i: "sess_inv E c w0 (s, w)" and v: "wr s = Some v"
  shows "wp (persist_snap E)
     (\<lambda>_ sw. fst sw = s \<and> sess_inv E c w0 sw \<and> on_disk c (snap v) (snd sw) \<and> net (snd sw) = net w)
     (\<lambda>_. sess_inv E c w0) (died E c w0) (s, w)"
proof -
  have dir: "StateDir c \<noteq> []" using c by (simp add: config_ok_def)
  have iv: "stateDir v = StateDir c" "covers E c w0 w (snap v)" "host_ok c w0 w" "cfg s = c"
    "\<forall>d. tun s = Some d \<longrightarrow> ifname d = TunName c"
    using i v by (auto simp: sess_inv_def recoverable_def)
  obtain sn where sn: "on_disk c sn w" "covers E c w0 w sn"
    using i by (auto simp: sess_inv_def recoverable_def)
  note p = writer_paths [OF dir iv(1)]
  have same: "sess_inv E c w0 (s, w')" if f: "fs w' (snap_path c) = fs w (snap_path c)"
    "same_but {snap_path c @ ''.tmp''} w w'" for w'
  proof -
    have "same_but (snap_own c) w w'" using f(2) by (rule same_but_mono) blast
    note sb = same_but_snap [OF c this]
    have "on_disk c sn w'" using sn(1) f(1) by (simp add: on_disk_def)
    with sb iv sn v show ?thesis by (auto simp: sess_inv_def recoverable_def)
  qed
  have new: "sess_inv E c w0 (s, w') \<and> on_disk c (snap v) w' \<and> net w' = net w"
    if f: "fs w' (snap_path c) = Some (File (Doc (encode_snapshot (snap v))) m)"
      "same_but (snap_own c) w w'" for w' m
  proof -
    note sb = same_but_snap [OF c f(2)]
    have "on_disk c (snap v) w'" using f(1) by (simp add: on_disk_def)
    with sb iv v show ?thesis by (auto simp: sess_inv_def recoverable_def)
  qed
  show ?thesis
    unfolding persist_snap_def wp_with_writer wp_onW fst_conv snd_conv v option.case
    by (rule snap_file.wp_commitI) (use p new same sess_inv_recoverable [OF same] in auto)
qed

lemma skeeps_persist_snap [keep_intros]:
  assumes "config_ok c"
  shows "skeeps E c w0 (persist_snap E)"
proof (rule keepsI)
  fix sw assume i: "sess_inv E c w0 sw"
  obtain s w where sw: "sw = (s, w)" by fastforce
  obtain v where "wr s = Some v" using i sw by (auto simp: sess_inv_def)
  from wp_persist_snap [OF assms i [unfolded sw] this]
  show "wp (persist_snap E) (\<lambda>_. sess_inv E c w0) (\<lambda>_. sess_inv E c w0) (died E c w0) sw"
    unfolding sw by (rule wp_mono) auto
qed

end
