(* ===== verification/ScriptReads.thy ===== *)
theory ScriptReads
  imports SessionFacts
begin

text \<open>
  What the revert script reads out of a snapshot the daemon wrote: numbers printed and
  parsed again, strings unchanged if they are valid UTF-8 without trailing newlines, and
  the marks and recorded state of the encoded snapshot.
\<close>

section \<open>Numbers and strings through jq and the shell\<close>

lemma cmd_subst_id: "s \<noteq> [] \<Longrightarrow> last s \<noteq> byte_of 10 \<Longrightarrow> cmd_subst s = s"
  by (cases s rule: rev_cases) (simp_all add: cmd_subst_def trim_right_set_def)

lemma cmd_subst_Nil [simp]: "cmd_subst [] = []"
  by (simp add: cmd_subst_def trim_right_set_def)

lemma digit_not_newline: "is_digit c \<Longrightarrow> c \<noteq> byte_of 10"
  using digit_byte [of c] by auto

lemma dec_int_nonempty [simp]: "dec_int i \<noteq> []"
  by (simp add: dec_int_def)

lemma cmd_subst_dec_int [simp]: "cmd_subst (dec_int i) = dec_int i"
proof (rule cmd_subst_id)
  have "is_digit (last (dec n))" for n using dec_digits [of n] by simp
  then have "is_digit (last (dec_int i))" by (simp add: dec_int_def)
  then show "last (dec_int i) \<noteq> byte_of 10" by (rule digit_not_newline)
qed simp

lemma newline_iff: "c = byte_of 10 \<longleftrightarrow> byte c = 10"
proof
  assume "byte c = (10 :: nat)"
  then have "byte_of (byte c :: nat) = byte_of 10" by simp
  then show "c = byte_of 10" by simp
qed simp

lemma cmd_subst_bool [simp]: "cmd_subst ''true'' = ''true''" "cmd_subst ''false'' = ''false''"
  by (rule cmd_subst_id; simp add: newline_iff)+

lemma digit_value: "d < 10 \<Longrightarrow> byte (digit d) = 48 + d"
  by (simp add: digit_def less_Suc_eq numeral_eq_Suc) (elim disjE; simp)

lemma sh_digits_append: "sh_digits (s @ [c]) = 10 * sh_digits s + (byte c - 48)"
  by (simp add: sh_digits_def)

lemma sh_digits_dec: "sh_digits (dec n) = n"
proof (induction n rule: dec.induct)
  case (1 n)
  show ?case
  proof (cases "n < 10")
    case True
    then show ?thesis by (subst dec.simps) (simp add: sh_digits_def digit_value)
  next
    case False
    with 1 have "sh_digits (dec (n div 10)) = n div 10" by simp
    with False show ?thesis
      by (subst dec.simps) (simp add: sh_digits_append digit_value)
  qed
qed

lemma sh_int_dec_int:
  assumes "- (2 ^ 63) \<le> i" "i < 2 ^ 63"
  shows "sh_int (dec_int i) = Some i"
proof -
  have all: "list_all is_digit (dec n)" for n using dec_digits [of n] by (simp add: list_all_iff)
  have hd: "hd (dec n) \<noteq> CHR ''-'' \<and> hd (dec n) \<noteq> CHR ''+''" for n
  proof -
    have "is_digit (hd (dec n))" using dec_digits [of n] by simp
    then show ?thesis by (auto simp: is_digit_def)
  qed
  show ?thesis
    using assms all hd by (auto simp: sh_int_def Let_def dec_int_def sh_digits_dec)
qed

lemma dec_int_inj:
  assumes "- (2 ^ 63) \<le> i" "i < 2 ^ 63" "dec_int i = s" "sh_int s = Some k"
  shows "i = k"
  using sh_int_dec_int [OF assms(1,2)] assms(3,4) by simp

lemma sh_int_reserved: "sh_int ''253'' = Some 253" "sh_int ''254'' = Some 254" "sh_int ''255'' = Some 255"
  by (simp_all add: sh_int_def Let_def is_digit_def sh_digits_def)

lemma plain_jstr: "plain s \<Longrightarrow> jstr s = JStr s" "plain s \<Longrightarrow> cmd_subst s = s"
  by (simp_all add: plain_def jstr_valid)

lemma ascii_jstr: "ascii s \<Longrightarrow> jstr s = JStr s"
  by (simp add: jstr_valid ascii_valid_utf8)

lemma jstr_Nil [simp]: "jstr [] = JStr []"
  by (simp add: ascii_jstr ascii_def)

section \<open>The encoded snapshot\<close>

lemma read_version: "Vers sn = 1 \<Longrightarrow> jq_or_empty E [''version''] (encode_snapshot sn) = ''1''"
  by (simp add: jq_or_empty_def encode_snapshot_def) (simp add: dec_int_def dec.simps digit_def)

lemma read_our_marks:
  assumes "OurMarks sn = marks_of c" "plain (TunName c)" "TunName c \<noteq> []"
  shows "jq_or_empty E [''our_marks'', ''tun_ifname''] (encode_snapshot sn) = TunName c"
    and "jq_or_empty E [''our_marks'', ''table_id''] (encode_snapshot sn) = dec_int (RoutingTableID c)"
    and "jq_or_empty E [''our_marks'', ''rule_priority''] (encode_snapshot sn) = dec_int (RoutingRulePriority c)"
  using assms
  by (simp_all add: jq_or_empty_def encode_snapshot_def encode_marks_def marks_of_def plain_jstr)

lemma read_sysctls:
  "jq_elems [''pre_state'', ''sysctls''] (encode_snapshot sn) = map encode_sysctl (Sysctls (PreState sn))"
  by (simp add: jq_elems_def encode_snapshot_def encode_pre_state_def)

lemma read_sysctl_entry:
  assumes "plain (SysctlKey s)" "plain (ValueBefore s)"
  shows "jq_r E [''key''] (encode_sysctl s) = SysctlKey s"
    "jq_r E [''value_before''] (encode_sysctl s) = ValueBefore s"
  using assms by (simp_all add: jq_r_def encode_sysctl_def plain_jstr)

lemma jq_path_resolv:
  "jq_path [''pre_state'', ''resolv_conf'', f] (encode_snapshot sn)
     = jq_get f (encode_resolv (ResolvConf (PreState sn)))"
  by (simp add: encode_snapshot_def encode_pre_state_def split: option.split)

lemma read_resolv:
  "jq_r E [''pre_state'', ''resolv_conf'', ''existed''] (encode_snapshot sn)
     = (if Existed (ResolvConf (PreState sn)) then ''true'' else ''false'')"
  "jq_r E [''pre_state'', ''resolv_conf'', ''was_symlink''] (encode_snapshot sn)
     = (if WasSymlink (ResolvConf (PreState sn)) then ''true'' else ''false'')"
  "plain (BackupPath (ResolvConf (PreState sn))) \<Longrightarrow>
   jq_r E [''pre_state'', ''resolv_conf'', ''backup_path''] (encode_snapshot sn)
     = BackupPath (ResolvConf (PreState sn))"
  "plain (SymlinkTarget (ResolvConf (PreState sn))) \<Longrightarrow>
   jq_or_empty E [''pre_state'', ''resolv_conf'', ''symlink_target''] (encode_snapshot sn)
     = SymlinkTarget (ResolvConf (PreState sn))"
  "plain (SHA256Before (ResolvConf (PreState sn))) \<Longrightarrow>
   jq_or_empty E [''pre_state'', ''resolv_conf'', ''sha256_before''] (encode_snapshot sn)
     = SHA256Before (ResolvConf (PreState sn))"
  unfolding jq_r_def jq_or_empty_def jq_path_resolv
  by (simp_all add: encode_resolv_def plain_jstr cmd_subst_id)

lemma map_of_omit [simp]:
  "map_of (rev (omit_str f s)) g = (if s \<noteq> [] \<and> f = g then Some (jstr s) else None)"
  "map_of (rev (omit_int f i)) g = (if i \<noteq> 0 \<and> f = g then Some (JInt i) else None)"
  by (simp_all add: omit_str_def omit_int_def)

lemma read_action:
  assumes "valid_utf8 (Op a)"
  shows "jq_path [''op''] (encode_action a) = Some (JStr (Op a))"
    and "Priority a \<noteq> 0 \<Longrightarrow> jq_r E [''priority''] (encode_action a) = dec_int (Priority a)"
  using assms
  by (simp_all add: jq_r_def encode_action_def jstr_valid map_add_def)

lemma read_rule_priorities:
  assumes "list_all (\<lambda>a. valid_utf8 (Op a)) (Actions sn)" "0 \<notin> set (rule_prios sn)"
  shows "rule_priorities E (encode_snapshot sn) = map dec_int (rule_prios sn)"
proof -
  have elems: "jq_elems [''actions''] (encode_snapshot sn) = map encode_action (Actions sn)"
    by (simp add: jq_elems_def encode_snapshot_def)
  have "map (jq_r E [''priority'']) (filter (\<lambda>a. jq_path [''op''] a = Some (JStr ''rule_add'')) (map encode_action as))
      = map dec_int (map Priority (filter (\<lambda>a. Op a = OpRuleAdd) as))"
    if "list_all (\<lambda>a. valid_utf8 (Op a)) as" "0 \<notin> set (map Priority (filter (\<lambda>a. Op a = OpRuleAdd) as))" for as
    using that by (induction as) (auto simp: read_action OpRuleAdd_def simp del: jq_path.simps)
  from this [OF assms(1)] assms(2) show ?thesis
    by (simp only: rule_priorities_def elems rule_prios_def not_False_eq_True)
qed

end
