(* ===== verification/SessionSteps.thy ===== *)
theory SessionSteps
  imports SessionFacts
begin

text \<open>
  Every step of bringing a session up keeps the session invariant: the device, the resolver
  file, the routes, and the rules, where the order of recording and adding matters.
\<close>

section \<open>The TUN device\<close>

lemma gentle_iface_close [keep_intros]:
  assumes "lawful_kernel E" "host_clean c w0"
  shows "keeps (harmless c w0 wa) (harmless c w0 wa) (iface_close E (TunName c))"
  unfolding iface_close_def
  by (rule gentle_net) (use assms net_over_tun_close [of E "net w0" c] in \<open>auto simp: host_clean_def\<close>)

lemma gentle_tun_open [keep_intros]:
  assumes "lawful_kernel E" "host_clean c w0"
  shows "keeps (harmless c w0 wa) (harmless c w0 wa) (net_call E (tun_open E (TunName c)))"
  by (rule gentle_net) (use assms net_over_tun_open [of E c "net w0"] in \<open>auto simp: host_clean_def\<close>)

lemma gentle_net_test [keep_intros]:
  "keeps (harmless c w0 wa) (harmless c w0 wa) (net_call E (\<lambda>n. if f n then Inr n else Inl e))"
  by (rule gentle_net) (auto split: if_splits)

lemma gentle_newTunDevice [keep_intros]:
  assumes "lawful_kernel E" "host_clean c w0"
  shows "keeps (harmless c w0 wa) (harmless c w0 wa) (newTunDevice E (TunName c) ip)"
  unfolding newTunDevice_def
  by (intro keep_intros) (auto intro!: keep_intros assms)

lemma wp_bind_any:
  "(\<And>a t. wp (f a) Q (\<lambda>_ _. True) (\<lambda>_. True) t) \<Longrightarrow> wp (bindA m f) Q (\<lambda>_ _. True) (\<lambda>_. True) s"
  unfolding wp_bind by (auto simp: wp_def [of m] split: prod.split outcome.split)

lemma newTunDevice_ifname:
  "wp (newTunDevice E n ip) (\<lambda>d _. ifname d = n) (\<lambda>_ _. True) (\<lambda>_. True) w"
  unfolding newTunDevice_def by (auto intro!: wp_bind_any simp: wp_throw wp_ret simp del: seqA.simps)

lemma skeeps_bind_wp:
  assumes "skeeps E c w0 m" "\<And>sw. wp m (\<lambda>a _. P a) (\<lambda>_ _. True) (\<lambda>_. True) sw"
    "\<And>a. P a \<Longrightarrow> skeeps E c w0 (f a)"
  shows "skeeps E c w0 (bindA m f)"
proof (rule keepsI)
  fix sw assume "sess_inv E c w0 sw"
  from wp_conj [OF keepsD [OF assms(1) this] assms(2)]
  show "wp (bindA m f) (\<lambda>_. sess_inv E c w0) (\<lambda>_. sess_inv E c w0) (died E c w0) sw"
    unfolding wp_bind by (rule wp_mono) (auto intro: keepsD [OF assms(3)])
qed

lemma skeeps_close_tun [keep_intros]:
  assumes "lawful_kernel E" "host_clean c w0"
  shows "skeeps E c w0 (close_tun E)"
  unfolding close_tun_def
proof (rule skeeps_with_session)
  fix s assume "\<forall>d. tun s = Some d \<longrightarrow> ifname d = TunName c"
  then show "skeeps E c w0 (case tun s of Some d \<Rightarrow> (if fd_open d then
      seqA [update (\<lambda>s. s\<lparr>tun := Some (d\<lparr>fd_open := False\<rparr>)\<rparr>),
        ignoreA (onW (iface_close E (ifname d)))] else ret ()) | None \<Rightarrow> ret ())"
    by (auto intro!: keep_intros assms split: option.split)
qed

section \<open>resolv.conf\<close>

lemma skeeps_writeResolvConf [keep_intros]:
  assumes "config_ok c"
  shows "skeeps E c w0 (writeResolvConf E)"
  unfolding writeResolvConf_def Let_def
proof (rule skeeps_with_session, rule keeps_bind)
  fix s :: session and fi assume c: "cfg s = c"
  show "skeeps E c w0 (onW (attempt (os_lstat E (ResolvPath (cfg s)))))"
    by (intro keep_intros)
  have tmp: "ResolvPath (cfg s) @ ''.ouf.tmp'' = resolv_tmp c" by (simp add: c resolv_tmp_def)
  show "skeeps E c w0 (seqA [
       (case fi of
          Inr (Symlink _) \<Rightarrow> mapE UnlinkSymlink (onW (os_remove E (ResolvPath (cfg s))))
        | Inr _ \<Rightarrow> ret ()
        | Inl e \<Rightarrow> if e \<noteq> ENOENT then throw (LstatResolv e) else ret ()),
       on_writer (AppendAction (ResolvWriteAction (ResolvPath (cfg s))
         (sha256 E (resolv_content (DNSServerIP (cfg s)))) False)),
       mapE ResolvSnap (persist_snap E),
       mapE WriteTmpResolv (onW (os_write_file E (ResolvPath (cfg s) @ ''.ouf.tmp'')
         (resolv_content (DNSServerIP (cfg s))) mode_0644)),
       onErr (ignoreA (onW (os_remove E (ResolvPath (cfg s) @ ''.ouf.tmp''))))
         (mapE RenameResolv (onW (os_rename E (ResolvPath (cfg s) @ ''.ouf.tmp'') (ResolvPath (cfg s))))),
       on_writer MarkLastDone,
       mapE ResolvSnap (persist_snap E)])"
    unfolding tmp unfolding c os_write_file_def
    by (rule keeps_seq) (auto intro!: keep_intros assms split: sum.split node.split)
qed

section \<open>Routes and rules\<close>

lemma skeeps_add_route [keep_intros]:
  assumes "config_ok c" "lawful_kernel E" "rt_table r = RoutingTableID c"
  shows "skeeps E c w0 (add_route E r spec)"
proof -
  have "keeps (harmless c w0 wa) (harmless c w0 wa) (net_call E (route_add E r))" for wa
    by (rule gentle_net) (rule net_over_route_add [OF assms(2,3)])
  then show ?thesis
    unfolding add_route_def by (intro keeps_seq) (auto intro!: keep_intros assms)
qed

text \<open>The rule is recorded on disk before it is added, so the snapshot covers it afterwards.\<close>

lemma skeeps_add_rule [keep_intros]:
  assumes c: "config_ok c" and law: "lawful_kernel E" and p: "our_priority c (ru_priority r)"
  shows "skeeps E c w0 (add_rule E r spec)"
proof (rule keepsI)
  fix sw assume i: "sess_inv E c w0 sw"
  obtain s w where sw: "sw = (s, w)" by fastforce
  obtain v where v: "wr s = Some v" "stateDir v = StateDir c" "covers E c w0 w (snap v)"
    using i by (auto simp: sess_inv_def sw)
  define v1 where "v1 = AppendAction (RuleAddAction (ru_priority r) (ru_table r) spec False) v"
  let ?s1 = "s\<lparr>wr := Some v1\<rparr>"
  have cov1: "covers E c w0 w (snap v1)" unfolding v1_def using v(3) p by (intro covers_AppendAction) simp_all
  then have i1: "sess_inv E c w0 (?s1, w)" using i v(2) by (auto simp: sess_inv_def sw v1_def)
  have prios: "mset (rule_prios (snap v1)) = add_mset (ru_priority r) (mset (rule_prios (snap v)))"
    by (simp add: v1_def rule_prios_AppendAction RuleAddAction_def zero_action_def)
  have rest: "skeeps E c w0 (seqA [markLastActionDone, mapE RouteSnap (persist_snap E)])"
    by (intro keeps_seq) (auto intro!: keep_intros c)
  have added: "wp (onW (net_call E (rule_add E r)))
      (\<lambda>_. wp (seqA [markLastActionDone, mapE RouteSnap (persist_snap E)])
         (\<lambda>_. sess_inv E c w0) (\<lambda>_. sess_inv E c w0) (died E c w0))
      (\<lambda>_. sess_inv E c w0) (died E c w0) t"
    if t: "fst t = ?s1 \<and> sess_inv E c w0 t \<and> on_disk c (snap v1) (snd t) \<and> net (snd t) = net w" for t
  proof -
    obtain w1 where w1: "t = (?s1, w1)" using t by (cases t) auto
    have still: "sess_inv E c w0 (?s1, tick w1)"
      using t w1 sess_inv_harmless [of E c w0 ?s1 w1 "tick w1"] by simp
    have fin: "sess_inv E c w0 (?s1, (tick w1)\<lparr>net := n'\<rparr>)" if n': "rule_add E r (net w1) = Inr n'" for n'
    proof -
      have "net_over c (net w0) (mset (rule_prios (snap v))) (net w1)"
        using v(3) t w1 by (simp add: covers_def)
      from net_over_rule_add [OF law n' this] prios
      have over: "net_over c (net w0) (mset (rule_prios (snap v1))) n'" by simp
      have "covers E c w0 w1 (snap v1)" using t w1 by (auto simp: sess_inv_def)
      then have cov: "covers E c w0 ((tick w1)\<lparr>net := n'\<rparr>) (snap v1)"
        by (rule covers_net) (use over in simp_all)
      have "recoverable E c w0 ((tick w1)\<lparr>net := n'\<rparr>)"
        using t w1 cov unfolding recoverable_def sess_inv_def host_ok_def on_disk_def by auto
      with t w1 cov show ?thesis by (auto simp: sess_inv_def)
    qed
    show ?thesis
      unfolding w1 wp_onW fst_conv snd_conv
      by (rule wp_net_call)
        (use still fin keepsD [OF rest] sess_inv_recoverable [OF still] in auto)
  qed
  show "wp (add_rule E r spec) (\<lambda>_. sess_inv E c w0) (\<lambda>_. sess_inv E c w0) (died E c w0) sw"
    unfolding add_rule_def wp_seq_Cons [of "on_writer f" for f] wp_seq_Cons [of "mapE RouteSnap m" "_ # _" for m]
      wp_seq_Cons [of "mapE (AddRule p) m" for p m]
      wp_on_writer wp_mapE sw fst_conv v(1) option.case v1_def [symmetric] snd_conv
    by (rule wp_mono [OF wp_persist_snap [OF c i1, of v1]]) (use added in auto)
qed

lemma skeeps_install_bypass [keep_intros]:
  assumes "config_ok c" "lawful_kernel E" "i < n" "n \<le> 7"
  shows "skeeps E c w0 (install_bypass E (RoutingRulePriority c) n (i, cidr, desc))"
proof -
  have "our_priority c (RoutingRulePriority c - int n + int i)"
    using assms(3,4) by (simp add: our_priority_def)
  then show ?thesis
    unfolding install_bypass_def using assms(1,2)
    by (auto simp: Let_def intro!: keep_intros split: option.split)
qed

lemma length_bypasses [simp]: "length (bypasses svr) = 7"
  by (simp add: bypasses_def)

lemma skeeps_bypasses:
  assumes "config_ok c" "lawful_kernel E" "m \<in> set (map (install_bypass E (RoutingRulePriority c) (length bs)) (enumerate 0 bs))"
    "length bs = 7"
  shows "skeeps E c w0 m"
  using assms by (auto simp: in_set_enumerate_eq intro!: skeeps_install_bypass)

lemma skeeps_installRouting [keep_intros]:
  assumes "config_ok c" "lawful_kernel E"
  shows "skeeps E c w0 (installRouting E)"
  unfolding installRouting_def
proof (rule skeeps_with_session)
  fix s assume s: "cfg s = c"
  note b = skeeps_bypasses [OF assms]
  have prio: "our_priority c (ru_priority (catchall c))" by (simp add: our_priority_def catchall_def)
  have tabs: "rt_table (gateway_route c x y) = RoutingTableID c" "rt_table (default_route c x y) = RoutingTableID c" for x y
    by (simp_all add: gateway_route_def default_route_def)
  have "skeeps E c w0 (seqA ([add_route E (gateway_route c i net) spec1, add_route E (default_route c i ip) spec2]
       @ map (install_bypass E (RoutingRulePriority c) (length bs)) (enumerate 0 bs)
       @ [add_rule E (catchall c) spec3]))"
    if "length bs = 7" for i net spec1 ip spec2 bs spec3
    by (rule keeps_seq) (use b [OF _ that] prio tabs assms in \<open>auto intro!: skeeps_add_route skeeps_add_rule\<close>)
  then show "skeeps E c w0 (let c = cfg s in
     case parse_ipnet E (TunGatewayCIDR c) of
       None \<Rightarrow> throw (ParseGateway (TunGatewayCIDR c))
     | Some (gwIP, gwNet) \<Rightarrow> (case tun s of
         Some d \<Rightarrow>
           (let bs = bypasses (case svrIP s of Some ip \<Rightarrow> ip | None \<Rightarrow> ''<nil>'') in seqA (
             [add_route E (gateway_route c (ifname d) gwNet)
                (gwNet @ '' dev '' @ TunName c @ '' scope link src '' @ TunIP c),
              add_route E (default_route c (ifname d) gwIP)
                (''default via '' @ gwIP @ '' dev '' @ TunName c)]
             @ map (install_bypass E (RoutingRulePriority c) (length bs)) (enumerate 0 bs)
             @ [add_rule E (catchall c) (''from all lookup '' @ dec_int (RoutingTableID c) @ '' (catchall)'')]))
       | None \<Rightarrow> nil_deref))"
    unfolding s Let_def
    by (cases "parse_ipnet E (TunGatewayCIDR c)"; cases "tun s")
      (simp_all add: keeps_throw skeeps_nil split: prod.split)
qed

end
