(* ===== verification/ScriptRuns.thy ===== *)
theory ScriptRuns
  imports ScriptReads SessionSteps
begin

text \<open>
  Running the revert script on a recoverable host. Whatever fails and wherever it dies, the
  host stays recoverable as long as the script has not reached its end; and when no command
  fails it does reach its end, with the host restored.
\<close>

section \<open>Hosts with a given snapshot on disk\<close>

definition live :: "env \<Rightarrow> config \<Rightarrow> world \<Rightarrow> snapshot \<Rightarrow> world \<Rightarrow> bool" where
  "live E c w0 sn w \<longleftrightarrow> host_ok c w0 w \<and> on_disk c sn w \<and> covers E c w0 w sn"

lemma live_recoverable: "live E c w0 sn w \<Longrightarrow> recoverable E c w0 w"
  by (auto simp: live_def recoverable_def)

lemma recoverable_live: "recoverable E c w0 w \<Longrightarrow> \<exists>sn. live E c w0 sn w"
  by (auto simp: live_def recoverable_def)

lemma live_harmless: "live E c w0 sn w \<Longrightarrow> harmless c w0 w w' \<Longrightarrow> live E c w0 sn w'"
  unfolding live_def on_disk_def using covers_harmless by (auto simp: harmless_def)

abbreviation lkeeps :: "env \<Rightarrow> config \<Rightarrow> world \<Rightarrow> snapshot \<Rightarrow> (world, 'e, 'a) act \<Rightarrow> bool" where
  "lkeeps E c w0 sn m \<equiv> keeps (live E c w0 sn) (live E c w0 sn) m"

lemma lkeeps_gentle:
  assumes "\<And>wa. keeps (harmless c w0 wa) (harmless c w0 wa) m"
  shows "lkeeps E c w0 sn m"
proof (rule keepsI)
  fix w assume r: "live E c w0 sn w"
  have "wp m (\<lambda>_. harmless c w0 w) (\<lambda>_. harmless c w0 w) (harmless c w0 w) w"
    by (rule keepsD [OF assms]) simp
  then show "wp m (\<lambda>_. live E c w0 sn) (\<lambda>_. live E c w0 sn) (live E c w0 sn) w"
    by (rule wp_mono) (use r live_harmless in blast)+
qed

section \<open>The stages are gentle\<close>

lemma gentle_run_or_fail [keep_intros]:
  "keeps I D m \<Longrightarrow> keeps I D (run_or_fail m failed)"
  unfolding run_or_fail_def by (intro keep_intros)

lemma gentle_soft_run [keep_intros]: "keeps I D m \<Longrightarrow> keeps I D (soft_run m)"
  unfolding soft_run_def by (intro keep_intros)

lemma gentle_guard [keep_intros]: "keeps I D (guard b e)"
  unfolding guard_def by (intro keep_intros)

lemma our_priority_range:
  "config_ok c \<Longrightarrow> our_priority c p \<Longrightarrow> 1000 \<le> p \<and> p < 2 ^ 63"
  by (auto simp: config_ok_def our_priority_def)

lemma sh_int_priority: "config_ok c \<Longrightarrow> our_priority c p \<Longrightarrow> sh_int (dec_int p) = Some p"
  using our_priority_range [of c p] by (intro sh_int_dec_int) auto

lemma clean_priority: "host_clean c w0 \<Longrightarrow> our_priority c p \<Longrightarrow>
    \<forall>r. r \<in># rules (net w0) \<longrightarrow> ru_priority r \<noteq> p"
  by (auto simp: host_clean_def)

lemma gentle_del_rule [keep_intros]:
  assumes "config_ok c" "lawful_kernel E" "host_clean c w0" "our_priority c p"
  shows "keeps (harmless c w0 wa) (harmless c w0 wa) (del_rule E (dec_int p))"
proof -
  have "net_over c (net w0) ps (ip_rule_del E p n)" if "net_over c (net w0) ps n" for ps n
    using net_over_rule_del [OF assms(2) that clean_priority [OF assms(3,4)]]
    by (rule net_over_mono) simp
  then show ?thesis
    unfolding del_rule_def sh_int_priority [OF assms(1,4)] option.case
    by (intro keep_intros gentle_net) auto
qed

lemma del_recorded_rule_ours:
  "config_ok c \<Longrightarrow> our_priority c p \<Longrightarrow> del_recorded_rule E (dec_int p) = del_rule E (dec_int p)"
  using our_priority_range [of c p] by (simp add: del_recorded_rule_def sh_int_priority)

lemma clean_routes: "host_clean c w0 \<Longrightarrow> \<forall>r \<in> routes (net w0). rt_dev r \<noteq> TunName c"
  by (simp add: host_clean_def)

lemma gentle_link_del:
  assumes "lawful_kernel E" "host_clean c w0"
  shows "keeps (harmless c w0 wa) (harmless c w0 wa) (net_call E (ip_link_del E (TunName c)))"
proof (rule gentle_net)
  fix n n' ps assume "net_over c (net w0) ps n" "ip_link_del E (TunName c) n = Inr n'"
  moreover from this(2) have "n' = tun_close E (TunName c) n" by (rule lawful_link_del(1) [OF assms(1)])
  ultimately show "net_over c (net w0) ps n'"
    using net_over_tun_close [OF assms(1) clean_routes [OF assms(2)]] by simp
qed

definition our_script_marks :: "config \<Rightarrow> marks" where
  "our_script_marks c = \<lparr>TUN_IFNAME = TunName c, TABLE_ID = RoutingTableID c,
     RULE_PRIORITY = dec_int (RoutingRulePriority c)\<rparr>"

lemma our_script_marks_sel [simp]:
  "TUN_IFNAME (our_script_marks c) = TunName c" "TABLE_ID (our_script_marks c) = RoutingTableID c"
  "RULE_PRIORITY (our_script_marks c) = dec_int (RoutingRulePriority c)"
  by (simp_all add: our_script_marks_def)

lemma catchall_priority: "our_priority c (RoutingRulePriority c)"
  by (simp add: our_priority_def)

lemma gentle_revert_net:
  assumes "config_ok c" "lawful_kernel E" "host_clean c w0"
    "rule_priorities E j = map dec_int ps" "list_all (our_priority c) ps"
  shows "keeps (harmless c w0 wa) (harmless c w0 wa) (revert_net E (our_script_marks c) j failed)"
proof -
  have "keeps (harmless c w0 wa) (harmless c w0 wa) (net_call E (\<lambda>n. Inr (ip_route_flush E (RoutingTableID c) n)))"
    by (rule gentle_net) (use net_over_flush [OF assms(2)] in auto)
  moreover have "keeps (harmless c w0 wa) (harmless c w0 wa) (del_recorded_rule E (dec_int p))"
    if "p \<in> set ps" for p
    using that assms gentle_del_rule [OF assms(1-3)] by (simp add: del_recorded_rule_ours list_all_iff)
  ultimately have "keeps (harmless c w0 wa) (harmless c w0 wa)
      (seqA (del_rule E (RULE_PRIORITY (our_script_marks c)) # map (del_recorded_rule E) (rule_priorities E j)
       @ [soft_run (net_call E (\<lambda>n. Inr (ip_route_flush E (TABLE_ID (our_script_marks c)) n)))]))"
    unfolding assms(4)
    by (intro keeps_seq) (auto intro!: keep_intros gentle_del_rule assms(1-3) catchall_priority)
  then show ?thesis
    unfolding revert_net_def
    by (intro keeps_bind) (auto intro!: keep_intros gentle_link_del [OF assms(2,3)] split: sum.split)
qed

lemma gentle_test_exists [keep_intros]:
  "keeps (harmless c w0 wa) (harmless c w0 wa) (test_exists E p)"
  unfolding test_exists_def
  by (intro keeps_bind keeps_attempt gentle_reads) (auto intro!: keep_intros split: sum.split)

lemma gentle_check_backup [keep_intros]:
  "keeps (harmless c w0 wa) (harmless c w0 wa) (check_backup E p sha failed)"
  unfolding check_backup_def by (auto intro!: keep_intros)

lemma gentle_cp_a [keep_intros]:
  assumes "config_ok c"
  shows "keeps (harmless c w0 wa) (harmless c w0 wa) (cp_a E src (ResolvPath c))"
proof -
  have "keeps (harmless c w0 wa) (harmless c w0 wa) (seqA [os_open_trunc E (ResolvPath c) m,
      os_write E (ResolvPath c) d, os_chmod E (ResolvPath c) m])" for m d
    by (rule keeps_seq) (use gentle_file_ops [OF assms, of "ResolvPath c"] in auto)
  then show ?thesis
    unfolding cp_a_def
    by (intro keeps_bind gentle_reads)
      (auto intro!: keeps_throw gentle_file_ops [OF assms] split: node.split)
qed

lemma gentle_restore_resolv:
  assumes "config_ok c"
  shows "keeps (harmless c w0 wa) (harmless c w0 wa) (restore_resolv E (ResolvPath c) j failed)"
proof -
  note ops = gentle_file_ops [OF assms, of "ResolvPath c"] gentle_cp_a [OF assms]
  show ?thesis
    unfolding restore_resolv_def Let_def
    by (intro keeps_if keeps_bind keeps_ret gentle_test_exists gentle_check_backup gentle_soft_run
        gentle_run_or_fail gentle_guard ops) auto
qed

lemma gentle_revert_sysctls:
  "keeps (harmless c w0 wa) (harmless c w0 wa)
     (revert_sysctls E [encode_sysctl \<lparr>SysctlKey = IPv6DisableSysctlKey, ValueBefore = v\<rparr>] failed)"
proof -
  have "jq_r E [''key''] (encode_sysctl \<lparr>SysctlKey = IPv6DisableSysctlKey, ValueBefore = v\<rparr>) = IPv6DisableSysctlKey"
    by (simp add: jq_r_def encode_sysctl_def ascii_jstr ascii_def IPv6DisableSysctlKey_def cmd_subst_id newline_iff)
  then show ?thesis by (auto intro!: keep_intros)
qed

end
