(* ===== verification/ScriptRestores.thy ===== *)
theory ScriptRestores
  imports ScriptRuns
begin

text \<open>
  What the stages of the revert script achieve when no command fails: the sysctl has its old
  value, the rules, routes and the link are gone, \<open>resolv.conf\<close> is back, and the snapshot is
  removed last. The process may still die at any call.
\<close>

section \<open>Calls that cannot fail\<close>

named_theorems sure_intros \<open>one rule per system call of the script, for runs without failing calls\<close>

lemma sure_os_stat [sure_intros]:
  "no_deny E \<Longrightarrow> fs w p = Some (File d m) \<Longrightarrow> D (tick w) \<Longrightarrow> Q (File d m) (tick w) \<Longrightarrow>
     wp (os_stat E p) Q X D w"
  unfolding os_stat_def by (rule wp_sys_sure) (simp_all add: numeral_eq_Suc)

lemma sure_os_lstat [sure_intros]:
  "no_deny E \<Longrightarrow> fs w p = Some nd \<Longrightarrow> D (tick w) \<Longrightarrow> Q nd (tick w) \<Longrightarrow> wp (os_lstat E p) Q X D w"
  unfolding os_lstat_def by (rule wp_sys_sure) simp_all

lemma sure_os_open [sure_intros]:
  "no_deny E \<Longrightarrow> fs w p = Some (File d m) \<Longrightarrow> D (tick w) \<Longrightarrow> Q () (tick w) \<Longrightarrow> wp (os_open E p) Q X D w"
  unfolding os_open_def by (rule wp_sys_sure) simp_all

lemma sure_os_read [sure_intros]:
  "no_deny E \<Longrightarrow> fs w p = Some (File d m) \<Longrightarrow> D (tick w) \<Longrightarrow> Q d (tick w) \<Longrightarrow> wp (os_read E p) Q X D w"
  unfolding os_read_def by (rule wp_sys_sure) simp_all

lemma sure_sysctl_write [sure_intros]:
  "no_deny E \<Longrightarrow> sysctls w k \<noteq> None \<Longrightarrow> D (tick w) \<Longrightarrow>
     Q () ((tick w)\<lparr>sysctls := (sysctls w)(k \<mapsto> v)\<rparr>) \<Longrightarrow> wp (sysctl_write E k v) Q X D w"
  unfolding sysctl_write_def by (rule wp_sys_sure) auto

lemma sure_net_call [sure_intros]:
  "no_deny E \<Longrightarrow> f (net w) = Inr n \<Longrightarrow> D (tick w) \<Longrightarrow> Q () ((tick w)\<lparr>net := n\<rparr>) \<Longrightarrow>
     wp (net_call E f) Q X D w"
  unfolding net_call_def by (rule wp_sys_sure) simp_all

lemma sure_rm_f [sure_intros]:
  "no_deny E \<Longrightarrow> \<forall>m. fs w p \<noteq> Some (Dir m) \<Longrightarrow> D (tick w) \<Longrightarrow>
     (\<And>w'. fs w' = (fs w)(p := None) \<Longrightarrow> net w' = net w \<Longrightarrow> sysctls w' = sysctls w \<Longrightarrow> Q () w') \<Longrightarrow>
     wp (rm_f E p) Q X D w"
  unfolding rm_f_def
  by (rule wp_sys_sure) (auto split: option.split node.split simp: fun_upd_idem)

lemma sure_os_symlink [sure_intros]:
  "no_deny E \<Longrightarrow> fs w p = None \<Longrightarrow> D (tick w) \<Longrightarrow> Q () (set_node p (Some (Symlink t)) (tick w)) \<Longrightarrow>
     wp (os_symlink E t p) Q X D w"
  unfolding os_symlink_def by (rule wp_sys_sure) simp_all

lemma sure_os_open_trunc [sure_intros]:
  "no_deny E \<Longrightarrow> fs w p = None \<Longrightarrow> D (tick w) \<Longrightarrow> Q () (set_node p (Some (File (Bytes []) m)) (tick w)) \<Longrightarrow>
     wp (os_open_trunc E p m) Q X D w"
  unfolding os_open_trunc_def by (rule wp_sys_sure) simp_all

lemma sure_os_write [sure_intros]:
  "no_deny E \<Longrightarrow> (\<And>n. D (put_data p (Partial d n) (tick w))) \<Longrightarrow> Q () (put_data p d (tick w)) \<Longrightarrow>
     wp (os_write E p d) Q X D w"
  unfolding os_write_def by (rule wp_sys_sure) simp_all

lemma sure_os_chmod [sure_intros]:
  "no_deny E \<Longrightarrow> fs w p = Some (File d m') \<Longrightarrow> D (tick w) \<Longrightarrow>
     Q () (set_node p (Some (File d m)) (tick w)) \<Longrightarrow> wp (os_chmod E p m) Q X D w"
  unfolding os_chmod_def by (rule wp_sys_sure) simp_all

lemma wp_run_or_fail: "wp (run_or_fail m failed) Q X D = wp m (\<lambda>_. Q failed) (\<lambda>_. Q True) D"
  by (rule ext) (auto simp: run_or_fail_def wp_def bindA_def attempt_def ret_def split: prod.split outcome.split)

lemma wp_soft_run: "wp (soft_run m) Q X D = wp m (\<lambda>_. Q ()) (\<lambda>_. Q ()) D"
  by (rule ext) (simp add: soft_run_def wp_ignore)

lemma wp_guard: "wp (guard b e) Q X D s = (if b then Q () s else X e s)"
  by (simp add: guard_def wp_ret wp_throw)

lemma wp_seq_append: "wp (seqA (xs @ ys)) Q X D s = wp (seqA xs) (\<lambda>_. wp (seqA ys) Q X D) X D s"
proof (induction xs arbitrary: s)
  case (Cons x xs)
  then have "wp (seqA (xs @ ys)) Q X D = wp (seqA xs) (\<lambda>_. wp (seqA ys) Q X D) X D" by (rule ext)
  then show ?case by (simp add: wp_bind)
qed (simp add: wp_ret)

section \<open>The sysctl\<close>

lemma plain_bit: "v \<in> {''0'', ''1''} \<Longrightarrow> plain v"
  by (auto simp: plain_def ascii_valid_utf8 ascii_def cmd_subst_id newline_iff)

lemma plain_key: "plain IPv6DisableSysctlKey"
  by (simp add: plain_def ascii_valid_utf8 ascii_def IPv6DisableSysctlKey_def cmd_subst_id newline_iff)

definition saved_sysctl :: "world \<Rightarrow> sysctl_state" where
  "saved_sysctl w0 = \<lparr>SysctlKey = IPv6DisableSysctlKey, ValueBefore = the (sysctls w0 IPv6DisableSysctlKey)\<rparr>"

lemma sure_revert_sysctls:
  assumes "no_deny E" "host_ok c w0 w" "host_clean c w0"
  shows "wp (revert_sysctls E [encode_sysctl (saved_sysctl w0)] False)
     (\<lambda>f w'. \<not> f \<and> sysctls w' = sysctls w0 \<and> net w' = net w \<and> fs w' = fs w) (\<lambda>_ _. False) (\<lambda>_. True) w"
proof -
  have v: "sysctls w0 IPv6DisableSysctlKey = Some (ValueBefore (saved_sysctl w0))" "plain (ValueBefore (saved_sysctl w0))"
    using assms(3) plain_bit by (auto simp: host_clean_def saved_sysctl_def)
  have k: "SysctlKey (saved_sysctl w0) = IPv6DisableSysctlKey" by (simp add: saved_sysctl_def)
  note r = read_sysctl_entry [of "saved_sysctl w0" E, unfolded k, OF plain_key v(2)]
  show ?thesis
    using assms(2) v(1) unfolding revert_sysctls.simps r wp_bind wp_run_or_fail wp_ret
    by (intro sure_sysctl_write [OF assms(1)]) (auto simp: host_ok_def fun_eq_iff)
qed

section \<open>The network\<close>

lemma sure_del_rule:
  assumes "no_deny E" "config_ok c" "lawful_kernel E" "host_clean c w0" "our_priority c p"
    "net_over c (net w0) ps (net w)"
  shows "wp (del_rule E (dec_int p))
     (\<lambda>_ w'. net_over c (net w0) (ps - {#p#}) (net w') \<and> fs w' = fs w \<and> sysctls w' = sysctls w)
     (\<lambda>_ _. False) (\<lambda>_. True) w"
  unfolding del_rule_def wp_soft_run sh_int_priority [OF assms(2,5)] option.case
  by (rule sure_net_call [OF assms(1) refl])
    (use net_over_rule_del [OF assms(3,6) clean_priority [OF assms(4,5)]] in auto)

lemma sure_del_rules:
  assumes "no_deny E" "config_ok c" "lawful_kernel E" "host_clean c w0"
  shows "list_all (our_priority c) ps \<Longrightarrow> net_over c (net w0) (mset ps) (net w) \<Longrightarrow>
   wp (seqA (map (del_recorded_rule E) (map dec_int ps)))
     (\<lambda>_ w'. net_over c (net w0) {#} (net w') \<and> fs w' = fs w \<and> sysctls w' = sysctls w)
     (\<lambda>_ _. False) (\<lambda>_. True) w"
proof (induction ps arbitrary: w)
  case (Cons p ps)
  then have p: "our_priority c p" by simp
  note del = sure_del_rule [OF assms p Cons.prems(2)]
  show ?case
    unfolding list.map wp_seq_Cons del_recorded_rule_ours [OF assms(2) p]
  proof (rule wp_mono [OF del])
    fix a and t :: world assume t: "net_over c (net w0) (mset (p # ps) - {#p#}) (net t) \<and> fs t = fs w \<and> sysctls t = sysctls w"
    then have "net_over c (net w0) (mset ps) (net t)" by simp
    with Cons.IH [of t] Cons.prems(1) t
    show "wp (seqA (map (del_recorded_rule E) (map dec_int ps)))
       (\<lambda>_ w'. net_over c (net w0) {#} (net w') \<and> fs w' = fs w \<and> sysctls w' = sysctls w) (\<lambda>_ _. False) (\<lambda>_. True) t"
      by simp
  qed simp_all
qed (simp add: wp_ret)

lemma flushed_net:
  assumes "lawful_kernel E" "host_clean c w0" "net_over c (net w0) {#} n"
  shows "links (ip_route_flush E (RoutingTableID c) n) - {TunName c} = links (net w0)
     \<and> rules (ip_route_flush E (RoutingTableID c) n) = rules (net w0)
     \<and> routes (ip_route_flush E (RoutingTableID c) n) = routes (net w0)"
  using assms by (auto simp: lawful_flush net_over_def)

lemma sure_link_stage:
  assumes "no_deny E" "lawful_kernel E" "host_clean c w0"
    and n: "links (net w) - {TunName c} = links (net w0)" "rules (net w) = rules (net w0)"
      "routes (net w) = routes (net w0)"
  shows "wp (bindA (attempt (link_show E (TunName c))) (\<lambda>r. case r of
       Inl _ \<Rightarrow> ret False
     | Inr _ \<Rightarrow> run_or_fail (net_call E (ip_link_del E (TunName c))) False))
     (\<lambda>f w'. \<not> f \<and> net w' = net w0 \<and> fs w' = fs w \<and> sysctls w' = sysctls w) (\<lambda>_ _. False) (\<lambda>_. True) w"
proof (cases "TunName c \<in> links (net w)")
  case True
  have "{r \<in> routes (net w0). rt_dev r \<noteq> TunName c} = routes (net w0)" using clean_routes [OF assms(3)] by blast
  then have "tun_close E (TunName c) (net w) = net w0"
    using n by (simp add: lawful_tun_close [OF assms(2)])
  then have del: "ip_link_del E (TunName c) (net w) = Inr (net w0)"
    using lawful_link_del(2) [OF assms(2) True] by simp
  show ?thesis
    unfolding wp_bind wp_attempt link_show_def
    by (rule wp_sys_sure [OF assms(1)])
      (use True del in \<open>auto simp: wp_run_or_fail intro!: sure_net_call [OF assms(1)]\<close>)
next
  case False
  then have "net w = net w0" using n by simp
  with False show ?thesis
    unfolding wp_bind wp_attempt link_show_def
    by (intro wp_sys_sure [OF assms(1)]) (auto simp: wp_ret)
qed

lemma sure_revert_net:
  assumes "no_deny E" "config_ok c" "lawful_kernel E" "host_clean c w0"
    "rule_priorities E j = map dec_int ps" "list_all (our_priority c) ps" "net_over c (net w0) (mset ps) (net w)"
  shows "wp (revert_net E (our_script_marks c) j False)
     (\<lambda>f w'. \<not> f \<and> net w' = net w0 \<and> fs w' = fs w \<and> sysctls w' = sysctls w) (\<lambda>_ _. False) (\<lambda>_. True) w"
proof -
  have flush: "wp (soft_run (net_call E (\<lambda>n. Inr (ip_route_flush E (RoutingTableID c) n))))
     (\<lambda>_ w'. links (net w') - {TunName c} = links (net w0) \<and> rules (net w') = rules (net w0)
        \<and> routes (net w') = routes (net w0) \<and> fs w' = fs w \<and> sysctls w' = sysctls w)
     (\<lambda>_ _. False) (\<lambda>_. True) t"
    if "net_over c (net w0) {#} (net t) \<and> fs t = fs w \<and> sysctls t = sysctls w" for t
    unfolding wp_soft_run
    by (rule sure_net_call [OF assms(1) refl]) (use flushed_net [OF assms(3,4)] that in auto)
  have rules: "wp (seqA (map (del_recorded_rule E) (map dec_int ps)))
     (\<lambda>_ w'. net_over c (net w0) {#} (net w') \<and> fs w' = fs w \<and> sysctls w' = sysctls w) (\<lambda>_ _. False) (\<lambda>_. True) t"
    if t: "net_over c (net w0) (mset ps - {#RoutingRulePriority c#}) (net t) \<and> fs t = fs w \<and> sysctls t = sysctls w" for t
  proof -
    have "net_over c (net w0) (mset ps) (net t)" using t net_over_mono by (metis diff_subset_eq_self)
    from sure_del_rules [OF assms(1-4,6) this] t show ?thesis by simp
  qed
  have link: "wp (bindA (attempt (link_show E (TunName c))) (\<lambda>r. case r of
       Inl _ \<Rightarrow> ret False
     | Inr _ \<Rightarrow> run_or_fail (net_call E (ip_link_del E (TunName c))) False))
     (\<lambda>f w'. \<not> f \<and> net w' = net w0 \<and> fs w' = fs w \<and> sysctls w' = sysctls w) (\<lambda>_ _. False) (\<lambda>_. True) t"
    if t: "links (net t) - {TunName c} = links (net w0) \<and> rules (net t) = rules (net w0)
        \<and> routes (net t) = routes (net w0) \<and> fs t = fs w \<and> sysctls t = sysctls w" for t
    using sure_link_stage [OF assms(1,3,4), of t] t by simp
  show ?thesis
    unfolding revert_net_def wp_bind [of "seqA ms" for ms] wp_seq_Cons wp_seq_append wp_seq_Nil
      our_script_marks_sel assms(5)
    by (rule wp_mono [OF sure_del_rule [OF assms(1-4) catchall_priority assms(7)]],
        rule wp_mono [OF rules], assumption, rule wp_mono [OF flush], assumption)
      (use link in auto)
qed

section \<open>resolv.conf\<close>

definition resolv_before :: "config \<Rightarrow> world \<Rightarrow> node option" where
  "resolv_before c w0 = (case fs w0 (ResolvPath c) of
     Some (File d m) \<Rightarrow> Some (File d (backup_mode c w0)) | nd \<Rightarrow> nd)"

lemma sure_hash:
  assumes "no_deny E" "fs w p = Some (File d m)" "sha256 E (file_bytes E d) = sha" "sha \<noteq> []"
  shows "wp (check_backup E p sha False)
     (\<lambda>f w'. \<not> f \<and> fs w' = fs w \<and> net w' = net w \<and> sysctls w' = sysctls w) (\<lambda>_ _. False) (\<lambda>_. True) w"
proof -
  have "wp (hashFile E p) (\<lambda>h w'. h = sha \<and> fs w' = fs w \<and> net w' = net w \<and> sysctls w' = sysctls w)
     (\<lambda>_ _. False) (\<lambda>_. True) w"
    unfolding hashFile_def wp_bind wp_ret
    by (rule sure_os_open [OF assms(1,2)], simp, rule sure_os_read [OF assms(1)])
      (use assms in auto)
  then show ?thesis
    unfolding check_backup_def wp_bind wp_attempt
    by (auto simp: assms(4) wp_bind wp_attempt wp_ret elim!: wp_mono)
qed

lemma sure_cp_a:
  assumes "no_deny E" "fs w src = Some (File d m)" "fs w dst = None" "src \<noteq> dst"
  shows "wp (cp_a E src dst)
     (\<lambda>_ w'. fs w' = (fs w)(dst \<mapsto> File d m) \<and> net w' = net w \<and> sysctls w' = sysctls w)
     (\<lambda>_ _. False) (\<lambda>_. True) w"
  unfolding cp_a_def wp_bind
  by (rule sure_os_lstat [OF assms(1,2)])
    (use assms in \<open>auto simp: wp_simps fs_put_same fun_eq_iff
      intro!: sure_os_open_trunc sure_os_write sure_os_chmod [where d = d and m' = m]\<close>)

lemma sure_restore_symlink:
  assumes nd: "no_deny E" and dir: "\<forall>m. fs w p \<noteq> Some (Dir m)"
    and rc: "ResolvConf (PreState sn) = \<lparr>Existed = True, BackupPath = [], WasSymlink = True,
       SymlinkTarget = t, SHA256Before = []\<rparr>" and t: "t \<noteq> []" "plain t"
  shows "wp (restore_resolv E p (encode_snapshot sn) False)
     (\<lambda>f w'. \<not> f \<and> fs w' = (fs w)(p := Some (Symlink t)) \<and> net w' = net w \<and> sysctls w' = sysctls w)
     (\<lambda>_ _. False) (\<lambda>_. True) w"
  using t unfolding restore_resolv_def Let_def append.simps
  by (auto simp: read_resolv rc wp_simps wp_soft_run wp_guard wp_run_or_fail fun_eq_iff
      intro!: sure_rm_f [OF nd dir] sure_os_symlink [OF nd])

lemma sure_restore_absent:
  assumes nd: "no_deny E" and dir: "\<forall>m. fs w p \<noteq> Some (Dir m)" and rc: "ResolvConf (PreState sn) = no_resolv_conf"
  shows "wp (restore_resolv E p (encode_snapshot sn) False)
     (\<lambda>f w'. \<not> f \<and> fs w' = (fs w)(p := None) \<and> net w' = net w \<and> sysctls w' = sysctls w)
     (\<lambda>_ _. False) (\<lambda>_. True) w"
  unfolding restore_resolv_def Let_def append.simps
  by (auto simp: read_resolv rc no_resolv_conf_def wp_simps wp_soft_run intro!: sure_rm_f [OF nd dir])

lemma sure_restore_file:
  assumes nd: "no_deny E" and dir: "\<forall>m. fs w p \<noteq> Some (Dir m)"
    and rc: "ResolvConf (PreState sn) = \<lparr>Existed = True, BackupPath = b, WasSymlink = False,
       SymlinkTarget = [], SHA256Before = sha\<rparr>"
    and b: "fs w b = Some (File d m)" "b \<noteq> p" "plain b"
    and sha: "sha256 E (file_bytes E d) = sha" "sha \<noteq> []" "plain sha"
  shows "wp (restore_resolv E p (encode_snapshot sn) False)
     (\<lambda>f w'. \<not> f \<and> fs w' = (fs w)(p := Some (File d m)) \<and> net w' = net w \<and> sysctls w' = sysctls w)
     (\<lambda>_ _. False) (\<lambda>_. True) w"
proof -
  let ?Q = "\<lambda>f w'. \<not> f \<and> fs w' = (fs w)(p := Some (File d m)) \<and> net w' = net w \<and> sysctls w' = sysctls w"
  have cp: "wp (cp_a E b p) (\<lambda>_. ?Q False) (\<lambda>_. ?Q True) (\<lambda>_. True) t"
    if "fs t = (fs w)(p := None)" "net t = net w" "sysctls t = sysctls w" for t
    by (rule wp_mono [OF sure_cp_a [OF nd, of t b d m p]]) (use that b in auto)
  have rm: "wp (rm_f E p) (\<lambda>_. wp (cp_a E b p) (\<lambda>_. ?Q False) (\<lambda>_. ?Q True) (\<lambda>_. True))
      (\<lambda>_. wp (cp_a E b p) (\<lambda>_. ?Q False) (\<lambda>_. ?Q True) (\<lambda>_. True)) (\<lambda>_. True) t"
    if "fs t = fs w" "net t = net w" "sysctls t = sysctls w" for t
    by (rule sure_rm_f [OF nd]) (use that dir cp in auto)
  have check: "wp (check_backup E b sha False)
      (\<lambda>f. wp (if \<not> f \<or> False then bindA (soft_run (rm_f E p)) (\<lambda>_. run_or_fail (cp_a E b p) f) else ret f)
        ?Q (\<lambda>(_ :: panic_error) _. False) (\<lambda>_. True)) (\<lambda>_ _. False) (\<lambda>_. True) t"
    if "fs t = fs w" "net t = net w" "sysctls t = sysctls w" for t
    by (rule wp_mono [OF sure_hash [OF nd, of t b d m sha]])
      (use that b sha rm in \<open>auto simp: wp_bind wp_soft_run wp_run_or_fail\<close>)
  have "plain (BackupPath (ResolvConf (PreState sn)))" "plain (SHA256Before (ResolvConf (PreState sn)))"
    using b(3) sha(3) by (simp_all add: rc)
  note reads = read_resolv(1) [where sn = sn] read_resolv(2) [where sn = sn] read_resolv(3) [OF this(1)] read_resolv(5) [OF this(2)]
  note reads = reads [unfolded rc resolv_conf_state.simps if_True if_False]
  have false_true: "(''false'' = ''true'') = False" by simp
  have there: "wp (test_exists E b) (\<lambda>r t. r \<and> fs t = fs w \<and> net t = net w \<and> sysctls t = sysctls w)
      (\<lambda>_ _. False) (\<lambda>_. True) w"
    unfolding test_exists_def wp_bind wp_attempt
    by (rule sure_os_stat [OF nd b(1)]) (simp_all add: wp_ret)
  show ?thesis
    unfolding restore_resolv_def Let_def append.simps reads false_true if_False
    by (simp add: wp_bind wp_ret) (rule wp_mono [OF there], use check in \<open>simp_all add: wp_bind wp_ret\<close>)
qed

lemma sure_restore_resolv:
  assumes nd: "no_deny E" and c: "config_ok c" and law: "lawful_kernel E" and h: "host_clean c w0"
    and ok: "host_ok c w0 w" and saved: "resolv_saved E c w0 w (ResolvConf (PreState sn))"
  shows "wp (restore_resolv E (ResolvPath c) (encode_snapshot sn) False)
     (\<lambda>f w'. \<not> f \<and> fs w' = (fs w)(ResolvPath c := resolv_before c w0)
        \<and> net w' = net w \<and> sysctls w' = sysctls w)
     (\<lambda>_ _. False) (\<lambda>_. True) w"
proof -
  have dir: "\<forall>m. fs w (ResolvPath c) \<noteq> Some (Dir m)" using ok by (simp add: host_ok_def)
  show ?thesis
  proof (cases "fs w0 (ResolvPath c)")
    case None
    then show ?thesis
      using saved sure_restore_absent [OF nd dir] by (simp add: resolv_saved_def resolv_before_def)
  next
    case (Some n)
    show ?thesis
    proof (cases n)
      case (Symlink t)
      then have "t \<noteq> []" "plain t" using h Some by (auto simp: host_clean_def)
      with Some Symlink show ?thesis
        using saved sure_restore_symlink [OF nd dir, of sn t] by (simp add: resolv_saved_def resolv_before_def)
    next
      case (File d m)
      have sha: "sha256 E (file_bytes E d) \<noteq> []" "plain (sha256 E (file_bytes E d))"
        using law by (simp_all add: lawful_kernel_def)
      have "plain (backup_path (StateDir c))" "backup_path (StateDir c) \<noteq> ResolvPath c"
        using c config_paths(5) [OF c, of "ResolvPath c"] by (simp_all add: config_ok_def)
      with Some File saved sha show ?thesis
        using sure_restore_file [OF nd dir, of sn "backup_path (StateDir c)" _ d]
        by (simp add: resolv_saved_def resolv_before_def)
    next
      case (Dir m)
      then show ?thesis using saved Some by (simp add: resolv_saved_def)
    qed
  qed
qed

end
