(* ===== verification/StartRecord.thy ===== *)
theory StartRecord
  imports SessionSteps
begin

text \<open>
  The recording half of \<open>Start\<close>: until the first snapshot is on disk only files of the
  session's own are written, and when it is there it describes the host as it was found.
\<close>

section \<open>Writing only own files\<close>

lemma untouched_clock [simp]: "untouched c w0 (w\<lparr>clock := n\<rparr>) = untouched c w0 w"
  by (simp add: untouched_def)

lemma own_paths:
  "StateDir c \<in> snap_files c" "filepath_join (StateDir c) BackupSubdir \<in> snap_files c"
  "backup_path (StateDir c) \<in> snap_files c"
  by (simp_all add: snap_files_def)

lemma own_paths_distinct [simp]:
  "StateDir c \<noteq> snap_path c" "filepath_join (StateDir c) BackupSubdir \<noteq> snap_path c"
  "StateDir c \<noteq> backup_path (StateDir c)" "filepath_join (StateDir c) BackupSubdir \<noteq> backup_path (StateDir c)"
  by (simp_all add: snap_path_def SnapshotFile_def filepath_join_def BackupSubdir_def backup_path_def)

lemmas own_paths_distinct' [simp] = own_paths_distinct [symmetric]

lemma untouched_set_node:
  assumes "p \<in> snap_files c" "p \<noteq> snap_path c" "untouched c w0 w"
  shows "untouched c w0 (set_node p nd w)"
proof -
  have "q \<noteq> p" if "q \<notin> snap_files c" for q using that assms(1) by blast
  with assms(2,3) show ?thesis by (auto simp: untouched_def)
qed

lemma untouched_put_data:
  "p \<in> snap_files c \<Longrightarrow> p \<noteq> snap_path c \<Longrightarrow> untouched c w0 w \<Longrightarrow> untouched c w0 (put_data p d w)"
  by (auto simp: put_data_def intro: untouched_set_node split: option.split node.split)

text \<open>Before the backup is taken, an older one is still in place.\<close>

definition fresh :: "config \<Rightarrow> world \<Rightarrow> world \<Rightarrow> bool" where
  "fresh c w0 w \<longleftrightarrow> untouched c w0 w
     \<and> fs w (backup_path (StateDir c)) = fs w0 (backup_path (StateDir c))"

lemma fresh_clock [simp]: "fresh c w0 (w\<lparr>clock := n\<rparr>) = fresh c w0 w"
  by (simp add: fresh_def)

lemma fresh_untouched: "fresh c w0 w \<Longrightarrow> untouched c w0 w"
  by (simp add: fresh_def)

lemma fresh_mkdir:
  "fresh c w0 w \<Longrightarrow> fresh c w0 (set_node (StateDir c) nd w)"
  "fresh c w0 w \<Longrightarrow> fresh c w0 (set_node (filepath_join (StateDir c) BackupSubdir) nd w)"
  using own_paths [of c] by (simp_all add: fresh_def untouched_set_node)

lemma wp_snapshot_New:
  assumes "fresh c w0 w"
  shows "wp (snapshot_New E (StateDir c) marks ver)
     (\<lambda>v w'. fresh c w0 w' \<and> stateDir v = StateDir c \<and> Vers (snap v) = 1 \<and> OurMarks (snap v) = marks
        \<and> Sysctls (PreState (snap v)) = [] \<and> Actions (snap v) = [])
     (\<lambda>_. fresh c w0) (fresh c w0) w"
  unfolding snapshot_New_def
  by (auto intro!: wp_intros fresh_mkdir assms simp: wp_simps SnapVersion_def)

lemma resolv_unchanged:
  "config_ok c \<Longrightarrow> untouched c w0 w \<Longrightarrow> fs w (ResolvPath c) = fs w0 (ResolvPath c)"
  by (auto simp: config_ok_def untouched_def)

lemma wp_copyFile:
  assumes c: "config_ok c" and f: "fresh c w0 w" and l: "\<forall>t. fs w (ResolvPath c) \<noteq> Some (Symlink t)"
  shows "wp (copyFile E (ResolvPath c) (backup_path (StateDir c)) mode_0600)
     (\<lambda>_ w'. untouched c w0 w' \<and> (\<exists>d m. fs w0 (ResolvPath c) = Some (File d m)
         \<and> fs w' (backup_path (StateDir c)) = Some (File d (backup_mode c w0))))
     (\<lambda>_. untouched c w0) (untouched c w0) w"
proof -
  let ?b = "backup_path (StateDir c)"
  have bp: "?b \<in> snap_files c" "?b \<noteq> snap_path c" by (simp_all add: own_paths)
  have ne: "ResolvPath c \<noteq> ?b" using c by (auto simp: config_ok_def snap_files_def)
  define J where "J w' \<longleftrightarrow> untouched c w0 w' \<and> fs w' (ResolvPath c) = fs w0 (ResolvPath c)" for w' :: world
  have J: "J (w'\<lparr>clock := n\<rparr>) = J w'" "J w' \<Longrightarrow> J (set_node ?b nd w')" "J w' \<Longrightarrow> J (put_data ?b d w')" for w' n nd d
    using ne by (auto simp: J_def untouched_set_node [OF bp] untouched_put_data [OF bp] put_data_def
        split: option.split node.split)
  have Jw: "J w" "fs w ?b = fs w0 ?b" "\<forall>t. fs w0 (ResolvPath c) \<noteq> Some (Symlink t)"
    using f c l by (auto simp: J_def fresh_def resolv_unchanged)
  have src: "\<exists>m. fs w0 (ResolvPath c) = Some (File d m)" if "J w'" "follow 41 (fs w') (ResolvPath c) = Inr (File d m)" for w' d m
    using that Jw(3) follow_plain [of "fs w'" "ResolvPath c"] by (auto simp: J_def)
  have fd: "wp (os_fd_call E ?b) (\<lambda>_. J) (\<lambda>_. J) J w'" if "J w'" for w'
    by (rule wp_os_fd_call) (use that in \<open>simp_all add: J(1)\<close>)
  have copied: "wp (bindA (os_read E (ResolvPath c)) (os_write E ?b))
      (\<lambda>_ w'. J w' \<and> (\<exists>d m. fs w0 (ResolvPath c) = Some (File d m) \<and> fs w' ?b = Some (File d mode)))
      (\<lambda>_. J) J w'" if "J w'" "fs w' ?b = Some (File x mode)" for w' x mode
    unfolding wp_bind
    by (rule wp_os_read, use that in \<open>simp_all add: J(1)\<close>, rule wp_os_write)
      (use that src [OF that(1)] in \<open>auto simp: J fs_put_same\<close>)
  have body: "wp (seqA [onErr (ignoreA (os_fd_call E ?b)) (bindA (os_read E (ResolvPath c)) (os_write E ?b)),
       onErr (ignoreA (os_fd_call E ?b)) (os_fd_call E ?b), os_fd_call E ?b])
      (\<lambda>_ w'. J w' \<and> (\<exists>d m. fs w0 (ResolvPath c) = Some (File d m) \<and> fs w' ?b = Some (File d (backup_mode c w0))))
      (\<lambda>_. J) J w'" if "J w'" "fs w' ?b = Some (File x (backup_mode c w0))" for w' x
    unfolding wp_seq_Cons wp_seq_Nil wp_onErr wp_ignore
    by (rule wp_mono [OF copied [OF that]]) (auto intro!: wp_os_fd_call fd simp: J)
  have "wp (copyFile E (ResolvPath c) ?b mode_0600)
      (\<lambda>_ w'. J w' \<and> (\<exists>d m. fs w0 (ResolvPath c) = Some (File d m) \<and> fs w' ?b = Some (File d (backup_mode c w0))))
      (\<lambda>_. J) J w"
    unfolding copyFile_def wp_seq_Cons [of "os_open E p" for p] wp_seq_Cons [of "os_open_trunc E p k" for p k]
    by (rule wp_os_open, simp_all only: J Jw(1) simp_thms, rule wp_os_open_trunc, simp_all only: J Jw(1) simp_thms;
        (rule body)?) (use Jw in \<open>simp_all add: J backup_mode_def\<close>)
  then show ?thesis by (rule wp_mono) (auto simp: J_def)
qed

lemma wp_hashFile:
  assumes "fs w p = Some (File d m)" "P (tick (tick w))" "\<And>n. P (w\<lparr>clock := n\<rparr>)"
  shows "wp (hashFile E p) (\<lambda>h w'. h = sha256 E (file_bytes E d) \<and> P w' \<and> fs w' = fs w)
     (\<lambda>_. P) P w"
  unfolding hashFile_def using assms by (auto intro!: wp_intros simp: wp_simps)

lemma set_resolv_sel [simp]:
  "stateDir (set_resolv r v) = stateDir v" "Vers (snap (set_resolv r v)) = Vers (snap v)"
  "OurMarks (snap (set_resolv r v)) = OurMarks (snap v)" "Actions (snap (set_resolv r v)) = Actions (snap v)"
  "Sysctls (PreState (snap (set_resolv r v))) = Sysctls (PreState (snap v))"
  "ResolvConf (PreState (snap (set_resolv r v))) = r"
  by (simp_all add: set_resolv_def on_pre_def)

lemma wp_RecordResolvConf:
  assumes c: "config_ok c" and f: "fresh c w0 w" and h: "host_clean c w0" and dir: "stateDir v = StateDir c"
  shows "wp (RecordResolvConf E (ResolvPath c) v)
     (\<lambda>v' w'. untouched c w0 w' \<and> (\<exists>r. v' = set_resolv r v \<and> resolv_saved E c w0 w' r))
     (\<lambda>_. untouched c w0) (untouched c w0) w"
proof -
  have u: "untouched c w0 w" "fs w (ResolvPath c) = fs w0 (ResolvPath c)"
    using f c by (auto simp: fresh_def resolv_unchanged)
  have nodir: "fs w0 (ResolvPath c) \<noteq> Some (Dir m)" for m using h by (simp add: host_clean_def)
  let ?rest = "bindA (mapE BackupFailed (copyFile E (ResolvPath c) (backup_path (stateDir v)) mode_0600)) (\<lambda>_.
         bindA (mapE HashFailed (hashFile E (backup_path (stateDir v)))) (\<lambda>sum.
         ret (set_resolv \<lparr>Existed = True, BackupPath = backup_path (stateDir v), WasSymlink = False,
           SymlinkTarget = [], SHA256Before = sum\<rparr> v)))"
  have regular: "wp ?rest (\<lambda>v' w'. untouched c w0 w' \<and> (\<exists>r. v' = set_resolv r v \<and> resolv_saved E c w0 w' r))
     (\<lambda>_. untouched c w0) (untouched c w0) (tick w)"
    if "\<forall>t. fs w (ResolvPath c) \<noteq> Some (Symlink t)"
  proof -
    have f': "fresh c w0 (tick w)" "\<forall>t. fs (tick w) (ResolvPath c) \<noteq> Some (Symlink t)" using f that by simp_all
    show ?thesis
      unfolding dir wp_bind wp_mapE
    proof (rule wp_mono [OF wp_copyFile [OF c f'(1,2)]])
      fix a w1
      assume a: "untouched c w0 w1 \<and> (\<exists>d m. fs w0 (ResolvPath c) = Some (File d m)
         \<and> fs w1 (backup_path (StateDir c)) = Some (File d (backup_mode c w0)))"
      then obtain d m where d: "fs w0 (ResolvPath c) = Some (File d m)"
        "fs w1 (backup_path (StateDir c)) = Some (File d (backup_mode c w0))" by blast
      show "wp (hashFile E (backup_path (StateDir c))) (\<lambda>sum. wp (ret (set_resolv
          \<lparr>Existed = True, BackupPath = backup_path (StateDir c), WasSymlink = False,
           SymlinkTarget = [], SHA256Before = sum\<rparr> v))
           (\<lambda>v' w'. untouched c w0 w' \<and> (\<exists>r. v' = set_resolv r v \<and> resolv_saved E c w0 w' r))
           (\<lambda>_. untouched c w0) (untouched c w0)) (\<lambda>_. untouched c w0) (untouched c w0) w1"
        by (rule wp_mono [OF wp_hashFile [OF d(2), of "untouched c w0"]])
          (use a d in \<open>auto simp: wp_ret resolv_saved_def\<close>)
    qed simp_all
  qed
  show ?thesis
    unfolding RecordResolvConf_def wp_bind wp_attempt
  proof (rule wp_os_lstat)
    fix nd assume nd: "fs w (ResolvPath c) = Some nd"
    show "wp (case Inr nd of
       Inl e \<Rightarrow> if e = ENOENT then ret (set_resolv no_resolv_conf v) else throw (LstatFailed e)
     | Inr (Symlink _) \<Rightarrow>
         bindA (mapE ReadlinkFailed (os_readlink E (ResolvPath c))) (\<lambda>tgt.
         ret (set_resolv \<lparr>Existed = True, BackupPath = [], WasSymlink = True, SymlinkTarget = tgt,
           SHA256Before = []\<rparr> v))
     | Inr _ \<Rightarrow> ?rest)
     (\<lambda>v' w'. untouched c w0 w' \<and> (\<exists>r. v' = set_resolv r v \<and> resolv_saved E c w0 w' r))
     (\<lambda>_. untouched c w0) (untouched c w0) (tick w)"
    proof (cases nd)
      case (Symlink t)
      then show ?thesis using u nd by (auto intro!: wp_intros simp: wp_simps resolv_saved_def)
    qed (use regular nd u nodir in auto)
  qed (use u in \<open>auto simp: wp_simps resolv_saved_def\<close>)
qed

lemma trim_bit: "trim_space [CHR ''0'', byte_of 10] = ''0''" "trim_space [CHR ''1'', byte_of 10] = ''1''"
  by (simp_all add: trim_space_def decode_rune_def is_space_def Let_def
      trim_right_space.simps decode_last_rune_def)

lemma wp_readIPv6:
  assumes "sysctls w IPv6DisableSysctlKey \<in> {Some ''0'', Some ''1''}" "\<And>n. P (w\<lparr>clock := n\<rparr>)"
  shows "wp (readIPv6Disabled E) (\<lambda>v w'. Some v = sysctls w IPv6DisableSysctlKey \<and> P w') (\<lambda>_. P) P w"
  unfolding readIPv6Disabled_def
  using assms by (auto intro!: wp_intros simp: wp_simps sysctl_key Let_def trim_bit simp del: One_nat_def)

section \<open>The recording half\<close>

definition new_session :: "config \<Rightarrow> session" where
  "new_session c = \<lparr>cfg = c, wr = None, tun = None, device = False, svrIP = None, pumps = 0,
     stopped = False, closed = False\<rparr>"

text \<open>A writer whose pre-state describes the host, with no action recorded yet.\<close>

definition recorded :: "env \<Rightarrow> config \<Rightarrow> world \<Rightarrow> world \<Rightarrow> snap_writer \<Rightarrow> bool" where
  "recorded E c w0 w v \<longleftrightarrow> stateDir v = StateDir c \<and> pre_saved E c w0 w (snap v) \<and> Actions (snap v) = []"

lemma net_over_start: "host_clean c w0 \<Longrightarrow> net_over c (net w0) {#} (net w0)"
  by (auto simp: net_over_def host_clean_def)

lemma recorded_covers:
  "host_clean c w0 \<Longrightarrow> untouched c w0 w \<Longrightarrow> recorded E c w0 w v \<Longrightarrow> covers E c w0 w (snap v)"
  by (simp add: recorded_def covers_def rule_prios_def net_over_start untouched_def)

lemma untouched_host_ok:
  assumes c: "config_ok c" and h: "host_clean c w0" and u: "untouched c w0 w"
  shows "host_ok c w0 w"
proof -
  have "ResolvPath c \<notin> snap_files c" "resolv_tmp c \<notin> snap_files c" using c by (simp_all add: config_ok_def)
  then have "fs w (ResolvPath c) = fs w0 (ResolvPath c)" "fs w (resolv_tmp c) = fs w0 (resolv_tmp c)"
    using u by (simp_all add: untouched_def)
  then show ?thesis
    using h u by (auto simp: host_ok_def host_clean_def untouched_def scratch_def)
qed

lemma wp_first_persist:
  assumes c: "config_ok c" and h: "host_clean c w0" and u: "untouched c w0 w"
    and r: "recorded E c w0 w v" and s: "cfg s = c" "wr s = Some v" "tun s = None"
  shows "wp (persist_snap E) (\<lambda>_ sw. fst sw = s \<and> sess_inv E c w0 sw)
     (\<lambda>_ sw. untouched c w0 (snd sw)) (\<lambda>sw. untouched c w0 (snd sw)) (s, w)"
proof -
  have dir: "StateDir c \<noteq> []" "stateDir v = StateDir c" using c r by (auto simp: config_ok_def recorded_def)
  note p = writer_paths [OF dir]
  have cov: "covers E c w0 w (snap v)" using recorded_covers [OF h u r] .
  have ok: "sess_inv E c w0 (s, w')"
    if f: "fs w' (snap_path c) = Some (File (Doc (encode_snapshot (snap v))) m)"
      "same_but (snap_own c) w w'" for w' m
  proof -
    note sb = same_but_snap [OF c f(2)]
    have "on_disk c (snap v) w'" using f(1) by (simp add: on_disk_def)
    with sb(1) [OF untouched_host_ok [OF c h u]] sb(4) [OF cov] s dir show ?thesis
      by (auto simp: sess_inv_def recoverable_def)
  qed
  have bad: "untouched c w0 w'" if f: "fs w' (snap_path c) = fs w (snap_path c)"
    "same_but {snap_path c @ ''.tmp''} w w'" for w'
  proof -
    have "fs w' q = fs w q" if "q \<notin> snap_files c" for q
      using that f(2) unfolding snap_files_def same_but_def by blast
    with u f show ?thesis by (simp add: untouched_def same_but_def)
  qed
  show ?thesis
    unfolding persist_snap_def wp_with_writer wp_onW fst_conv snd_conv s(2) option.case
    by (rule snap_file.wp_commitI) (use p ok bad in auto)
qed

lemma RecordSysctl_sel [simp]:
  "stateDir (RecordSysctl k x v) = stateDir v" "Vers (snap (RecordSysctl k x v)) = Vers (snap v)"
  "OurMarks (snap (RecordSysctl k x v)) = OurMarks (snap v)" "Actions (snap (RecordSysctl k x v)) = Actions (snap v)"
  "Sysctls (PreState (snap (RecordSysctl k x v))) = Sysctls (PreState (snap v)) @ [\<lparr>SysctlKey = k, ValueBefore = x\<rparr>]"
  "ResolvConf (PreState (snap (RecordSysctl k x v))) = ResolvConf (PreState (snap v))"
  by (simp_all add: RecordSysctl_def on_pre_def)

lemma resolv_saved_fs: "fs w' = fs w \<Longrightarrow> resolv_saved E c w0 w' r = resolv_saved E c w0 w r"
  by (simp add: resolv_saved_def split: option.split node.split)

lemma wp_record_rest:
  assumes c: "config_ok c" and h: "host_clean c w0" and u: "untouched c w0 w"
    and v: "stateDir v = StateDir c" "Vers (snap v) = 1" "OurMarks (snap v) = marks_of c"
      "Sysctls (PreState (snap v)) = []" "Actions (snap v) = []"
      "resolv_saved E c w0 w (ResolvConf (PreState (snap v)))"
    and s: "cfg s = c" "wr s = Some v" "tun s = None"
  shows "wp (record_rest E c) (\<lambda>_. sess_inv E c w0) (\<lambda>_ sw. untouched c w0 (snd sw))
     (\<lambda>sw. untouched c w0 (snd sw)) (s, w)"
proof -
  let ?x = "the (sysctls w0 IPv6DisableSysctlKey)"
  let ?v = "RecordSysctl IPv6DisableSysctlKey ?x v"
  let ?s = "s\<lparr>wr := Some ?v\<rparr>"
  have sys: "sysctls w IPv6DisableSysctlKey \<in> {Some ''0'', Some ''1''}"
    "sysctls w IPv6DisableSysctlKey = sysctls w0 IPv6DisableSysctlKey"
    using h u by (simp_all add: host_clean_def untouched_def)
  have persist: "wp (persist_snap E) (\<lambda>_. sess_inv E c w0) (\<lambda>_ sw. untouched c w0 (snd sw))
     (\<lambda>sw. untouched c w0 (snd sw)) (?s, w')"
    if w': "untouched c w0 w'" "fs w' = fs w" for w'
  proof -
    have "recorded E c w0 w' ?v"
      using v resolv_saved_fs [OF w'(2)] by (simp add: recorded_def pre_saved_def)
    from wp_first_persist [OF c h w'(1) this, of ?s] s show ?thesis
      by (auto elim: wp_mono)
  qed
  have step1: "wp (bindA (mapE ReadIPv6 (onW (readIPv6Disabled E)))
       (\<lambda>cur. on_writer (RecordSysctl IPv6DisableSysctlKey cur)))
     (\<lambda>_ sw. fst sw = ?s \<and> untouched c w0 (snd sw) \<and> fs (snd sw) = fs w)
     (\<lambda>_ sw. untouched c w0 (snd sw)) (\<lambda>sw. untouched c w0 (snd sw)) (s, w)"
    unfolding wp_bind wp_mapE wp_onW fst_conv snd_conv wp_on_writer s(2) option.case
    by (rule wp_mono [OF wp_readIPv6 [OF sys(1), of "\<lambda>w'. untouched c w0 w' \<and> fs w' = fs w"]])
      (use u sys(2) in \<open>auto dest: sym\<close>)
  have step2: "wp (bindA (onW (attempt (link_show E (TunName c)))) (\<lambda>r.
       if \<not> isl r then seqA [on_writer (SetTunExisted True), throw (TunTaken (TunName c))] else ret ()))
     (\<lambda>_ sw. fst sw = ?s \<and> untouched c w0 (snd sw) \<and> fs (snd sw) = fs w)
     (\<lambda>_ sw. untouched c w0 (snd sw)) (\<lambda>sw. untouched c w0 (snd sw)) (?s, w')"
    if "untouched c w0 w'" "fs w' = fs w" for w'
    unfolding wp_bind wp_onW wp_attempt fst_conv snd_conv link_show_def
    by (rule wp_sysI) (use that in \<open>auto simp: wp_simps\<close>)
  have after2: "wp (persist_snap E) (\<lambda>_. sess_inv E c w0) (\<lambda>_ sw. untouched c w0 (snd sw))
     (\<lambda>sw. untouched c w0 (snd sw)) t"
    if "fst t = ?s \<and> untouched c w0 (snd t) \<and> fs (snd t) = fs w" for t
    using persist [of "snd t"] that by (cases t) simp
  have after1: "wp (bindA (onW (attempt (link_show E (TunName c)))) (\<lambda>r.
       if \<not> isl r then seqA [on_writer (SetTunExisted True), throw (TunTaken (TunName c))] else ret ()))
     (\<lambda>_. wp (persist_snap E) (\<lambda>_. sess_inv E c w0) (\<lambda>_ sw. untouched c w0 (snd sw)) (\<lambda>sw. untouched c w0 (snd sw)))
     (\<lambda>_ sw. untouched c w0 (snd sw)) (\<lambda>sw. untouched c w0 (snd sw)) t"
    if t0: "fst t = ?s \<and> untouched c w0 (snd t) \<and> fs (snd t) = fs w" for t
  proof -
    obtain w' where t: "t = (?s, w')" "untouched c w0 w'" "fs w' = fs w" using t0 by (cases t) auto
    show ?thesis unfolding t(1) by (rule wp_mono [OF step2 [OF t(2,3)] after2])
  qed
  show ?thesis
    unfolding record_rest_def wp_seq_Cons wp_seq_Nil wp_mapE
    by (rule wp_mono [OF step1]) (use after1 in auto)
qed

lemma wp_start_record:
  assumes c: "config_ok c" and h: "host_clean c w0"
  shows "wp (start_record E) (\<lambda>_. sess_inv E c w0) (\<lambda>_ sw. untouched c w0 (snd sw))
     (\<lambda>sw. untouched c w0 (snd sw)) (new_session c, w0)"
proof -
  have f0: "fresh c w0 (tick w0)" using h by (simp add: fresh_def untouched_def host_clean_def)
  have sel: "cfg (new_session c) = c" "tun (new_session c) = None" by (simp_all add: new_session_def)
  have snap: "StateDir c @ ''/'' @ SnapshotFile = snap_path c" by (simp add: snap_path_def)
  have none: "fs w0 (snap_path c) = None" using h by (simp add: host_clean_def)
  have marks: "\<lparr>TunIfname = TunName c, TableID = RoutingTableID c,
     RulePriority = RoutingRulePriority c, Fwmark = None\<rparr> = marks_of c" by (simp add: marks_of_def)
  have rest: "wp (record_rest E c) (\<lambda>_. sess_inv E c w0) (\<lambda>_ sw. untouched c w0 (snd sw))
         (\<lambda>sw. untouched c w0 (snd sw)) ((new_session c)\<lparr>wr := Some v'\<rparr>, w)"
    if "untouched c w0 w \<and> (\<exists>r. v' = set_resolv r v \<and> resolv_saved E c w0 w r)"
      "stateDir v = StateDir c" "Vers (snap v) = 1" "OurMarks (snap v) = marks_of c"
      "Sysctls (PreState (snap v)) = []" "Actions (snap v) = []" for v v' w
    by (rule wp_record_rest [OF c h, of w v']) (use that sel in auto)
  have stored: "wp (RecordResolvConf E (ResolvPath c) v)
      (\<lambda>v' w. wp (record_rest E c) (\<lambda>_. sess_inv E c w0) (\<lambda>_ sw. untouched c w0 (snd sw))
         (\<lambda>sw. untouched c w0 (snd sw)) ((new_session c)\<lparr>wr := Some v'\<rparr>, w))
      (\<lambda>_. untouched c w0) (untouched c w0) w1"
    if v: "fresh c w0 w1 \<and> stateDir v = StateDir c \<and> Vers (snap v) = 1 \<and> OurMarks (snap v) = marks_of c
        \<and> Sysctls (PreState (snap v)) = [] \<and> Actions (snap v) = []" for v w1
    by (rule wp_mono [OF wp_RecordResolvConf [OF c _ h]]) (use v rest in auto)
  show ?thesis
    unfolding start_record_def Let_def wp_with_session wp_bind wp_onW wp_attempt wp_mapE wp_update
      fst_conv snd_conv sel(1) snap marks
    by (rule wp_os_stat)
      (use none f0 stored in \<open>auto simp: wp_simps fresh_untouched intro!: wp_mono [OF wp_snapshot_New]\<close>)
qed

end
