(* ===== verification/Revert.thy ===== *)
theory Revert
  imports ScriptRestores StartRecord
begin

text \<open>
  The revert script as a whole, and the session's use of it: starting, failing to start and
  closing. The results here are the ones the properties of the session rest on.
\<close>

section \<open>The whole script\<close>

definition all_tools :: "env \<Rightarrow> bool" where
  "all_tools E \<longleftrightarrow> list_all (have_tool E) [''jq'', ''ip'', ''sysctl'', ''sha256sum'']"

lemma reserved_table_iff:
  assumes "0 < t" "t < 2 ^ 63" "t \<notin> {253, 254, 255}"
  shows "dec_int t \<notin> {''253'', ''254'', ''255''}"
proof -
  have "- (2 ^ 63) \<le> t" using assms(1) by simp
  note inj = dec_int_inj [OF this assms(2) _ sh_int_reserved(1)]
    dec_int_inj [OF this assms(2) _ sh_int_reserved(2)] dec_int_inj [OF this assms(2) _ sh_int_reserved(3)]
  show ?thesis using assms(3) inj by blast
qed

lemma read_marks_ok:
  assumes c: "config_ok c" and sn: "OurMarks sn = marks_of c" "Vers sn = 1"
  shows "read_marks E (encode_snapshot sn) = ret (our_script_marks c)"
proof -
  have tun: "plain (TunName c)" "TunName c \<noteq> []" "\<not> reserved_ifname (TunName c)"
    using c by (auto simp: config_ok_def reserved_ifname_def)
  have tab: "sh_int (dec_int (RoutingTableID c)) = Some (RoutingTableID c)"
    "dec_int (RoutingTableID c) \<notin> {''253'', ''254'', ''255''}" "0 < RoutingTableID c"
    using c reserved_table_iff [of "RoutingTableID c"] by (auto simp: config_ok_def intro: sh_int_dec_int)
  have prio: "sh_int (dec_int (RoutingRulePriority c)) = Some (RoutingRulePriority c)" "\<not> RoutingRulePriority c < 1000"
    using c by (auto simp: config_ok_def intro: sh_int_dec_int)
  note reads = read_version [OF sn(2)] read_our_marks [OF sn(1) tun(1,2)]
  show ?thesis
    unfolding read_marks_def Let_def reads tab(1) prio(1) option.case option.sel
    using tun tab prio
    by (simp add: guard_def bindA_def ret_def our_script_marks_def fun_eq_iff)
qed

lemma encode_snapshot_document: "jq_document (Doc (encode_snapshot sn)) = Some (encode_snapshot sn)"
  by (simp add: encode_snapshot_def)

lemma live_pre:
  assumes "live E c w0 sn w"
  shows "host_ok c w0 w" "OurMarks sn = marks_of c" "Vers sn = 1"
    "Sysctls (PreState sn) = [saved_sysctl w0]" "resolv_saved E c w0 w (ResolvConf (PreState sn))"
    "net_over c (net w0) (mset (rule_prios sn)) (net w)" "list_all (our_priority c) (rule_prios sn)"
    "list_all (\<lambda>a. valid_utf8 (Op a)) (Actions sn)" "on_disk c sn w"
  using assms by (auto simp: live_def covers_def pre_saved_def saved_sysctl_def)

lemma live_priorities:
  assumes "config_ok c" "live E c w0 sn w"
  shows "rule_priorities E (encode_snapshot sn) = map dec_int (rule_prios sn)"
proof (rule read_rule_priorities [OF live_pre(8) [OF assms(2)]])
  show "0 \<notin> set (rule_prios sn)"
    using live_pre(7) [OF assms(2)] our_priority_range [OF assms(1), of 0] by (auto simp: list_all_iff)
qed

lemma lkeeps_stages:
  assumes c: "config_ok c" and law: "lawful_kernel E" and h: "host_clean c w0" and l: "live E c w0 sn w"
  shows "lkeeps E c w0 sn (revert_sysctls E (jq_elems [''pre_state'', ''sysctls''] (encode_snapshot sn)) f)"
    "lkeeps E c w0 sn (revert_net E (our_script_marks c) (encode_snapshot sn) f)"
    "lkeeps E c w0 sn (restore_resolv E (ResolvPath c) (encode_snapshot sn) f)"
proof -
  have "jq_elems [''pre_state'', ''sysctls''] (encode_snapshot sn) = [encode_sysctl (saved_sysctl w0)]"
    by (simp only: read_sysctls live_pre(4) [OF l] list.map)
  then show "lkeeps E c w0 sn (revert_sysctls E (jq_elems [''pre_state'', ''sysctls''] (encode_snapshot sn)) f)"
    using lkeeps_gentle [OF gentle_revert_sysctls] by (simp add: saved_sysctl_def)
  show "lkeeps E c w0 sn (revert_net E (our_script_marks c) (encode_snapshot sn) f)"
    by (rule lkeeps_gentle) (rule gentle_revert_net [OF c law h live_priorities [OF c l] live_pre(7) [OF l]])
  show "lkeeps E c w0 sn (restore_resolv E (ResolvPath c) (encode_snapshot sn) f)"
    by (rule lkeeps_gentle) (rule gentle_restore_resolv [OF c])
qed

text \<open>Whatever fails: as long as the snapshot is there, the host is recoverable from it.\<close>

definition safe :: "env \<Rightarrow> config \<Rightarrow> world \<Rightarrow> world \<Rightarrow> bool" where
  "safe E c w0 w \<longleftrightarrow> fs w (snap_path c) = None \<or> recoverable E c w0 w"

lemma wp_retire_any:
  "live E c w0 sn w \<Longrightarrow> wp (retire E (snap_path c) f) (\<lambda>_. safe E c w0) (\<lambda>_. live E c w0 sn) (live E c w0 sn) w"
proof (cases f)
  case False
  assume l: "live E c w0 sn w"
  have t: "live E c w0 sn (tick w)" using live_harmless [OF l, of "tick w"] by simp
  obtain d m where regular: "fs w (snap_path c) = Some (File d m)"
    using l by (auto simp: live_def on_disk_def)
  show ?thesis
    using False regular unfolding retire_def wp_ignore rm_f_def
    by (auto simp: wp_ignore safe_def intro!: wp_sysI t live_recoverable [OF t])
qed (simp add: retire_def wp_throw)

lemma wp_revert_from_any:
  assumes c: "config_ok c" and law: "lawful_kernel E" and h: "host_clean c w0" and l: "live E c w0 sn w"
  shows "wp (revert_from E (snap_path c) (ResolvPath c) (encode_snapshot sn)) (\<lambda>_. safe E c w0)
     (\<lambda>_. live E c w0 sn) (live E c w0 sn) w"
proof -
  note st = lkeeps_stages [OF c law h l]
  have s3: "wp (restore_resolv E (ResolvPath c) (encode_snapshot sn) f)
      (\<lambda>f3. wp (retire E (snap_path c) f3) (\<lambda>_. safe E c w0) (\<lambda>_. live E c w0 sn) (live E c w0 sn))
      (\<lambda>_. live E c w0 sn) (live E c w0 sn) t" if "live E c w0 sn t" for f t
    by (rule wp_mono [OF keepsD [OF st(3) that]]) (use wp_retire_any in auto)
  have s2: "wp (revert_net E (our_script_marks c) (encode_snapshot sn) f)
      (\<lambda>f2. wp (restore_resolv E (ResolvPath c) (encode_snapshot sn) f2)
        (\<lambda>f3. wp (retire E (snap_path c) f3) (\<lambda>_. safe E c w0) (\<lambda>_. live E c w0 sn) (live E c w0 sn))
        (\<lambda>_. live E c w0 sn) (live E c w0 sn)) (\<lambda>_. live E c w0 sn) (live E c w0 sn) t"
    if "live E c w0 sn t" for f t
    by (rule wp_mono [OF keepsD [OF st(2) that]]) (use s3 in auto)
  show ?thesis
    unfolding revert_from_def wp_bind read_marks_ok [OF c live_pre(2,3) [OF l]] wp_ret
    by (rule wp_mono [OF keepsD [OF st(1) l]]) (use s2 in auto)
qed

lemma wp_ouf_panic_any:
  assumes c: "config_ok c" and law: "lawful_kernel E" and h: "host_clean c w0" and r: "recoverable E c w0 w"
  shows "wp (ouf_panic E (StateDir c) (ResolvPath c)) (\<lambda>_. safe E c w0)
     (\<lambda>_. recoverable E c w0) (recoverable E c w0) w"
proof -
  obtain sn where l: "live E c w0 sn w" using recoverable_live [OF r] by blast
  have snap: "filepath_join (StateDir c) ''snapshot.json'' = snap_path c"
    using c snap_path_join [of c] by (simp add: config_ok_def SnapshotFile_def)
  obtain m where m: "fs w (snap_path c) = Some (File (Doc (encode_snapshot sn)) m)"
    using live_pre(9) [OF l] by (auto simp: on_disk_def)
  have ticked: "live E c w0 sn (w\<lparr>clock := n\<rparr>)" for n using live_harmless [OF l, of "w\<lparr>clock := n\<rparr>"] by simp
  have rec: "recoverable E c w0 (w\<lparr>clock := n\<rparr>)" for n using live_recoverable [OF ticked] .
  have rev: "wp (revert_from E (snap_path c) (ResolvPath c) (encode_snapshot sn)) (\<lambda>_. safe E c w0)
      (\<lambda>_. recoverable E c w0) (recoverable E c w0) (w\<lparr>clock := n\<rparr>)" for n
    by (rule wp_mono [OF wp_revert_from_any [OF c law h ticked]]) (use live_recoverable in auto)
  have tools: "wp (seqA (map (require_tool E) ts)) Q (\<lambda>_. recoverable E c w0) D (w\<lparr>clock := n\<rparr>)"
    if "Q () (w\<lparr>clock := n\<rparr>)" for ts Q D n
    using that rec by (induction ts) (simp_all add: wp_simps require_tool_def)
  have read: "wp (os_read E (snap_path c)) Q X D (w\<lparr>clock := n\<rparr>)"
    if "\<And>e. X e (w\<lparr>clock := Suc n\<rparr>)" "D (w\<lparr>clock := Suc n\<rparr>)"
      "Q (Doc (encode_snapshot sn)) (w\<lparr>clock := Suc n\<rparr>)" for Q X D n
    by (rule wp_os_read) (use that m in auto)
  have body: "wp (bindA (seqA (map (require_tool E) [''jq'', ''ip'', ''sysctl'', ''sha256sum''])) (\<lambda>_.
         bindA (attempt (os_read E (snap_path c))) (\<lambda>r. case r of
           Inl _ \<Rightarrow> throw NotJson
         | Inr d \<Rightarrow> (case jq_document d of None \<Rightarrow> throw NotJson
             | Some j \<Rightarrow> revert_from E (snap_path c) (ResolvPath c) j))))
     (\<lambda>_. safe E c w0) (\<lambda>_. recoverable E c w0) (recoverable E c w0) (w\<lparr>clock := n\<rparr>)" for n
    unfolding wp_bind wp_attempt
    by (rule tools, rule read) (simp_all add: wp_throw rec rev encode_snapshot_document)
  show ?thesis
    unfolding ouf_panic_def Let_def snap wp_bind [of "attempt m" for m] wp_attempt os_stat_def
    by (rule wp_sysI) (use rec body m in \<open>auto simp: wp_ret safe_def numeral_eq_Suc split: node.split\<close>)
qed

text \<open>When no command fails, the script ends with the host restored.\<close>

lemma wp_conj_live:
  assumes "wp m Q X (\<lambda>_. True) w" "lkeeps E c w0 sn m" "live E c w0 sn w"
  shows "wp m (\<lambda>a t. Q a t \<and> live E c w0 sn t) (\<lambda>e t. X e t \<and> live E c w0 sn t) (live E c w0 sn) w"
  by (rule wp_mono [OF wp_conj [OF assms(1) keepsD [OF assms(2,3)]]]) simp_all

lemma sure_retire:
  assumes nd: "no_deny E" and l: "live E c w0 sn w" and c: "config_ok c"
    and fin: "sysctls w = sysctls w0" "net w = net w0" "fs w (ResolvPath c) = resolv_before c w0"
  shows "wp (retire E (snap_path c) False) (\<lambda>_. restored c w0) (\<lambda>_ _. False) (live E c w0 sn) w"
proof -
  have ne: "ResolvPath c \<noteq> snap_path c" "snap_path c \<in> scratch c"
    using config_paths(1) [OF c, of "ResolvPath c"] by (simp_all add: scratch_def snap_files_def)
  have ok: "\<forall>q. q \<notin> insert (ResolvPath c) (scratch c) \<longrightarrow> fs w q = fs w0 q" "\<forall>m. fs w (snap_path c) \<noteq> Some (Dir m)"
    "\<forall>m. fs w (resolv_tmp c) \<noteq> Some (Dir m)"
    using live_pre(1,9) [OF l] by (auto simp: host_ok_def on_disk_def)
  have "restored c w0 w'" if w': "fs w' = (fs w)(snap_path c := None)" "net w' = net w" "sysctls w' = sysctls w" for w'
  proof -
    have "fs w' q = fs w0 q" if q: "q \<notin> insert (ResolvPath c) (scratch c)" for q
    proof -
      have "q \<noteq> snap_path c" using q ne(2) by blast
      with ok(1) q w' show ?thesis by simp
    qed
    then show ?thesis using w' ne fin ok(3) by (auto simp: restored_def resolv_before_def)
  qed
  moreover have "live E c w0 sn (tick w)" using live_harmless [OF l, of "tick w"] by simp
  ultimately show ?thesis
    unfolding retire_def if_False wp_ignore by (intro sure_rm_f [OF nd ok(2)]) auto
qed

lemma wp_revert_from_sure:
  assumes nd: "no_deny E" and c: "config_ok c" and law: "lawful_kernel E" and h: "host_clean c w0"
    and l: "live E c w0 sn w"
  shows "wp (revert_from E (snap_path c) (ResolvPath c) (encode_snapshot sn)) (\<lambda>_. restored c w0)
     (\<lambda>_ _. False) (live E c w0 sn) w"
proof -
  note st = lkeeps_stages [OF c law h l]
  let ?ret = "\<lambda>f3. wp (retire E (snap_path c) f3) (\<lambda>_. restored c w0) (\<lambda>_ _. False) (live E c w0 sn)"
  have s3: "wp (restore_resolv E (ResolvPath c) (encode_snapshot sn) False) ?ret (\<lambda>_ _. False) (live E c w0 sn) t"
    if t: "live E c w0 sn t" "sysctls t = sysctls w0" "net t = net w0" for t
    by (rule wp_mono [OF wp_conj_live [OF sure_restore_resolv [OF nd c law h live_pre(1,5) [OF t(1)]] st(3) t(1)]])
      (use t in \<open>auto intro!: sure_retire [OF nd _ c]\<close>)
  have s2: "wp (revert_net E (our_script_marks c) (encode_snapshot sn) False)
      (\<lambda>f2. wp (restore_resolv E (ResolvPath c) (encode_snapshot sn) f2) ?ret (\<lambda>_ _. False) (live E c w0 sn))
      (\<lambda>_ _. False) (live E c w0 sn) t"
    if t: "live E c w0 sn t" "sysctls t = sysctls w0" for t
    by (rule wp_mono [OF wp_conj_live [OF sure_revert_net [OF nd c law h live_priorities [OF c l]
        live_pre(7) [OF l] live_pre(6) [OF t(1)]] st(2) t(1)]])
      (use s3 t in auto)
  have sys: "jq_elems [''pre_state'', ''sysctls''] (encode_snapshot sn) = [encode_sysctl (saved_sysctl w0)]"
    by (simp only: read_sysctls live_pre(4) [OF l] list.map)
  show ?thesis
    unfolding revert_from_def wp_bind read_marks_ok [OF c live_pre(2,3) [OF l]] wp_ret sys
    by (rule wp_mono [OF wp_conj_live [OF sure_revert_sysctls [OF nd live_pre(1) [OF l] h] st(1) [unfolded sys] l]])
      (use s2 in auto)
qed

lemma wp_ouf_panic_sure:
  assumes nd: "no_deny E" and tools: "all_tools E" and c: "config_ok c" and law: "lawful_kernel E"
    and h: "host_clean c w0" and r: "recoverable E c w0 w"
  shows "wp (ouf_panic E (StateDir c) (ResolvPath c)) (\<lambda>_. restored c w0) (\<lambda>_ _. False) (recoverable E c w0) w"
proof -
  obtain sn where l: "live E c w0 sn w" using recoverable_live [OF r] by blast
  have snap: "filepath_join (StateDir c) ''snapshot.json'' = snap_path c"
    using c snap_path_join [of c] by (simp add: config_ok_def SnapshotFile_def)
  obtain m where m: "fs w (snap_path c) = Some (File (Doc (encode_snapshot sn)) m)"
    using live_pre(9) [OF l] by (auto simp: on_disk_def)
  have ticked: "live E c w0 sn (w\<lparr>clock := n\<rparr>)" for n using live_harmless [OF l, of "w\<lparr>clock := n\<rparr>"] by simp
  have rev: "wp (revert_from E (snap_path c) (ResolvPath c) (encode_snapshot sn)) (\<lambda>_. restored c w0)
      (\<lambda>_ _. False) (recoverable E c w0) (w\<lparr>clock := n\<rparr>)" for n
    by (rule wp_mono [OF wp_revert_from_sure [OF nd c law h ticked]]) (use live_recoverable in auto)
  have have_tools: "wp (seqA (map (require_tool E) [''jq'', ''ip'', ''sysctl'', ''sha256sum''])) Q X D = Q ()" for Q X D
    by (rule ext) (use tools in \<open>simp add: all_tools_def require_tool_def wp_simps\<close>)
  have read: "wp (os_read E (snap_path c)) Q X (recoverable E c w0) (w\<lparr>clock := n\<rparr>)"
    if "Q (Doc (encode_snapshot sn)) (w\<lparr>clock := Suc n\<rparr>)" for Q X n
    by (rule sure_os_read [OF nd]) (use that m live_recoverable [OF ticked] in auto)
  have body: "wp (bindA (seqA (map (require_tool E) [''jq'', ''ip'', ''sysctl'', ''sha256sum''])) (\<lambda>_.
         bindA (attempt (os_read E (snap_path c))) (\<lambda>r. case r of
           Inl _ \<Rightarrow> throw NotJson
         | Inr d \<Rightarrow> (case jq_document d of None \<Rightarrow> throw NotJson
             | Some j \<Rightarrow> revert_from E (snap_path c) (ResolvPath c) j))))
     (\<lambda>_. restored c w0) (\<lambda>_ _. False) (recoverable E c w0) (w\<lparr>clock := n\<rparr>)" for n
    unfolding wp_bind wp_attempt have_tools
    by (rule read) (simp add: rev encode_snapshot_document del: jq_document.simps)
  show ?thesis
    unfolding ouf_panic_def Let_def snap wp_bind [of "attempt m" for m] wp_attempt
    by (rule sure_os_stat [OF nd m]) (use live_recoverable [OF ticked] body in \<open>simp_all del: list.map\<close>)
qed

section \<open>Starting and closing\<close>

lemma skeeps_start_mutate:
  assumes c: "config_ok c" and law: "lawful_kernel E" and h: "host_clean c w0"
  shows "skeeps E c w0 (start_mutate E)"
  unfolding start_mutate_def Let_def
proof (rule skeeps_with_session)
  fix s :: session assume s: "cfg s = c"
  have tun: "skeeps E c w0 (bindA (mapE CreateTunFailed (onW (newTunDevice E (TunName c) (TunIP c))))
         (\<lambda>d. update (\<lambda>s. s\<lparr>tun := Some d\<rparr>)))"
  proof (rule skeeps_bind_wp [where P = "\<lambda>d. ifname d = TunName c"])
    show "skeeps E c w0 (mapE CreateTunFailed (onW (newTunDevice E (TunName c) (TunIP c))))"
      by (intro keep_intros law h)
    show "wp (mapE CreateTunFailed (onW (newTunDevice E (TunName c) (TunIP c))))
       (\<lambda>a _. ifname a = TunName c) (\<lambda>_ _. True) (\<lambda>_. True) sw" for sw
      unfolding wp_mapE wp_onW by (rule newTunDevice_ifname)
  qed (auto intro!: skeeps_update)
  have sysctl: "skeeps E c w0 (mapE DisableIPv6 (onW (writeIPv6Disabled E ''1'')))"
    unfolding writeIPv6Disabled_def sysctl_key by (intro keep_intros)
  show "skeeps E c w0 (seqA [
       mapE DisableIPv6 (onW (writeIPv6Disabled E ''1'')),
       on_writer (AppendAction (SysctlSetAction IPv6DisableSysctlKey ''1'' True)),
       mapE StartSnap (persist_snap E),
       bindA (mapE ResolveServer (lift_sum (resolveShadowsocksServerIPv4 E (TransportURL (cfg s)))))
         (\<lambda>ip. update (\<lambda>s. s\<lparr>svrIP := Some ip\<rparr>)),
       (if stream_dialer E (TransportURL (cfg s)) then ret () else throw BuildDialer),
       bindA (mapE BuildProxy (lift_sum (newPacketProxy E (TransportURL (cfg s))))) (\<lambda>_. ret ()),
       (if sdk_ready E 3 then update (\<lambda>s. s\<lparr>device := True\<rparr>) else throw ConfigureLwip),
       bindA (mapE CreateTunFailed (onW (newTunDevice E (TunName (cfg s)) (TunIP (cfg s)))))
         (\<lambda>d. update (\<lambda>s. s\<lparr>tun := Some d\<rparr>)),
       on_writer (AppendAction (TunCreateAction (TunName (cfg s)) True)),
       mapE StartSnap (persist_snap E),
       mapE WriteResolv (writeResolvConf E),
       mapE InstallRouting (installRouting E),
       update (\<lambda>s. s\<lparr>pumps := 2\<rparr>)])"
    unfolding s
    by (rule keeps_seq) (use tun sysctl in \<open>auto intro!: keep_intros c law\<close>)
qed

lemma skeeps_close_device [keep_intros]: "skeeps E c w0 close_device"
  unfolding close_device_def by (intro keep_intros) simp_all

text \<open>The script run from the session, under any faults.\<close>

lemma wp_runPanic_any:
  assumes "config_ok c" "lawful_kernel E" "host_clean c w0" "recoverable E c w0 w"
  shows "wp (runPanicScript E (StateDir c) (ResolvPath c)) (\<lambda>_. safe E c w0)
     (\<lambda>_. recoverable E c w0) (recoverable E c w0) w"
proof -
  have t: "recoverable E c w0 (w\<lparr>clock := n\<rparr>)" for n
    using recoverable_harmless [OF assms(4), of "w\<lparr>clock := n\<rparr>"] by simp
  note p = wp_ouf_panic_any [OF assms(1-3) t]
  show ?thesis
    unfolding runPanicScript_def
    by (auto intro!: wp_intros t p simp: wp_simps)
qed

definition script_installed :: "env \<Rightarrow> world \<Rightarrow> bool" where
  "script_installed E w \<longleftrightarrow> (\<exists>d m. fs w (panic_path E) = Some (File d m)) \<and> all_tools E"

lemma wp_runPanic_sure:
  assumes "no_deny E" "config_ok c" "lawful_kernel E" "host_clean c w0" "recoverable E c w0 w" "script_installed E w"
  shows "wp (runPanicScript E (StateDir c) (ResolvPath c)) (\<lambda>_. restored c w0)
     (\<lambda>_ _. False) (recoverable E c w0) w"
proof -
  have t: "recoverable E c w0 (w\<lparr>clock := n\<rparr>)" for n
    using recoverable_harmless [OF assms(5), of "w\<lparr>clock := n\<rparr>"] by simp
  obtain d m where script: "fs w (panic_path E) = Some (File d m)" "all_tools E"
    using assms(6) by (auto simp: script_installed_def)
  have fd: "wp (os_fd_call E p) Q X (recoverable E c w0) (w\<lparr>clock := n\<rparr>)"
    if "Q () (w\<lparr>clock := Suc n\<rparr>)" for Q X p n
    unfolding os_fd_call_def by (rule wp_sys_sure [OF assms(1)]) (use that t in auto)
  show ?thesis
    unfolding runPanicScript_def
    by (simp add: wp_bind wp_mapE wp_ret)
      (rule sure_os_stat [OF assms(1) script(1)], rule t,
       rule fd, rule wp_ouf_panic_sure [OF assms(1) script(2) assms(2-4) t])
qed

text \<open>Closing the device of the session only.\<close>

lemma tun_close_idle: "TunName c \<notin> links n \<Longrightarrow> \<forall>r \<in> routes n. rt_dev r \<noteq> TunName c \<Longrightarrow>
    lawful_kernel E \<Longrightarrow> tun_close E (TunName c) n = n"
  by (cases n) (auto simp: lawful_tun_close)

lemma keeps_before:
  assumes "skeeps E c w0 m" "sess_inv E c w0 sw"
    and "\<And>t. sess_inv E c w0 t \<Longrightarrow> wp n Q X (died E c w0) t"
    "\<And>e t. sess_inv E c w0 t \<Longrightarrow> X e t"
  shows "wp (bindA m (\<lambda>_. n)) Q X (died E c w0) sw"
  unfolding wp_bind by (rule wp_mono [OF keepsD [OF assms(1,2)]]) (use assms(3,4) in auto)

lemma sess_inv_parts:
  "sess_inv E c w0 t \<Longrightarrow> cfg (fst t) = c" "sess_inv E c w0 t \<Longrightarrow> recoverable E c w0 (snd t)"
  by (auto simp: sess_inv_def)

lemma wp_cleanup:
  assumes "lawful_kernel E" "host_clean c w0" "sess_inv E c w0 sw"
    and run: "\<And>w. recoverable E c w0 w \<Longrightarrow> wp (runPanicScript E (StateDir c) (ResolvPath c))
       (\<lambda>_. P) (\<lambda>_. P) (recoverable E c w0) w"
  shows "wp (cleanupOnFailure E) (\<lambda>_ t. P (snd t)) (\<lambda>_ _. False) (died E c w0) sw"
proof -
  have last: "wp (with_session (\<lambda>s. onW (runPanicScript E (StateDir (cfg s)) (ResolvPath (cfg s)))))
      (\<lambda>_ t. P (snd t)) (\<lambda>_ t. P (snd t)) (died E c w0) t" if "sess_inv E c w0 t" for t
    using run [OF sess_inv_parts(2) [OF that]] sess_inv_parts(1) [OF that]
    by (simp add: wp_with_session wp_onW)
  have k: "wp close_device (\<lambda>_. sess_inv E c w0) (\<lambda>_ _. False) (died E c w0) t" if "sess_inv E c w0 t" for t
    using keepsD [OF skeeps_close_device that] by (simp add: close_device_def wp_update)
  have t: "wp (close_tun E) (\<lambda>_. sess_inv E c w0) (\<lambda>_ _. False) (died E c w0) sw"
    using keepsD [OF skeeps_close_tun [OF assms(1,2)] assms(3)]
    by (auto simp: close_tun_def wp_with_session wp_simps split: option.splits if_splits)
  show ?thesis
    unfolding cleanupOnFailure_def wp_seq_Cons wp_seq_Nil wp_ignore
    by (rule wp_mono [OF t], rule wp_mono [OF k]) (use last in auto)
qed

end
