(* ===== verification/SessionRuns.thy ===== *)
theory SessionRuns
  imports Revert
begin

text \<open>
  Whole runs of a session: starting it on a clean host, with whatever failing or killing
  the environment does, closing it, and reverting after the daemon is gone.
\<close>

section \<open>Starting\<close>

lemma wp_Start:
  assumes c: "config_ok c" and law: "lawful_kernel E" and h: "host_clean c w0"
    and run: "\<And>w. recoverable E c w0 w \<Longrightarrow> wp (runPanicScript E (StateDir c) (ResolvPath c))
       (\<lambda>_. P) (\<lambda>_. P) (recoverable E c w0) w"
  shows "wp (Start E) (\<lambda>_. sess_inv E c w0) (\<lambda>_ sw. untouched c w0 (snd sw) \<or> P (snd sw))
     (\<lambda>sw. untouched c w0 (snd sw) \<or> recoverable E c w0 (snd sw)) (new_session c, w0)"
proof -
  have mutate: "wp (onErr (cleanupOnFailure E) (start_mutate E)) (\<lambda>_. sess_inv E c w0)
      (\<lambda>_ sw. untouched c w0 (snd sw) \<or> P (snd sw))
      (\<lambda>sw. untouched c w0 (snd sw) \<or> recoverable E c w0 (snd sw)) sw" if i: "sess_inv E c w0 sw" for sw
    unfolding wp_onErr
    by (rule wp_mono [OF keepsD [OF skeeps_start_mutate [OF c law h] i]])
      (auto intro!: wp_mono [OF wp_cleanup [OF law h _ run]])
  show ?thesis
    unfolding Start_def wp_bind
    by (rule wp_mono [OF wp_start_record [OF c h]]) (use mutate in auto)
qed

text \<open>The script stays where it is installed.\<close>

definition script_apart :: "env \<Rightarrow> config \<Rightarrow> bool" where
  "script_apart E c \<longleftrightarrow> panic_path E \<notin> insert (ResolvPath c) (scratch c)"

lemma script_stays:
  assumes "script_installed E w0" "script_apart E c" "recoverable E c w0 w"
  shows "script_installed E w"
proof -
  have "fs w (panic_path E) = fs w0 (panic_path E)"
    using assms(2,3) unfolding recoverable_def host_ok_def script_apart_def by blast
  with assms(1) show ?thesis by (simp add: script_installed_def)
qed

lemma wp_runPanic_installed:
  assumes "no_deny E" "config_ok c" "lawful_kernel E" "host_clean c w0"
    "script_installed E w0" "script_apart E c" "recoverable E c w0 w"
  shows "wp (runPanicScript E (StateDir c) (ResolvPath c)) (\<lambda>_. restored c w0)
     (\<lambda>_ _. False) (recoverable E c w0) w"
  using wp_runPanic_sure [OF assms(1-4,7) script_stays [OF assms(5-7)]] .

section \<open>What a start leaves alone\<close>

abbreviation calm :: "bool \<Rightarrow> ('e, 'a) sess_act \<Rightarrow> bool" where
  "calm b m \<equiv> keeps (\<lambda>sw. stopped (fst sw) = b) (\<lambda>_. True) m"

lemma calm_steps [keep_intros]:
  "calm b (onW m)" "calm b nil_deref" "calm b (lift_sum r)" "calm b (on_writer f)" "calm b markLastActionDone"
  "calm b (persist_snap E)"
  by (auto simp: keeps_def wp_def onW_def nil_deref_def lift_sum_def ret_def throw_def on_writer_def
      with_writer_def with_session_def update_def markLastActionDone_def persist_snap_def
      split: prod.splits outcome.splits sum.splits option.splits)

lemma calm_update [keep_intros]: "(\<And>s. stopped (f s) = stopped s) \<Longrightarrow> calm b (update f)"
  by (auto simp: keeps_def wp_update)

lemma calm_session [keep_intros]: "(\<And>s. calm b (f s)) \<Longrightarrow> calm b (with_session f)"
  by (auto simp: keeps_def wp_with_session)

lemma calm_Start: "calm b (Start E)"
  unfolding Start_def start_record_def record_rest_def start_mutate_def cleanupOnFailure_def close_tun_def
    close_device_def writeResolvConf_def installRouting_def add_route_def add_rule_def install_bypass_def Let_def
  by (auto intro!: keep_intros split: option.split prod.split node.split sum.split)

lemma Close_stops: "wp (Close E) (\<lambda>_ sw. stopped (fst sw)) (\<lambda>_ sw. stopped (fst sw)) (\<lambda>_. True) sw"
proof (cases "stopped (fst sw)")
  case False
  have "calm b (seqA [close_tun E, close_device, update (\<lambda>s. s\<lparr>closed := True, pumps := 0\<rparr>),
      onW (runPanicScript E d p)])" for b d p
    unfolding close_tun_def close_device_def
    by (rule keeps_seq) (auto intro!: keep_intros split: option.split)
  from keepsD [OF this [of True]] False show ?thesis
    unfolding Close_def wp_with_session by (simp add: wp_bind wp_update)
qed (simp add: Close_def wp_with_session wp_ret)

section \<open>Closing\<close>

lemma wp_close_tun:
  assumes "lawful_kernel E" "host_clean c w0" "sess_inv E c w0 sw"
  shows "wp (close_tun E) (\<lambda>_. sess_inv E c w0) (\<lambda>_ _. False) (died E c w0) sw"
  using keepsD [OF skeeps_close_tun [OF assms(1,2)] assms(3)]
  by (auto simp: close_tun_def wp_with_session wp_simps split: option.splits if_splits)

lemma wp_Close:
  assumes law: "lawful_kernel E" and h: "host_clean c w0" and i: "sess_inv E c w0 (s, w)"
    and on: "\<not> stopped s"
    and run: "\<And>w. recoverable E c w0 w \<Longrightarrow> wp (runPanicScript E (StateDir c) (ResolvPath c))
       (\<lambda>_. P) X (recoverable E c w0) w"
  shows "wp (Close E) (\<lambda>_ sw. P (snd sw)) (\<lambda>e sw. X e (snd sw)) (died E c w0) (s, w)"
proof -
  have cfg: "cfg s = c" using i by (simp add: sess_inv_def)
  have i1: "sess_inv E c w0 (s\<lparr>stopped := True\<rparr>, w)" using i by (simp add: sess_inv_def)
  have i2: "sess_inv E c w0 ((fst t)\<lparr>device := False, closed := True, pumps := 0\<rparr>, snd t)"
    if "sess_inv E c w0 t" for t using that by (cases t) (simp add: sess_inv_def)
  show ?thesis
    unfolding Close_def wp_with_session fst_conv using on
    by (simp add: cfg wp_bind wp_ret wp_update close_device_def wp_onW)
      (rule wp_mono [OF wp_close_tun [OF law h i1]], auto simp: wp_update wp_onW dest: sess_inv_parts(2) intro!: run)
qed

section \<open>After the daemon is gone\<close>

text \<open>When the process dies the kernel closes its descriptors, the one of the device too.\<close>

definition reaped :: "env \<Rightarrow> config \<Rightarrow> world \<Rightarrow> world" where
  "reaped E c w = w\<lparr>net := tun_close E (TunName c) (net w)\<rparr>"

lemma recoverable_reaped:
  assumes "lawful_kernel E" "host_clean c w0" "recoverable E c w0 w"
  shows "recoverable E c w0 (reaped E c w)"
  by (rule recoverable_harmless [OF assms(3)])
    (use net_over_tun_close [OF assms(1) clean_routes [OF assms(2)]] in \<open>auto simp: harmless_def reaped_def host_ok_def\<close>)

text \<open>Only the fate of the calls differs from one run of the script to the next.\<close>

abbreviation with_fate :: "env \<Rightarrow> (nat \<Rightarrow> verdict) \<Rightarrow> env" where
  "with_fate E f \<equiv> E\<lparr>fate := f\<rparr>"

lemma with_fate_laws [simp]:
  "lawful_kernel (with_fate E f) = lawful_kernel E" "all_tools (with_fate E f) = all_tools E"
  "script_installed (with_fate E f) w = script_installed E w"
  "script_apart (with_fate E f) c = script_apart E c"
  by (simp_all add: lawful_kernel_def all_tools_def script_installed_def script_apart_def)

lemma with_fate_bytes [simp]: "file_bytes (with_fate E f) d = file_bytes E d"
  by (induction d) simp_all

lemma with_fate_resolv [simp]: "resolv_saved (with_fate E f) c w0 w r = resolv_saved E c w0 w r"
  by (simp add: resolv_saved_def split: option.split node.split)

lemma with_fate_recoverable [simp]: "recoverable (with_fate E f) = recoverable E"
  by (simp add: recoverable_def covers_def pre_saved_def fun_eq_iff)

end
