(* ===== verification/Lives.thy ===== *)
theory Lives
  imports SessionRuns
begin

text \<open>
  Runs in an environment that never kills: the only way left to die is a nil pointer, and
  there is none. The script has no such step at all; in a session the invariant is that the
  writer is set once \<open>snapshot.New\<close> has returned, and the device once it is created.
\<close>

definition no_kill :: "env \<Rightarrow> bool" where
  "no_kill E \<longleftrightarrow> (\<forall>t n. fate E t \<noteq> Kill n)"

lemma lives_sys [keep_intros]:
  assumes "no_kill E"
  shows "keeps (\<lambda>_. True) (\<lambda>_. False) (sys E part op)"
  using assms by (auto simp: keeps_def wp_def sys_def no_kill_def Let_def split: verdict.splits prod.splits sum.splits)

lemma keeps_cases [keep_intros]:
  "(\<And>e. keeps I D (f e)) \<Longrightarrow> (\<And>a. keeps I D (g a)) \<Longrightarrow> keeps I D (case r of Inl e \<Rightarrow> f e | Inr a \<Rightarrow> g a)"
  "keeps I D m \<Longrightarrow> (\<And>a. keeps I D (h a)) \<Longrightarrow> keeps I D (case x of None \<Rightarrow> m | Some a \<Rightarrow> h a)"
  "(\<And>d k. keeps I D (p d k)) \<Longrightarrow> (\<And>t. keeps I D (q t)) \<Longrightarrow> (\<And>k. keeps I D (d k)) \<Longrightarrow>
     keeps I D (case nd of File d k \<Rightarrow> p d k | Symlink t \<Rightarrow> q t | Dir k \<Rightarrow> d k)"
  by (simp_all split: sum.split option.split node.split)

lemma lives_calls [keep_intros]:
  assumes "no_kill E"
  shows "keeps (\<lambda>_. True) (\<lambda>_. False) (os_stat E p)" "keeps (\<lambda>_. True) (\<lambda>_. False) (os_lstat E p)"
    "keeps (\<lambda>_. True) (\<lambda>_. False) (os_open E p)" "keeps (\<lambda>_. True) (\<lambda>_. False) (os_read E p)"
    "keeps (\<lambda>_. True) (\<lambda>_. False) (os_read_proc E p)" "keeps (\<lambda>_. True) (\<lambda>_. False) (os_readlink E p)"
    "keeps (\<lambda>_. True) (\<lambda>_. False) (os_open_trunc E p k)" "keeps (\<lambda>_. True) (\<lambda>_. False) (os_write E p d)"
    "keeps (\<lambda>_. True) (\<lambda>_. False) (os_fd_call E p)" "keeps (\<lambda>_. True) (\<lambda>_. False) (os_chmod E p k)"
    "keeps (\<lambda>_. True) (\<lambda>_. False) (os_remove E p)" "keeps (\<lambda>_. True) (\<lambda>_. False) (os_rename E p q)"
    "keeps (\<lambda>_. True) (\<lambda>_. False) (os_symlink E p q)" "keeps (\<lambda>_. True) (\<lambda>_. False) (os_mkdir_all E p k)"
    "keeps (\<lambda>_. True) (\<lambda>_. False) (sysctl_write E p v)" "keeps (\<lambda>_. True) (\<lambda>_. False) (net_call E g)"
    "keeps (\<lambda>_. True) (\<lambda>_. False) (rm_f E p)" "keeps (\<lambda>_. True) (\<lambda>_. False) (link_show E p)"
  using assms by (simp_all add: lives_sys os_stat_def os_lstat_def os_open_def os_read_def os_read_proc_def
      os_readlink_def os_open_trunc_def os_write_def os_fd_call_def os_chmod_def os_remove_def
      os_rename_def os_symlink_def os_mkdir_all_def sysctl_write_def net_call_def rm_f_def link_show_def)

section \<open>The script\<close>

abbreviation lives :: "('s, 'e, 'a) act \<Rightarrow> bool" where
  "lives m \<equiv> keeps (\<lambda>_. True) (\<lambda>_. False) m"

lemma lives_run_or_fail [keep_intros]: "lives m \<Longrightarrow> lives (run_or_fail m b)"
  unfolding run_or_fail_def by (intro keep_intros)

lemma lives_read_marks: "lives (read_marks E j)"
  unfolding read_marks_def Let_def
  by (intro keeps_bind keeps_ret keeps_seq) (auto intro: gentle_guard)

lemma lives_revert_sysctls: "no_kill E \<Longrightarrow> lives (revert_sysctls E ss b)"
  by (induction ss arbitrary: b) (auto intro!: keeps_ret keeps_bind lives_run_or_fail lives_calls)

lemma lives_del_rule: "no_kill E \<Longrightarrow> lives (del_rule E p)" "no_kill E \<Longrightarrow> lives (del_recorded_rule E p)"
  by (auto simp: del_rule_def del_recorded_rule_def intro!: gentle_soft_run lives_calls keeps_ret split: option.split)

lemma lives_revert_net: "no_kill E \<Longrightarrow> lives (revert_net E m j b)"
  unfolding revert_net_def
  by (intro keeps_bind keeps_seq)
    (auto intro!: lives_del_rule gentle_soft_run lives_calls keeps_ret keeps_attempt lives_run_or_fail
      split: sum.split)

lemma lives_hashFile: "no_kill E \<Longrightarrow> lives (hashFile E p)"
  unfolding hashFile_def by (intro keep_intros)

lemma lives_restore_resolv: "no_kill E \<Longrightarrow> lives (restore_resolv E p j b)"
  unfolding restore_resolv_def Let_def test_exists_def check_backup_def cp_a_def
  by (auto intro!: keeps_bind keeps_ret keeps_attempt keeps_seq lives_calls lives_run_or_fail lives_hashFile
      gentle_soft_run gentle_guard keeps_throw split: sum.split node.split)

lemma lives_ouf_panic: "no_kill E \<Longrightarrow> lives (ouf_panic E dir resolv)"
  unfolding ouf_panic_def revert_from_def retire_def Let_def
  by (auto intro!: keeps_bind keeps_ret keeps_attempt keeps_seq keeps_throw keeps_ignore lives_calls
      lives_read_marks lives_revert_sysctls lives_revert_net lives_restore_resolv
      simp: require_tool_def split: sum.split node.split option.split)

lemma lives_fst: "lives m \<Longrightarrow> fst (m s) \<noteq> Dead"
  by (cases "m s") (auto simp: keeps_def wp_def split: outcome.splits dest: spec [of _ s])

section \<open>The session\<close>

definition armed :: "bool \<Rightarrow> session \<times> world \<Rightarrow> bool" where
  "armed b = (\<lambda>(s, w). wr s \<noteq> None \<and> (b \<longrightarrow> tun s \<noteq> None))"

abbreviation alive :: "bool \<Rightarrow> ('e, 'a) sess_act \<Rightarrow> bool" where
  "alive b m \<equiv> keeps (armed b) (\<lambda>_. False) m"

lemma alive_onW [keep_intros]: "lives m \<Longrightarrow> alive b (onW m)"
  by (auto simp: keeps_def armed_def wp_def onW_def split: prod.splits outcome.splits)

lemma alive_update [keep_intros]:
  "(\<And>s. wr s \<noteq> None \<Longrightarrow> wr (f s) \<noteq> None) \<Longrightarrow> (\<And>s. tun s \<noteq> None \<Longrightarrow> tun (f s) \<noteq> None) \<Longrightarrow> alive b (update f)"
  by (auto simp: keeps_def armed_def wp_update)

lemma alive_session [keep_intros]:
  "(\<And>s. wr s \<noteq> None \<Longrightarrow> b \<longrightarrow> tun s \<noteq> None \<Longrightarrow> alive b (f s)) \<Longrightarrow> alive b (with_session f)"
  by (auto simp: keeps_def armed_def wp_with_session)

lemma alive_writer [keep_intros]: "alive b (on_writer f)" "alive b markLastActionDone"
  by (auto simp: keeps_def armed_def wp_on_writer markLastActionDone_def split: option.splits)

lemma lives_Persist: "no_kill E \<Longrightarrow> lives (Persist E v)"
  unfolding Persist_def Let_def by (auto intro!: keep_intros)

lemma alive_persist [keep_intros]:
  assumes "no_kill E"
  shows "alive b (persist_snap E)"
proof (rule keepsI)
  fix sw :: "session \<times> world" assume a: "armed b sw"
  then obtain v where v: "wr (fst sw) = Some v" by (auto simp: armed_def)
  show "wp (persist_snap E) (\<lambda>_. armed b) (\<lambda>_. armed b) (\<lambda>_. False) sw"
    unfolding persist_snap_def wp_with_writer v option.case
    using keepsD [OF alive_onW [OF lives_Persist [OF assms]] a] .
qed

lemma alive_lift_sum [keep_intros]: "alive b (lift_sum r)"
  by (auto simp: lift_sum_def intro!: keep_intros)

lemma alive_writeResolvConf: "no_kill E \<Longrightarrow> alive b (writeResolvConf E)"
  unfolding writeResolvConf_def os_write_file_def Let_def
  by (auto intro!: keep_intros split: node.split)

lemma alive_add:
  assumes "no_kill E"
  shows "alive b (add_route E r spec)" "alive b (add_rule E rule spec)" "alive b (install_bypass E p n x)"
  using assms by (auto simp: add_route_def add_rule_def install_bypass_def Let_def intro!: keep_intros
      split: prod.split option.split)

lemma alive_routing:
  assumes "no_kill E"
  shows "alive True (installRouting E)"
  unfolding installRouting_def
proof (rule alive_session)
  fix s :: session assume "True \<longrightarrow> tun s \<noteq> None"
  then obtain d where d: "tun s = Some d" by blast
  show "alive True (let c = cfg s in
     case parse_ipnet E (TunGatewayCIDR c) of
       None \<Rightarrow> throw (ParseGateway (TunGatewayCIDR c))
     | Some (gwIP, gwNet) \<Rightarrow> (case tun s of
         Some d \<Rightarrow>
           (let bs = bypasses (case svrIP s of Some ip \<Rightarrow> ip | None \<Rightarrow> ''<nil>'') in seqA (
             [add_route E (gateway_route c (ifname d) gwNet)
                (gwNet @ '' dev '' @ TunName c @ '' scope link src '' @ TunIP c),
              add_route E (default_route c (ifname d) gwIP)
                (''default via '' @ gwIP @ '' dev '' @ TunName c)]
             @ map (install_bypass E (RoutingRulePriority c) (length bs)) (enumerate 0 bs)
             @ [add_rule E (catchall c) (''from all lookup '' @ dec_int (RoutingTableID c) @ '' (catchall)'')]))
       | None \<Rightarrow> nil_deref))"
    unfolding d option.case Let_def
    by (auto intro!: keep_intros alive_add assms split: option.split prod.split)
qed

lemma lives_newTunDevice: "no_kill E \<Longrightarrow> lives (newTunDevice E n ip)"
  unfolding newTunDevice_def iface_close_def by (auto intro!: keep_intros)

lemma lives_ipv6: "no_kill E \<Longrightarrow> lives (readIPv6Disabled E)" "no_kill E \<Longrightarrow> lives (writeIPv6Disabled E v)"
  unfolding readIPv6Disabled_def writeIPv6Disabled_def Let_def by (auto intro!: keep_intros)

lemma lives_runPanic: "no_kill E \<Longrightarrow> lives (runPanicScript E d p)"
  unfolding runPanicScript_def by (auto intro!: keep_intros lives_ouf_panic)

lemma alive_cleanup: "no_kill E \<Longrightarrow> alive b (cleanupOnFailure E)"
  unfolding cleanupOnFailure_def close_tun_def close_device_def iface_close_def
  by (auto intro!: keep_intros lives_runPanic split: option.split)

section \<open>Starting\<close>

definition start_front :: "env \<Rightarrow> config \<Rightarrow> (start_error, unit) sess_act list" where
  "start_front E c = [
     mapE DisableIPv6 (onW (writeIPv6Disabled E ''1'')),
     on_writer (AppendAction (SysctlSetAction IPv6DisableSysctlKey ''1'' True)),
     mapE StartSnap (persist_snap E),
     bindA (mapE ResolveServer (lift_sum (resolveShadowsocksServerIPv4 E (TransportURL c))))
       (\<lambda>ip. update (\<lambda>s. s\<lparr>svrIP := Some ip\<rparr>)),
     (if stream_dialer E (TransportURL c) then ret () else throw BuildDialer),
     bindA (mapE BuildProxy (lift_sum (newPacketProxy E (TransportURL c)))) (\<lambda>_. ret ()),
     (if sdk_ready E 3 then update (\<lambda>s. s\<lparr>device := True\<rparr>) else throw ConfigureLwip)]"

definition start_tun :: "env \<Rightarrow> config \<Rightarrow> (start_error, unit) sess_act" where
  "start_tun E c = bindA (mapE CreateTunFailed (onW (newTunDevice E (TunName c) (TunIP c))))
     (\<lambda>d. update (\<lambda>s. s\<lparr>tun := Some d\<rparr>))"

definition start_tail :: "env \<Rightarrow> config \<Rightarrow> (start_error, unit) sess_act list" where
  "start_tail E c = [
     on_writer (AppendAction (TunCreateAction (TunName c) True)),
     mapE StartSnap (persist_snap E),
     mapE WriteResolv (writeResolvConf E),
     mapE InstallRouting (installRouting E),
     update (\<lambda>s. s\<lparr>pumps := 2\<rparr>)]"

lemma start_mutate_parts:
  "start_mutate E = with_session (\<lambda>s. seqA (start_front E (cfg s) @ start_tun E (cfg s) # start_tail E (cfg s)))"
  by (simp add: start_mutate_def start_front_def start_tun_def start_tail_def Let_def)

lemma armed_weaken: "armed True t \<Longrightarrow> armed False t"
  by (auto simp: armed_def)

lemma alive_start_mutate:
  assumes k: "no_kill E"
  shows "alive False (start_mutate E)"
  unfolding start_mutate_parts
proof (rule alive_session, rule keepsI)
  fix s :: session and t0 :: "session \<times> world"
  let ?c = "cfg s"
  assume a: "armed False t0"
  have front: "alive False (seqA (start_front E ?c))"
    unfolding start_front_def by (rule keeps_seq) (use k in \<open>auto intro!: keep_intros lives_ipv6\<close>)
  have tail: "alive True (seqA (start_tail E ?c))"
    unfolding start_tail_def
    by (rule keeps_seq) (use k in \<open>auto intro!: keep_intros alive_writeResolvConf alive_routing\<close>)
  have tun: "wp (start_tun E ?c) (\<lambda>_. armed True) (\<lambda>_. armed False) (\<lambda>_. False) t" if t: "armed False t" for t
    unfolding start_tun_def wp_bind wp_mapE
    by (rule wp_mono [OF keepsD [OF alive_onW [OF lives_newTunDevice [OF k]] t]])
      (auto simp: wp_update armed_def)
  have after: "wp (seqA (start_tail E ?c)) (\<lambda>_. armed False) (\<lambda>_. armed False) (\<lambda>_. False) t"
    if t: "armed True t" for t
    by (rule wp_mono [OF keepsD [OF tail t]]) (use armed_weaken in blast)+
  have rest: "wp (seqA (start_tun E ?c # start_tail E ?c)) (\<lambda>_. armed False) (\<lambda>_. armed False) (\<lambda>_. False) t"
    if t: "armed False t" for t
    unfolding wp_seq_Cons by (rule wp_mono [OF tun [OF t]]) (use after in blast)+
  show "wp (seqA (start_front E ?c @ start_tun E ?c # start_tail E ?c))
      (\<lambda>_. armed False) (\<lambda>_. armed False) (\<lambda>_. False) t0"
    unfolding wp_seq_append by (rule wp_mono [OF keepsD [OF front a]]) (use rest in blast)+
qed

lemma lives_New_snapshot: "no_kill E \<Longrightarrow> lives (snapshot_New E d ms v)"
  unfolding snapshot_New_def
  by (auto intro!: keep_intros simp: keeps_def [where m = get_clock] wp_get_clock)

lemma lives_RecordResolvConf: "no_kill E \<Longrightarrow> lives (RecordResolvConf E p v)"
  unfolding RecordResolvConf_def copyFile_def
  by (auto intro!: keep_intros lives_hashFile)

lemma alive_record_rest: "no_kill E \<Longrightarrow> alive False (record_rest E c)"
  unfolding record_rest_def by (auto intro!: keep_intros lives_ipv6)

lemma wp_start_record_lives:
  assumes k: "no_kill E"
  shows "wp (start_record E) (\<lambda>_. armed False) (\<lambda>_ _. True) (\<lambda>_. False) sw"
proof -
  have lives: "wp m (\<lambda>_ _. True) (\<lambda>_ _. True) (\<lambda>_. False) w" if m: "lives m" for m :: "(world, 'e, 'a) act" and w
    using keepsD [OF m] by simp
  have rest: "wp (record_rest E c) (\<lambda>_. armed False) (\<lambda>_ _. True) (\<lambda>_. False) (s\<lparr>wr := Some v\<rparr>, w)" for c s v w
    by (rule wp_mono [OF keepsD [OF alive_record_rest [OF k]]]) (auto simp: armed_def)
  have recorded: "wp (RecordResolvConf E p v) (\<lambda>v' w. wp (record_rest E c) (\<lambda>_. armed False) (\<lambda>_ _. True)
      (\<lambda>_. False) (s\<lparr>wr := Some v'\<rparr>, w)) (\<lambda>_ _. True) (\<lambda>_. False) w" for p v c s w
    by (rule wp_mono [OF lives [OF lives_RecordResolvConf [OF k]]]) (use rest in auto)
  have new: "wp (snapshot_New E d ms ver) (\<lambda>v w. wp (RecordResolvConf E p v) (\<lambda>v' w. wp (record_rest E c)
      (\<lambda>_. armed False) (\<lambda>_ _. True) (\<lambda>_. False) (s\<lparr>wr := Some v'\<rparr>, w)) (\<lambda>_ _. True) (\<lambda>_. False) w)
      (\<lambda>_ _. True) (\<lambda>_. False) w" for d ms ver p c s w
    by (rule wp_mono [OF lives [OF lives_New_snapshot [OF k]]]) (use recorded in auto)
  show ?thesis
    unfolding start_record_def Let_def wp_with_session wp_bind wp_onW wp_attempt wp_mapE wp_update fst_conv snd_conv
    by (rule wp_mono [OF lives [OF lives_calls(1) [OF k]]])
      (use new in \<open>auto simp: wp_simps\<close>)
qed

lemma Start_lives:
  assumes k: "no_kill E"
  shows "fst (Start E sw) \<noteq> Dead"
proof -
  have "wp (onErr (cleanupOnFailure E) (start_mutate E)) (\<lambda>_ _. True) (\<lambda>_ _. True) (\<lambda>_. False) t"
    if t: "armed False t" for t
    unfolding wp_onErr
    by (rule wp_mono [OF keepsD [OF alive_start_mutate [OF k] t]])
      (auto intro!: wp_mono [OF keepsD [OF alive_cleanup [OF k]]])
  then have "wp (Start E) (\<lambda>_ _. True) (\<lambda>_ _. True) (\<lambda>_. False) sw"
    unfolding Start_def wp_bind by (intro wp_mono [OF wp_start_record_lives [OF k]]) auto
  then show ?thesis by (cases "Start E sw") (auto simp: wp_def split: outcome.splits)
qed

end
