(* ===== verification/RefHost.thy ===== *)
theory RefHost
  imports Lives RefEnv
begin

text \<open>
  A concrete host: the daemon's default configuration, a machine whose \<open>resolv.conf\<close> is a
  plain file, and the reference kernel. The hypotheses of the session's properties hold of it.
\<close>

lemma ref_kernel:
  "tun_open (ref_env f) = ref_tun_open" "tun_close (ref_env f) = ref_tun_close"
  "route_add (ref_env f) = ref_route_add" "rule_add (ref_env f) = ref_rule_add"
  "ip_rule_del (ref_env f) = ref_rule_del" "ip_route_flush (ref_env f) = ref_route_flush"
  "ip_link_del (ref_env f) = ref_link_del" "sha256 (ref_env f) = (\<lambda>s. dec (length s))"
  "have_tool (ref_env f) = (\<lambda>_. True)" "panic_path (ref_env f) = ''/usr/local/sbin/ouf-panic''"
  by (simp_all add: ref_env_def)

lemma ref_rule_del_law:
  "if \<exists>r. r \<in># rules s \<and> ru_priority r = p
   then \<exists>r. r \<in># rules s \<and> ru_priority r = p \<and> ref_rule_del p s = s\<lparr>rules := rules s - {#r#}\<rparr>
   else ref_rule_del p s = s"
proof -
  let ?m = "filter_mset (\<lambda>r. ru_priority r = p) (rules s)"
  have empty: "?m = {#} \<longleftrightarrow> \<not> (\<exists>r. r \<in># rules s \<and> ru_priority r = p)"
    by (simp only: set_mset_eq_empty_iff [symmetric] set_mset_filter) blast
  show ?thesis
  proof (cases "?m = {#}")
    case False
    have "ref_rule_pick p ?m \<in># ?m" by (rule ref_rule_pick_in [OF False]) simp
    with False empty show ?thesis by (auto simp: ref_rule_del_def Let_def)
  qed (use empty in \<open>auto simp: ref_rule_del_def Let_def\<close>)
qed

lemma plain_dec: "plain (dec n)"
proof -
  have "\<forall>c \<in> set (dec n). is_digit c" by (rule dec_digits)
  then have "byte c < (0x80 :: nat)" if "c \<in> set (dec n)" for c using digit_byte [of c] that by fastforce
  then have "ascii (dec n)" unfolding ascii_def list_all_iff by blast
  moreover have "cmd_subst (dec n) = dec n" using cmd_subst_dec_int [of "int n"] by (simp add: dec_int_def)
  ultimately show ?thesis by (simp add: plain_def ascii_valid_utf8)
qed

lemma ref_lawful: "lawful_kernel (ref_env f)"
  using ref_rule_del_law plain_dec
  by (auto simp: lawful_kernel_def ref_kernel ref_tun_open_def ref_tun_close_def ref_route_add_def
      ref_rule_add_def ref_route_flush_def ref_link_del_def split: if_splits)

lemma ref_tools: "all_tools (ref_env f)"
  by (simp add: all_tools_def ref_kernel)

definition demo_config :: config where
  "demo_config = ApplyDefaults (zero_config\<lparr>TransportURL := ''ss://u@h''\<rparr>)"

definition demo_world :: world where
  "demo_world = \<lparr>fs = [''/etc/resolv.conf'' \<mapsto> File (Bytes ''nameserver 1.1.1.1'') mode_0644,
       ''/usr/local/sbin/ouf-panic'' \<mapsto> File (Bytes ''#!/bin/bash'') mode_0755],
     sysctls = [IPv6DisableSysctlKey \<mapsto> ''0''], net = empty_net, clock = 0\<rparr>"

lemma demo_config_sel:
  "TunName demo_config = ''ouftun0''" "TunIP demo_config = ''10.233.233.1''"
  "TunGatewayCIDR demo_config = ''10.233.233.2/32''" "RoutingTableID demo_config = 233"
  "RoutingRulePriority demo_config = 23333" "DNSServerIP demo_config = ''9.9.9.9''"
  "ResolvPath demo_config = ''/etc/resolv.conf''" "StateDir demo_config = ''/var/lib/outline-fedora''"
  "TransportURL demo_config = ''ss://u@h''" "OUFVersion demo_config = ''dev''"
  by (simp_all add: demo_config_def ApplyDefaults_def zero_config_def or_default_def DefaultTunName_def
      DefaultTunIP_def DefaultTunGatewayCIDR_def DefaultRoutingTableID_def DefaultRoutingRulePriority_def
      DefaultDNSServerIP_def)

lemma demo_config_ok: "config_ok demo_config"
  by (simp add: config_ok_def demo_config_sel reserved_ifname_def has_prefix_def plain_def
      snap_files_def resolv_tmp_def snap_path_def backup_path_def filepath_join_def BackupSubdir_def
      SnapshotFile_def ascii_valid_utf8 ascii_def cmd_subst_id
      newline_iff)

lemma demo_clean: "host_clean demo_config demo_world"
  by (simp add: host_clean_def demo_world_def demo_config_sel snap_path_def resolv_tmp_def
      SnapshotFile_def empty_net_def)

lemma demo_installed: "script_installed (ref_env f) demo_world"
  by (simp add: script_installed_def demo_world_def ref_kernel ref_tools)

lemma demo_apart: "script_apart (ref_env f) demo_config"
  by (simp add: script_apart_def ref_kernel demo_config_sel scratch_def snap_files_def resolv_tmp_def
      snap_path_def backup_path_def filepath_join_def BackupSubdir_def SnapshotFile_def)

lemma demo_New: "New (zero_config\<lparr>TransportURL := ''ss://u@h''\<rparr>) = Inr (new_session demo_config)"
proof -
  have "Validate demo_config = Inr ()"
    unfolding Validate_ok by (simp add: demo_config_sel)
  then show ?thesis by (simp add: New_def demo_config_def [symmetric] new_session_def)
qed

section \<open>Runs on it\<close>

lemma follow_41: "follow 41 f p = (case f p of None \<Rightarrow> Inl ENOENT
     | Some (Symlink t) \<Rightarrow> follow 40 f (link_target p t) | Some nd \<Rightarrow> Inr nd)"
  using follow.simps(2) [of 40 f p] by simp

lemma demo_url: "trim_space ''ss://u@h'' = ''ss://u@h''"
  by code_simp

lemmas eval_start = start_record_def record_rest_def start_mutate_def with_session_def with_writer_def
  on_writer_def update_def persist_snap_def Persist_def snapshot_New_def RecordResolvConf_def copyFile_def
  hashFile_def onW_def effect_defs os_call_defs new_session_def demo_world_def demo_config_sel
  set_node_def put_data_def follow_41 demo_url filepath_join_def SnapshotFile_def BackupSubdir_def
  backup_path_def ref_kernel sysctl_key readIPv6Disabled_def writeIPv6Disabled_def AppendAction_def
  RecordSysctl_def on_pre_def set_resolv_def trim_bit resolveShadowsocksServerIPv4_def newPacketProxy_def
  lift_sum_def newTunDevice_def iface_close_def ref_env_def link_show_def empty_net_def ref_tun_open_def

text \<open>The daemon is killed while it brings the device up; IPv6 is off by then.\<close>

lemma demo_start_dies: "fst (Start (ref_env (kill_at 27)) (new_session demo_config, demo_world)) = Dead"
  by (simp add: eval_start Start_def kill_at_def)

text \<open>The server's name does not resolve.\<close>

definition no_server :: env where
  "no_server = (ref_env no_faults)\<lparr>lookup_ip := \<lambda>_. None\<rparr>"

lemma lookup_irrelevant:
  "lawful_kernel (E\<lparr>lookup_ip := g\<rparr>) = lawful_kernel E" "script_apart (E\<lparr>lookup_ip := g\<rparr>) c = script_apart E c"
  "script_installed (E\<lparr>lookup_ip := g\<rparr>) w = script_installed E w"
  by (simp_all add: lawful_kernel_def script_apart_def script_installed_def all_tools_def)

lemma no_server_laws:
  "lawful_kernel no_server" "script_installed no_server demo_world" "script_apart no_server demo_config"
  "no_deny no_server" "no_kill no_server"
  by (simp_all add: no_server_def lookup_irrelevant ref_lawful demo_installed demo_apart
      no_deny_def no_kill_def no_faults_def)

lemma Start_throws:
  assumes "no_kill E" "bindA (start_record E) (\<lambda>_. start_mutate E) sw = (Throw e, t)"
  shows "fst (Start E sw) = Throw e"
  using assms(2) Start_lives [OF assms(1), of sw]
  by (auto simp: Start_def bindA_def onErr_def split: prod.splits outcome.splits)

lemma no_server_throws:
  "fst (Start no_server (new_session demo_config, demo_world)) = Throw (ResolveServer (LookupFailed ''1.1.1.1''))"
proof -
  have "fst (bindA (start_record no_server) (\<lambda>_. start_mutate no_server) (new_session demo_config, demo_world))
      = Throw (ResolveServer (LookupFailed ''1.1.1.1''))"
    by (simp add: eval_start no_server_def no_faults_def)
  then show ?thesis
    using Start_throws [OF no_server_laws(5)]
    by (cases "bindA (start_record no_server) (\<lambda>_. start_mutate no_server) (new_session demo_config, demo_world)") auto
qed

end
