(* ===== verification/SessionProps.thy ===== *)
theory SessionProps
  imports RefHost
begin

text \<open>
  What a session promises about the host it runs on. \<open>New\<close> gives the session, \<open>w0\<close> is the
  world \<open>Start\<close> is called in; \<open>E\<close> is any environment with a lawful kernel, so its \<open>fate\<close> is any
  pattern of failing system calls and of points where the daemon is killed.
\<close>

lemma New_session: "New c0 = Inr s \<Longrightarrow> s = new_session (cfg s)"
  by (auto simp: New_def Let_def new_session_def split: sum.splits)

lemma new_session_cfg [simp]: "cfg (new_session c) = c"
  by (simp add: new_session_def)

lemma Start_ends:
  assumes "New c0 = Inr s" "config_ok (cfg s)" "lawful_kernel E" "host_clean (cfg s) w0"
    and "\<And>w. recoverable E (cfg s) w0 w \<Longrightarrow>
       wp (runPanicScript E (StateDir (cfg s)) (ResolvPath (cfg s))) (\<lambda>_. P) (\<lambda>_. P) (recoverable E (cfg s) w0) w"
  shows "case Start E (s, w0) of
      (Ret _, sw) \<Rightarrow> sess_inv E (cfg s) w0 sw
    | (Throw _, (s', w)) \<Rightarrow> untouched (cfg s) w0 w \<or> P w
    | (Dead, (s', w)) \<Rightarrow> untouched (cfg s) w0 w \<or> recoverable E (cfg s) w0 w"
  using wp_Start [OF assms(2-5)] unfolding New_session [OF assms(1), symmetric]
  by (auto simp: wp_def split: prod.splits outcome.splits)

section \<open>Crashes\<close>

lemma Start_recoverable:
  assumes "New c0 = Inr s" "config_ok (cfg s)" "lawful_kernel E" "host_clean (cfg s) w0"
  shows "case Start E (s, w0) of
      (Ret _, (s', w)) \<Rightarrow> recoverable E (cfg s) w0 w
    | (Throw _, (s', w)) \<Rightarrow> fs w (snap_path (cfg s)) = None \<or> recoverable E (cfg s) w0 w
    | (Dead, (s', w)) \<Rightarrow> untouched (cfg s) w0 w \<or> recoverable E (cfg s) w0 w"
proof -
  have run: "wp (runPanicScript E (StateDir (cfg s)) (ResolvPath (cfg s)))
      (\<lambda>_. safe E (cfg s) w0) (\<lambda>_. safe E (cfg s) w0) (recoverable E (cfg s) w0) w"
    if "recoverable E (cfg s) w0 w" for w
    by (rule wp_mono [OF wp_runPanic_any [OF assms(2-4) that]]) (auto simp: safe_def)
  show ?thesis
    using Start_ends [OF assms, of "safe E (cfg s) w0", OF run]
    by (auto simp: safe_def sess_inv_def untouched_def split: prod.splits outcome.splits)
qed



text \<open>The script run again and again, each time cut short or completing as its fate says.\<close>

fun panic_attempts :: "env \<Rightarrow> config \<Rightarrow> (nat \<Rightarrow> verdict) list \<Rightarrow> world \<Rightarrow> world" where
  "panic_attempts E c [] w = w"
| "panic_attempts E c (f # attempts) w = panic_attempts E c attempts
     (snd (ouf_panic (with_fate E f) (StateDir c) (ResolvPath c) w))"

definition kills_only :: "(nat \<Rightarrow> verdict) \<Rightarrow> bool" where
  "kills_only f \<longleftrightarrow> (\<forall>t n. f t \<noteq> Deny n)"

definition revertible :: "env \<Rightarrow> config \<Rightarrow> world \<Rightarrow> world \<Rightarrow> bool" where
  "revertible E c w0 w \<longleftrightarrow> recoverable E c w0 w \<or> restored c w0 w \<or> untouched c w0 w"

lemma restored_clock [simp]: "restored c w0 (w\<lparr>clock := n\<rparr>) = restored c w0 w"
  by (simp add: restored_def)

lemma snap_path_script: "config_ok c \<Longrightarrow> filepath_join (StateDir c) ''snapshot.json'' = snap_path c"
  using snap_path_join [of c] by (simp add: config_ok_def SnapshotFile_def)

lemma ouf_panic_no_snapshot:
  assumes "config_ok c" "fs w (snap_path c) = None"
  shows "snd (ouf_panic E (StateDir c) (ResolvPath c) w) = tick w"
    "fst (ouf_panic E (StateDir c) (ResolvPath c) w) = (case fate E (clock w) of Kill _ \<Rightarrow> Dead | _ \<Rightarrow> Ret ())"
  using assms(2) follow_exists [of _ "fs w" "snap_path c"]
  by (auto simp: ouf_panic_def snap_path_script [OF assms(1)] os_stat_def effect_defs numeral_eq_Suc
      split: verdict.split)

lemma ouf_panic_revertible:
  assumes "config_ok c" "lawful_kernel E" "all_tools E" "host_clean c w0" "kills_only f" "revertible E c w0 w"
    "ouf_panic (with_fate E f) (StateDir c) (ResolvPath c) w = (r, w')"
  shows "(r = Dead \<and> revertible E c w0 w') \<or> (r = Ret () \<and> (restored c w0 w' \<or> untouched c w0 w'))"
proof (cases "recoverable E c w0 w")
  case True
  have "no_deny (with_fate E f)" using assms(5) by (simp add: no_deny_def kills_only_def)
  from wp_ouf_panic_sure [OF this _ assms(1) _ assms(4)] True assms(2,3)
  have "wp (ouf_panic (with_fate E f) (StateDir c) (ResolvPath c)) (\<lambda>_. restored c w0)
     (\<lambda>_ _. False) (recoverable E c w0) w" by simp
  then show ?thesis using assms(7)
    by (cases r) (auto simp: wp_def revertible_def)
next
  case False
  then have "restored c w0 w \<or> untouched c w0 w" using assms(6) by (simp add: revertible_def)
  then have "fs w (snap_path c) = None" "restored c w0 (tick w) \<or> untouched c w0 (tick w)"
    by (auto simp: restored_def untouched_def)
  with ouf_panic_no_snapshot [OF assms(1), of w "with_fate E f"] assms(7) show ?thesis
    by (auto simp: revertible_def split: verdict.splits)
qed

lemma panic_attempts_revertible:
  assumes "config_ok c" "lawful_kernel E" "all_tools E" "host_clean c w0"
  shows "list_all kills_only fates \<Longrightarrow> revertible E c w0 w \<Longrightarrow> revertible E c w0 (panic_attempts E c fates w)"
proof (induction fates arbitrary: w)
  case (Cons f fates)
  obtain r w' where run: "ouf_panic (with_fate E f) (StateDir c) (ResolvPath c) w = (r, w')" by fastforce
  with ouf_panic_revertible [OF assms _ _ run] Cons.prems have "revertible E c w0 w'"
    by (auto simp: revertible_def)
  with Cons run show ?case by simp
qed simp

lemma revert_completes:
  assumes base: "config_ok c" "lawful_kernel E" "all_tools E" "host_clean c w0"
    and r: "revertible E c w0 w" and fates: "list_all kills_only fates"
  shows "\<exists>w'. ouf_panic (with_fate E no_faults) (StateDir c) (ResolvPath c)
        (panic_attempts E c fates (reaped E c w)) = (Ret (), w')
     \<and> (restored c w0 w' \<or> untouched c w0 w')"
proof -
  have idle: "tun_close E (TunName c) (net w0) = net w0"
    using base(4) clean_routes [OF base(4)] by (intro tun_close_idle [OF _ _ base(2)]) (auto simp: host_clean_def)
  have "untouched c w0 (reaped E c w)" if "untouched c w0 w"
    using that idle by (simp add: reaped_def untouched_def)
  moreover have "restored c w0 (reaped E c w)" if "restored c w0 w"
    using that idle by (simp add: reaped_def restored_def)
  ultimately have "revertible E c w0 (reaped E c w)"
    using r recoverable_reaped [OF base(2,4)] by (auto simp: revertible_def)
  note r = panic_attempts_revertible [OF base fates this]
  obtain q w' where run: "ouf_panic (with_fate E no_faults) (StateDir c) (ResolvPath c)
      (panic_attempts E c fates (reaped E c w)) = (q, w')" by fastforce
  have "kills_only no_faults" by (simp add: kills_only_def no_faults_def)
  note ends = ouf_panic_revertible [OF base this r run]
  have "no_kill (with_fate E no_faults)" by (simp add: no_kill_def no_faults_def)
  from lives_fst [OF lives_ouf_panic [OF this]] run have "q \<noteq> Dead" by (metis fst_conv)
  with ends run show ?thesis by blast
qed

text \<open>C1. The host comes back from a crash. The daemon is killed at any point of \<open>Start\<close>, or at
  any time while the session is up, after any pattern of failing calls; the kernel closes
  its device; the script is started any number of times and killed on the way each time.
  When it is then left to run to its end, with no command failing, it exits with 0 and the
  host is as it was: network, sysctl and \<open>resolv.conf\<close>, and no snapshot is left.\<close>

theorem crash_recovery:
  assumes "New c0 = Inr s" "config_ok (cfg s)" "lawful_kernel E" "all_tools E" "host_clean (cfg s) w0"
    and "Start E (s, w0) = (r, (s', w))" "r = Dead \<or> r = Ret ()" "list_all kills_only fates"
  shows "\<exists>w'. ouf_panic (with_fate E no_faults) (StateDir (cfg s)) (ResolvPath (cfg s))
        (panic_attempts E (cfg s) fates (reaped E (cfg s) w)) = (Ret (), w')
     \<and> (restored (cfg s) w0 w' \<or> untouched (cfg s) w0 w')"
proof (rule revert_completes [OF assms(2-5) _ assms(8)])
  show "revertible E (cfg s) w0 w"
    using Start_recoverable [OF assms(1,2,3,5)] assms(6,7) by (auto simp: revertible_def)
qed

theorem crash_recovery_witness:
  "\<exists>s' w w'. Start (ref_env (kill_at 27)) (new_session demo_config, demo_world) = (Dead, (s', w))
     \<and> ouf_panic (with_fate (ref_env (kill_at 27)) no_faults) (StateDir demo_config) (ResolvPath demo_config)
        (panic_attempts (ref_env (kill_at 27)) demo_config [kill_at 1, kill_at 44] (reaped (ref_env (kill_at 27)) demo_config w))
        = (Ret (), w')
     \<and> (restored demo_config demo_world w' \<or> untouched demo_config demo_world w')"
proof -
  obtain s' w where run: "Start (ref_env (kill_at 27)) (new_session demo_config, demo_world) = (Dead, (s', w))"
    using demo_start_dies by (metis prod.collapse)
  have kills: "list_all kills_only [kill_at 1, kill_at 44]" by (simp add: kills_only_def kill_at_def)
  show ?thesis
    using crash_recovery [OF demo_New _ ref_lawful ref_tools _ run _ kills, unfolded new_session_cfg,
      OF demo_config_ok demo_clean] run by simp
qed

section \<open>Failing\<close>



end
