(* ===== verification/RunLogic.thy ===== *)
theory RunLogic
  imports SessionRuns
begin

text \<open>
  Runs that go through. \<open>runs b m I J\<close> has two readings: with \<open>b\<close> false, whenever \<open>m\<close>
  started in \<open>I\<close> returns, it ends in \<open>J\<close>, whatever fails on other runs; with \<open>b\<close> true, it
  does return. One derivation gives both: a step owes its success only when \<open>b\<close> holds.
\<close>

definition smooth :: "env \<Rightarrow> bool" where
  "smooth E \<longleftrightarrow> (\<forall>t. fate E t = Proceed)"

definition runs :: "bool \<Rightarrow> ('s, 'e, 'a) act \<Rightarrow> ('s \<Rightarrow> bool) \<Rightarrow> ('a \<Rightarrow> 's \<Rightarrow> bool) \<Rightarrow> bool" where
  "runs b m I J \<longleftrightarrow> (\<forall>s. I s \<longrightarrow> wp m J (\<lambda>_ _. \<not> b) (\<lambda>_. \<not> b) s)"

named_theorems run_intros \<open>one rule per combinator and per step\<close>

lemma runsI: "(\<And>s. I s \<Longrightarrow> wp m J (\<lambda>_ _. \<not> b) (\<lambda>_. \<not> b) s) \<Longrightarrow> runs b m I J"
  by (simp add: runs_def)

lemma runsD: "runs b m I J \<Longrightarrow> I s \<Longrightarrow> wp m J (\<lambda>_ _. \<not> b) (\<lambda>_. \<not> b) s"
  by (simp add: runs_def)

lemma runs_ret: "(\<And>s. I s \<Longrightarrow> J a s) \<Longrightarrow> runs b (ret a) I J"
  by (simp add: runs_def wp_ret)

lemma runs_throw: "\<not> b \<Longrightarrow> runs b (throw e) I J"
  by (simp add: runs_def wp_throw)

lemma runs_bind: "runs b m I K \<Longrightarrow> (\<And>a. runs b (f a) (K a) J) \<Longrightarrow> runs b (bindA m f) I J"
  unfolding runs_def wp_bind by (blast intro: wp_mono)

lemma runs_mapE: "runs b m I J \<Longrightarrow> runs b (mapE g m) I J"
  by (simp add: runs_def wp_mapE)

lemma wp_True: "wp m (\<lambda>_ _. True) (\<lambda>_ _. True) (\<lambda>_. True) s"
  by (simp add: wp_def split: prod.split outcome.split)

lemma runs_onErr: "runs b m I J \<Longrightarrow> runs b (onErr h m) I J"
  unfolding runs_def wp_onErr by (cases b) (auto intro: wp_mono simp: wp_True)

lemma runs_Nil: "(\<And>s. I s \<Longrightarrow> J () s) \<Longrightarrow> runs b (seqA []) I J"
  by (simp add: runs_def wp_ret)

lemma runs_Cons: "runs b m I (\<lambda>_. K) \<Longrightarrow> runs b (seqA ms) K J \<Longrightarrow> runs b (seqA (m # ms)) I J"
  using runs_bind [of b m I "\<lambda>_. K" "\<lambda>_. seqA ms" J] by simp

lemma runs_append: "runs b (seqA xs) I (\<lambda>_. K) \<Longrightarrow> runs b (seqA ys) K J \<Longrightarrow> runs b (seqA (xs @ ys)) I J"
  unfolding runs_def wp_seq_append by (blast intro: wp_mono)

lemma runs_weaken: "runs b m I J \<Longrightarrow> (\<And>s. I' s \<Longrightarrow> I s) \<Longrightarrow> (\<And>a s. J a s \<Longrightarrow> J' a s) \<Longrightarrow> runs b m I' J'"
  unfolding runs_def by (blast intro: wp_mono)

lemma runs_pure: "(P \<Longrightarrow> runs b m I J) \<Longrightarrow> runs b m (\<lambda>s. P \<and> I s) J"
  by (simp add: runs_def)

lemma runs_ex: "(\<And>x. runs b m (I x) J) \<Longrightarrow> runs b m (\<lambda>s. \<exists>x. I x s) J"
  by (auto simp: runs_def)

lemma runs_sys:
  assumes "b \<Longrightarrow> smooth E"
    and "\<And>w. I w \<Longrightarrow> case op (tick w) of (Inl e, _) \<Rightarrow> \<not> b | (Inr a, w2) \<Rightarrow> J a w2"
  shows "runs b (sys E part op) I J"
proof (rule runsI)
  fix w assume "I w"
  from assms(2) [OF this] assms(1)
  show "wp (sys E part op) J (\<lambda>_ _. \<not> b) (\<lambda>_. \<not> b) w"
    by (cases b) (auto simp: wp_def sys_def smooth_def Let_def split: verdict.split prod.splits sum.splits)
qed

lemma runs_attempt_sys:
  assumes "b \<Longrightarrow> smooth E"
    and "\<And>w. I w \<Longrightarrow> case op (tick w) of (Inl e, w2) \<Rightarrow> J (Inl e) w2 | (Inr a, w2) \<Rightarrow> J (Inr a) w2"
    and "\<And>w n. \<not> b \<Longrightarrow> I w \<Longrightarrow> J (Inl EIO) (part n (tick w))"
  shows "runs b (attempt (sys E part op)) I J"
proof (rule runsI)
  fix w assume i: "I w"
  from assms(2) [OF i] assms(1) assms(3) [OF _ i]
  show "wp (attempt (sys E part op)) J (\<lambda>_ _. \<not> b) (\<lambda>_. \<not> b) w"
    by (cases b) (auto simp: wp_def sys_def attempt_def smooth_def Let_def split: verdict.split prod.splits sum.splits)
qed

section \<open>The host during a start\<close>

definition own_files :: "config \<Rightarrow> path set" where
  "own_files c = {backup_path (StateDir c), snap_path c, snap_path c @ ''.tmp'', resolv_tmp c}"

definition own_dirs :: "config \<Rightarrow> path set" where
  "own_dirs c = {StateDir c, filepath_join (StateDir c) BackupSubdir}"

definition tidy :: "config \<Rightarrow> world \<Rightarrow> bool" where
  "tidy c w \<longleftrightarrow> (\<forall>p \<in> own_files c. fs w p = None \<or> (\<exists>d m. fs w p = Some (File d m)))
     \<and> (\<forall>p \<in> own_dirs c. fs w p = None \<or> (\<exists>m. fs w p = Some (Dir m)))"

lemma tidy_same [simp]:
  "tidy c (w\<lparr>clock := k\<rparr>) = tidy c w" "tidy c (w\<lparr>net := n\<rparr>) = tidy c w" "tidy c (w\<lparr>sysctls := y\<rparr>) = tidy c w"
  by (simp_all add: tidy_def)

text \<open>Network and sysctls are known exactly, of \<open>resolv.conf\<close> what \<open>R\<close> says.\<close>

definition host_at :: "config \<Rightarrow> netstate \<Rightarrow> (gostring \<Rightarrow> gostring option) \<Rightarrow> (node option \<Rightarrow> bool) \<Rightarrow> world \<Rightarrow> bool" where
  "host_at c n y R w \<longleftrightarrow> tidy c w \<and> net w = n \<and> sysctls w = y \<and> R (fs w (ResolvPath c))"

lemma host_at_clock [simp]: "host_at c n y R (w\<lparr>clock := k\<rparr>) = host_at c n y R w"
  by (simp add: host_at_def)

lemma own_apart:
  assumes "config_ok c"
  shows "p \<in> own_files c \<Longrightarrow> p \<noteq> ResolvPath c" "p \<in> own_dirs c \<Longrightarrow> p \<noteq> ResolvPath c"
    "p \<in> own_files c \<Longrightarrow> q \<in> own_dirs c \<Longrightarrow> p \<noteq> q"
proof -
  have r: "ResolvPath c \<notin> snap_files c" "resolv_tmp c \<notin> snap_files c" using assms by (auto simp: config_ok_def)
  then show "p \<in> own_files c \<Longrightarrow> p \<noteq> ResolvPath c" "p \<in> own_dirs c \<Longrightarrow> p \<noteq> ResolvPath c"
    by (auto simp: own_files_def own_dirs_def snap_files_def resolv_tmp_def)
  have "snap_path c @ ''.tmp'' \<notin> own_dirs c"
    by (auto simp: own_dirs_def snap_path_def filepath_join_def BackupSubdir_def SnapshotFile_def)
  then show "p \<in> own_files c \<Longrightarrow> q \<in> own_dirs c \<Longrightarrow> p \<noteq> q"
    using r(2) by (auto simp: own_files_def own_dirs_def snap_files_def)
qed

lemma host_at_file:
  assumes "config_ok c" "p \<in> own_files c" "nd = None \<or> (\<exists>d m. nd = Some (File d m))" "host_at c n y R w"
  shows "host_at c n y R (set_node p nd w)"
  using assms(3,4) own_apart(1) [OF assms(1,2)] own_apart(3) [OF assms(1,2)]
  by (auto simp: host_at_def tidy_def)

lemma host_at_dir:
  assumes "config_ok c" "p \<in> own_dirs c" "host_at c n y R w"
  shows "host_at c n y R (set_node p (Some (Dir m)) w)"
  using assms(3) own_apart(2) [OF assms(1,2)] own_apart(3) [OF assms(1) _ assms(2)]
  by (auto simp: host_at_def tidy_def)

lemma host_at_resolv:
  assumes "config_ok c" "R nd" "host_at c n y R' w"
  shows "host_at c n y R (set_node (ResolvPath c) nd w)"
  using assms(2,3) own_apart(1) [OF assms(1)] own_apart(2) [OF assms(1)]
  by (auto simp: host_at_def tidy_def)

section \<open>File operations on own files\<close>

abbreviation there :: "path \<Rightarrow> world \<Rightarrow> bool" where
  "there p w \<equiv> fs w p \<noteq> None"

lemma runs_fd_call: "(b \<Longrightarrow> smooth E) \<Longrightarrow> (\<And>w k. I w \<Longrightarrow> J () (w\<lparr>clock := k\<rparr>)) \<Longrightarrow> runs b (os_fd_call E p) I J"
  unfolding os_fd_call_def by (rule runs_sys) auto

lemma runs_open_trunc:
  assumes "b \<Longrightarrow> smooth E" "config_ok c" "p \<in> own_files c"
  shows "runs b (os_open_trunc E p m) (host_at c n y R) (\<lambda>_ w. host_at c n y R w \<and> there p w)"
  unfolding os_open_trunc_def
proof (rule runs_sys)
  fix w assume h: "host_at c n y R w"
  then have "fs w p = None \<or> (\<exists>d m. fs w p = Some (File d m))" using assms(3) by (simp add: host_at_def tidy_def)
  with host_at_file [OF assms(2,3), of "Some (File (Bytes []) _)"] h
  show "case (case fs (tick w) p of
       None \<Rightarrow> (Inr (), set_node p (Some (File (Bytes []) m)) (tick w))
     | Some (File _ m') \<Rightarrow> (Inr (), set_node p (Some (File (Bytes []) m')) (tick w))
     | Some (Symlink _) \<Rightarrow> (Inl ELOOP, tick w)
     | Some (Dir _) \<Rightarrow> (Inl EINVAL, tick w)) of
     (Inl e, _) \<Rightarrow> \<not> b | (Inr a, w2) \<Rightarrow> host_at c n y R w2 \<and> there p w2"
    by auto
qed (rule assms(1))

lemma own_file_node:
  "host_at c n y R w \<Longrightarrow> p \<in> own_files c \<Longrightarrow> there p w \<Longrightarrow> \<exists>d m. fs w p = Some (File d m)"
proof -
  assume "host_at c n y R w" and p: "p \<in> own_files c" "there p w"
  then have "\<forall>p \<in> own_files c. fs w p = None \<or> (\<exists>d m. fs w p = Some (File d m))"
    by (simp add: host_at_def tidy_def)
  from bspec [OF this p(1)] p(2) show ?thesis by simp
qed

lemma runs_write:
  assumes "b \<Longrightarrow> smooth E" "config_ok c" "p \<in> own_files c"
  shows "runs b (os_write E p d) (\<lambda>w. host_at c n y R w \<and> there p w) (\<lambda>_ w. host_at c n y R w \<and> there p w)"
  unfolding os_write_def
proof (rule runs_sys)
  fix w assume h: "host_at c n y R w \<and> there p w"
  then obtain d' m where "fs w p = Some (File d' m)" using assms(3) own_file_node by blast
  with host_at_file [OF assms(2,3), of "Some (File d m)"] h
  show "case (Inr (), put_data p d (tick w)) of (Inl e, _) \<Rightarrow> \<not> b | (Inr a, w2) \<Rightarrow> host_at c n y R w2 \<and> there p w2"
    by (auto simp: fs_put_same)
qed (rule assms(1))

lemma runs_rename:
  assumes "b \<Longrightarrow> smooth E" "config_ok c" "p \<in> own_files c" "q \<in> own_files c" "p \<noteq> q"
  shows "runs b (os_rename E p q) (\<lambda>w. host_at c n y R w \<and> there p w) (\<lambda>_. host_at c n y R)"
  unfolding os_rename_def
proof (rule runs_sys)
  fix w assume h: "host_at c n y R w \<and> there p w"
  then obtain d m where p: "fs w p = Some (File d m)" using assms(3) own_file_node by blast
  have q: "fs w q = None \<or> (\<exists>d m. fs w q = Some (File d m))" using h assms(4) by (auto simp: host_at_def tidy_def)
  have "host_at c n y R (set_node q (Some (File d m)) (set_node p None (tick w)))"
    using h by (intro host_at_file [OF assms(2,4)] host_at_file [OF assms(2,3)]) auto
  with p q show "case (case fs (tick w) p of
       None \<Rightarrow> (Inl ENOENT, tick w)
     | Some n \<Rightarrow> (case fs (tick w) q of
           Some (Dir _) \<Rightarrow> (Inl EEXIST, tick w)
         | _ \<Rightarrow> (Inr (), set_node q (Some n) (set_node p None (tick w))))) of
     (Inl e, _) \<Rightarrow> \<not> b | (Inr a, w2) \<Rightarrow> host_at c n y R w2"
    by auto
qed (rule assms(1))

lemma runs_mkdir:
  assumes "b \<Longrightarrow> smooth E" "config_ok c" "p \<in> own_dirs c"
  shows "runs b (os_mkdir_all E p m) (host_at c n y R) (\<lambda>_. host_at c n y R)"
  unfolding os_mkdir_all_def
proof (rule runs_sys)
  fix w assume h: "host_at c n y R w"
  then have "fs w p = None \<or> (\<exists>m. fs w p = Some (Dir m))" using assms(3) by (simp add: host_at_def tidy_def)
  with host_at_dir [OF assms(2,3)] h
  show "case (case fs (tick w) p of
       None \<Rightarrow> (Inr (), set_node p (Some (Dir m)) (tick w))
     | Some (Dir _) \<Rightarrow> (Inr (), tick w)
     | Some _ \<Rightarrow> (Inl ENOTDIR, tick w)) of (Inl e, _) \<Rightarrow> \<not> b | (Inr a, w2) \<Rightarrow> host_at c n y R w2"
    by auto
qed (rule assms(1))

lemma runs_Persist:
  assumes e: "b \<Longrightarrow> smooth E" and c: "config_ok c" and v: "stateDir v = StateDir c"
  shows "runs b (Persist E v) (host_at c n y R) (\<lambda>_. host_at c n y R)"
proof -
  have dir: "StateDir c \<noteq> []" using c by (simp add: config_ok_def)
  have own: "snap_path c \<in> own_files c" "snap_path c @ ''.tmp'' \<in> own_files c" by (simp_all add: own_files_def)
  show ?thesis
    unfolding Persist_def Let_def v snap_path_join [OF dir]
    by (rule runs_Cons [OF runs_mapE [OF runs_open_trunc [OF e c own(2)]]]
        runs_Cons [OF runs_onErr [OF runs_mapE [OF runs_write [OF e c own(2)]]]]
        runs_Cons [OF runs_onErr [OF runs_mapE [OF runs_fd_call [OF e, where J = "\<lambda>_ w. host_at c n y R w \<and> there (snap_path c @ ''.tmp'') w"]]]]
        runs_Cons [OF runs_onErr [OF runs_mapE [OF runs_rename [OF e c own(2,1)]]]] runs_Nil | simp)+
qed

end
