(* ===== verification/StartRuns.thy ===== *)
theory StartRuns
  imports RunLogic
begin

text \<open>
  What a start that returns has done to the host, and when it does return. The host's state
  is followed step by step: the network, the sysctls and \<open>resolv.conf\<close>.
\<close>

section \<open>Steps of a session\<close>

definition sess_at :: "config \<Rightarrow> netstate \<Rightarrow> (gostring \<Rightarrow> gostring option) \<Rightarrow> (node option \<Rightarrow> bool)
    \<Rightarrow> tun_device option \<Rightarrow> gostring option \<Rightarrow> session \<times> world \<Rightarrow> bool" where
  "sess_at c n y R t ip = (\<lambda>(s, w). cfg s = c \<and> (\<exists>v. wr s = Some v \<and> stateDir v = StateDir c)
     \<and> tun s = t \<and> svrIP s = ip \<and> host_at c n y R w)"

lemma runs_onW_gen:
  assumes "runs b m W W'" "\<And>sw. S sw \<Longrightarrow> W (snd sw)" "\<And>s w w' a. S (s, w) \<Longrightarrow> W' a w' \<Longrightarrow> S' a (s, w')"
  shows "runs b (onW m) S S'"
proof (rule runsI)
  fix sw assume i: "S sw"
  from runsD [OF assms(1) assms(2) [OF i]] show "wp (onW m) S' (\<lambda>_ _. \<not> b) (\<lambda>_. \<not> b) sw"
    unfolding wp_onW by (rule wp_mono) (use i assms(3) [of "fst sw" "snd sw"] in auto)
qed

lemma runs_onW:
  assumes "runs b m (host_at c n y R) (\<lambda>a w. P a \<and> host_at c n' y' (R' a) w)"
  shows "runs b (onW m) (sess_at c n y R t ip) (\<lambda>a sw. P a \<and> sess_at c n' y' (R' a) t ip sw)"
  by (rule runs_onW_gen [OF assms]) (auto simp: sess_at_def)

lemma runs_onW':
  assumes "runs b m (host_at c n y R) (\<lambda>_. host_at c n' y' R')"
  shows "runs b (onW m) (sess_at c n y R t ip) (\<lambda>_. sess_at c n' y' R' t ip)"
  by (rule runs_onW_gen [OF assms]) (auto simp: sess_at_def)

lemma runs_writer:
  assumes "\<And>v. stateDir (f v) = stateDir v"
  shows "runs b (on_writer f) (sess_at c n y R t ip) (\<lambda>_. sess_at c n y R t ip)"
  by (rule runsI) (use assms in \<open>auto simp: wp_on_writer sess_at_def\<close>)

lemma runs_markdone: "runs b markLastActionDone (sess_at c n y R t ip) (\<lambda>_. sess_at c n y R t ip)"
  unfolding markLastActionDone_def by (rule runs_writer) (rule MarkLastDone_snap(5))

lemma runs_append_action: "runs b (on_writer (AppendAction a)) (sess_at c n y R t ip) (\<lambda>_. sess_at c n y R t ip)"
  by (rule runs_writer) simp

lemma runs_persist:
  assumes "b \<Longrightarrow> smooth E" "config_ok c"
  shows "runs b (persist_snap E) (sess_at c n y R t ip) (\<lambda>_. sess_at c n y R t ip)"
proof (rule runsI)
  fix sw assume i: "sess_at c n y R t ip sw"
  then obtain v where v: "wr (fst sw) = Some v" "stateDir v = StateDir c" by (auto simp: sess_at_def)
  from runsD [OF runs_onW' [OF runs_Persist [OF assms(1,2) v(2)]] i]
  show "wp (persist_snap E) (\<lambda>_. sess_at c n y R t ip) (\<lambda>_ _. \<not> b) (\<lambda>_. \<not> b) sw"
    unfolding persist_snap_def wp_with_writer v(1) option.case by simp
qed

lemma runs_update:
  "(\<And>s. cfg (f s) = cfg s \<and> wr (f s) = wr s) \<Longrightarrow> (\<And>s. tun s = t \<Longrightarrow> tun (f s) = t') \<Longrightarrow>
     (\<And>s. svrIP s = ip \<Longrightarrow> svrIP (f s) = ip') \<Longrightarrow>
     runs b (update f) (sess_at c n y R t ip) (\<lambda>_. sess_at c n y R t' ip')"
  by (auto simp: runs_def wp_update sess_at_def)

lemma runs_session:
  "(\<And>s. cfg s = c \<Longrightarrow> tun s = t \<Longrightarrow> svrIP s = ip \<Longrightarrow> runs b (f s) (sess_at c n y R t ip) J) \<Longrightarrow>
     runs b (with_session f) (sess_at c n y R t ip) J"
  by (auto simp: runs_def wp_with_session sess_at_def)

lemma runs_net:
  assumes "b \<Longrightarrow> smooth E" "b \<Longrightarrow> \<exists>n'. f n = Inr n'" "\<And>n'. f n = Inr n' \<Longrightarrow> n' = n2"
  shows "runs b (net_call E f) (host_at c n y R) (\<lambda>_. host_at c n2 y R)"
  unfolding net_call_def
  by (rule runs_sys) (use assms in \<open>auto simp: host_at_def split: sum.split\<close>)

section \<open>IPv6 and the device\<close>

lemma runs_writeIPv6:
  assumes "b \<Longrightarrow> smooth E" "y IPv6DisableSysctlKey \<noteq> None"
  shows "runs b (writeIPv6Disabled E ''1'') (host_at c n y R)
     (\<lambda>_. host_at c n (y(IPv6DisableSysctlKey \<mapsto> ''1'')) R)"
  unfolding writeIPv6Disabled_def sysctl_key sysctl_write_def
  using assms by (auto intro!: runs_mapE runs_sys simp: host_at_def)

text \<open>What a kernel does whose resources are free: it accepts what is not there yet.\<close>

definition obliging :: "env \<Rightarrow> config \<Rightarrow> bool" where
  "obliging E c \<longleftrightarrow>
     (\<forall>n. TunName c \<notin> links n \<longrightarrow> (\<exists>n'. tun_open E (TunName c) n = Inr n'))
   \<and> (\<forall>n. TunName c \<in> links n \<longrightarrow> addr_add E (TunName c) (TunIP c) n \<and> link_set_up E (TunName c) n)
   \<and> (\<forall>r n. r \<notin> routes n \<longrightarrow> (\<exists>n'. route_add E r n = Inr n'))
   \<and> (\<forall>r n. r \<notin># rules n \<longrightarrow> (\<exists>n'. rule_add E r n = Inr n'))"

definition up_link :: "config \<Rightarrow> netstate \<Rightarrow> netstate" where
  "up_link c n = n\<lparr>links := insert (TunName c) (links n)\<rparr>"

definition our_device :: "config \<Rightarrow> tun_device" where
  "our_device c = \<lparr>ifname = TunName c, fd_open = True\<rparr>"

lemma runs_link_show:
  assumes "b \<Longrightarrow> smooth E" "x \<in> links n"
  shows "runs b (link_show E x) (host_at c n y R) (\<lambda>_. host_at c n y R)"
  unfolding link_show_def by (rule runs_sys) (use assms in \<open>auto simp: host_at_def\<close>)

lemma runs_newTunDevice:
  assumes e: "b \<Longrightarrow> smooth E" and law: "lawful_kernel E" and free: "TunName c \<notin> links n"
    and ok: "b \<Longrightarrow> obliging E c" "b \<Longrightarrow> parse_ipnet E (TunIP c @ ''/32'') \<noteq> None"
      "b \<Longrightarrow> TunIP c \<noteq> []" "TunName c \<noteq> []"
  shows "runs b (newTunDevice E (TunName c) (TunIP c)) (host_at c n y R)
     (\<lambda>d w. d = our_device c \<and> host_at c (up_link c n) y R w)"
proof (cases "TunIP c = []")
  case True
  with ok(3,4) show ?thesis by (auto simp: newTunDevice_def intro: runs_throw)
next
  case False
  let ?n = "up_link c n" and ?J = "\<lambda>_::unit. host_at c (up_link c n) y R"
  have "runs b (net_call E (tun_open E (TunName c))) (host_at c n y R) ?J"
    by (rule runs_net [OF e]) (use ok(1) free lawful_tun_open [OF law] in \<open>auto simp: obliging_def up_link_def\<close>)
  moreover have "runs b (link_show E (TunName c)) (host_at c ?n y R) ?J"
    by (rule runs_link_show [OF e]) (simp_all add: up_link_def)
  moreover have "runs b (net_call E (\<lambda>n. if addr_add E (TunName c) (TunIP c) n then Inr n else Inl EINVAL))
      (host_at c ?n y R) ?J"
    "runs b (net_call E (\<lambda>n. if link_set_up E (TunName c) n then Inr n else Inl EINVAL)) (host_at c ?n y R) ?J"
    by (rule runs_net [OF e]; use ok(1) in \<open>auto simp: obliging_def up_link_def split: if_splits\<close>)+
  ultimately show ?thesis
    unfolding newTunDevice_def using ok(2,4) False
    by (auto intro!: runs_bind [where K = ?J] runs_Cons [where K = "?J ()"] runs_Nil runs_mapE runs_onErr
        runs_throw runs_ret simp: our_device_def simp del: seqA.simps)
qed

section \<open>Routes and rules\<close>

lemma runs_record:
  assumes "b \<Longrightarrow> smooth E" "config_ok c"
    and "runs b m (host_at c n y R) (\<lambda>_. host_at c n' y R)"
  shows "runs b (seqA [on_writer (AppendAction a), mapE RouteSnap (persist_snap E), mapE g (onW m),
     markLastActionDone, mapE RouteSnap (persist_snap E)]) (sess_at c n y R t ip) (\<lambda>_. sess_at c n' y R t ip)"
  by (rule runs_Cons [OF runs_append_action] runs_Cons [OF runs_mapE [OF runs_persist [OF assms(1,2)]]]
      runs_Cons [OF runs_mapE [OF runs_onW' [OF assms(3)]]] runs_Cons [OF runs_markdone] runs_Nil | assumption)+

lemma runs_add_route:
  assumes "b \<Longrightarrow> smooth E" "config_ok c" "lawful_kernel E" "b \<Longrightarrow> obliging E c" "b \<Longrightarrow> r \<notin> routes n"
  shows "runs b (add_route E r spec) (sess_at c n y R t ip) (\<lambda>_. sess_at c (n\<lparr>routes := insert r (routes n)\<rparr>) y R t ip)"
  unfolding add_route_def
  by (rule runs_record [OF assms(1,2)], assumption, rule runs_net)
    (use assms lawful_route_add [OF assms(3)] in \<open>auto simp: obliging_def\<close>)

lemma runs_add_rule:
  assumes "b \<Longrightarrow> smooth E" "config_ok c" "lawful_kernel E" "b \<Longrightarrow> obliging E c" "b \<Longrightarrow> r \<notin># rules n"
  shows "runs b (add_rule E r spec) (sess_at c n y R t ip) (\<lambda>_. sess_at c (n\<lparr>rules := add_mset r (rules n)\<rparr>) y R t ip)"
  unfolding add_rule_def
  by (rule runs_record [OF assms(1,2)], assumption, rule runs_net)
    (use assms lawful_rule_add [OF assms(3)] in \<open>auto simp: obliging_def\<close>)

definition bypass_rule :: "env \<Rightarrow> config \<Rightarrow> nat \<times> gostring \<times> gostring \<Rightarrow> iprule" where
  "bypass_rule E c = (\<lambda>(i, cidr, desc). \<lparr>ru_priority = RoutingRulePriority c - 7 + int i, ru_table = 254,
     ru_to = snd (the (parse_ipnet E cidr))\<rparr>)"

lemma runs_bypasses:
  assumes e: "b \<Longrightarrow> smooth E" "config_ok c" "lawful_kernel E" "b \<Longrightarrow> obliging E c"
    and ok: "b \<Longrightarrow> \<forall>(i, cidr, desc) \<in> set xs. parse_ipnet E cidr \<noteq> None"
      "b \<Longrightarrow> \<forall>x \<in> set xs. \<forall>r. r \<in># rules n \<longrightarrow> ru_priority r \<noteq> RoutingRulePriority c - 7 + int (fst x)"
      "distinct (map fst xs)"
  shows "runs b (seqA (map (install_bypass E (RoutingRulePriority c) 7) xs)) (sess_at c n y R t ip)
     (\<lambda>_. sess_at c (n\<lparr>rules := rules n + mset (map (bypass_rule E c) xs)\<rparr>) y R t ip)"
  using ok
proof (induction xs arbitrary: n)
  case Nil
  show ?case using runs_Nil [of "sess_at c n y R t ip"] by simp
next
  case (Cons x xs)
  obtain i cidr desc where x: "x = (i, cidr, desc)" by (cases x) auto
  have pos: "\<not> RoutingRulePriority c - 7 + int i < 1" using e(2) by (simp add: config_ok_def)
  let ?r = "bypass_rule E c x" and ?n = "n\<lparr>rules := add_mset (bypass_rule E c x) (rules n)\<rparr>"
  have "runs b (install_bypass E (RoutingRulePriority c) 7 x) (sess_at c n y R t ip) (\<lambda>_. sess_at c ?n y R t ip)"
  proof (cases "parse_ipnet E cidr")
    case None
    with Cons.prems(1) x pos show ?thesis by (auto simp: install_bypass_def intro: runs_throw)
  next
    case (Some q)
    have r: "?r = \<lparr>ru_priority = RoutingRulePriority c - 7 + int i, ru_table = 254, ru_to = snd q\<rparr>"
      by (simp add: x bypass_rule_def Some)
    have "install_bypass E (RoutingRulePriority c) 7 x
        = add_rule E ?r (''to '' @ cidr @ '' lookup main (bypass '' @ desc @ '')'')"
      using Some pos unfolding r by (simp add: install_bypass_def x Let_def case_prod_beta)
    moreover have "b \<Longrightarrow> ?r \<notin># rules n" using Cons.prems(2) by (auto simp: x bypass_rule_def)
    ultimately show ?thesis using runs_add_rule [OF e] by simp
  qed
  moreover have "runs b (seqA (map (install_bypass E (RoutingRulePriority c) 7) xs)) (sess_at c ?n y R t ip)
     (\<lambda>_. sess_at c (?n\<lparr>rules := rules ?n + mset (map (bypass_rule E c) xs)\<rparr>) y R t ip)"
  proof (rule Cons.IH)
    show "\<forall>(i, cidr, desc) \<in> set xs. parse_ipnet E cidr \<noteq> None" if b using Cons.prems(1) [OF that] by simp
    show "distinct (map fst xs)" using Cons.prems(3) by simp
    show "\<forall>z \<in> set xs. \<forall>r. r \<in># rules ?n \<longrightarrow> ru_priority r \<noteq> RoutingRulePriority c - 7 + int (fst z)" if b
      using Cons.prems(2) [OF that] Cons.prems(3) by (auto simp: x bypass_rule_def)
  qed
  ultimately show ?case using runs_Cons by fastforce
qed

text \<open>The network of a running session.\<close>

definition session_net :: "env \<Rightarrow> config \<Rightarrow> gostring \<Rightarrow> netstate \<Rightarrow> netstate" where
  "session_net E c svr n = (let gw = the (parse_ipnet E (TunGatewayCIDR c)) in
     \<lparr>links = insert (TunName c) (links n),
      rules = rules n + mset (map (bypass_rule E c) (enumerate 0 (bypasses svr))) + {#catchall c#},
      routes = routes n \<union> {gateway_route c (TunName c) (snd gw), default_route c (TunName c) (fst gw)}\<rparr>)"

text \<open>What the third-party packages must make of the configuration for a connection.\<close>

definition usable :: "env \<Rightarrow> config \<Rightarrow> gostring \<Rightarrow> bool" where
  "usable E c svr \<longleftrightarrow> resolveShadowsocksServerIPv4 E (TransportURL c) = Inr svr
   \<and> stream_dialer E (TransportURL c) \<and> packet_listener E (TransportURL c) \<and> (\<forall>k < 4. sdk_ready E k)
   \<and> TunIP c \<noteq> [] \<and> parse_ipnet E (TunIP c @ ''/32'') \<noteq> None \<and> parse_ipnet E (TunGatewayCIDR c) \<noteq> None
   \<and> (\<forall>(cidr, desc) \<in> set (bypasses svr). parse_ipnet E cidr \<noteq> None)"

lemma runs_installRouting:
  assumes e: "b \<Longrightarrow> smooth E" "config_ok c" "lawful_kernel E" "b \<Longrightarrow> obliging E c"
    and h: "host_clean c w0" and ok: "b \<Longrightarrow> usable E c svr"
  shows "runs b (installRouting E) (sess_at c (up_link c (net w0)) y R (Some (our_device c)) (Some svr))
     (\<lambda>_. sess_at c (session_net E c svr (net w0)) y R (Some (our_device c)) (Some svr))"
  unfolding installRouting_def
proof (rule runs_session)
  fix s :: session assume s: "cfg s = c" "tun s = Some (our_device c)" "svrIP s = Some svr"
  let ?S = "\<lambda>n. sess_at c n y R (Some (our_device c)) (Some svr)" and ?n = "up_link c (net w0)"
  let ?bs = "enumerate 0 (bypasses svr)"
  show "runs b (let c = cfg s in
     case parse_ipnet E (TunGatewayCIDR c) of
       None \<Rightarrow> throw (ParseGateway (TunGatewayCIDR c))
     | Some (gwIP, gwNet) \<Rightarrow> (case tun s of
         Some d \<Rightarrow>
           (let bs = bypasses (case svrIP s of Some ip \<Rightarrow> ip | None \<Rightarrow> ''<nil>'') in seqA (
             [add_route E (gateway_route c (ifname d) gwNet)
                (gwNet @ '' dev '' @ TunName c @ '' scope link src '' @ TunIP c),
              add_route E (default_route c (ifname d) gwIP)
                (''default via '' @ gwIP @ '' dev '' @ TunName c)]
             @ map (install_bypass E (RoutingRulePriority c) (length bs)) (enumerate 0 bs)
             @ [add_rule E (catchall c) (''from all lookup '' @ dec_int (RoutingTableID c) @ '' (catchall)'')]))
       | None \<Rightarrow> nil_deref)) (?S ?n) (\<lambda>_. ?S (session_net E c svr (net w0)))"
  proof (cases "parse_ipnet E (TunGatewayCIDR c)")
    case None
    with ok have "\<not> b" by (auto simp: usable_def)
    with None s show ?thesis by (simp add: Let_def runs_throw)
  next
    case (Some gw)
    obtain gwIP gwNet where gw: "gw = (gwIP, gwNet)" by fastforce
    let ?r1 = "gateway_route c (TunName c) gwNet" and ?r2 = "default_route c (TunName c) gwIP"
    define n1 where "n1 = ?n\<lparr>routes := insert ?r1 (routes ?n)\<rparr>"
    define n2 where "n2 = n1\<lparr>routes := insert ?r2 (routes n1)\<rparr>"
    define n3 where "n3 = n2\<lparr>rules := rules n2 + mset (map (bypass_rule E c) ?bs)\<rparr>"
    have clean: "\<forall>r \<in> routes (net w0). rt_table r \<noteq> RoutingTableID c"
      "\<forall>r. r \<in># rules (net w0) \<longrightarrow> \<not> our_priority c (ru_priority r)" using h by (auto simp: host_clean_def)
    have r: "?r1 \<notin> routes ?n" "?r2 \<notin> routes n1"
      using clean(1) by (auto simp: up_link_def n1_def gateway_route_def default_route_def)
    have n2: "rules n2 = rules (net w0)" by (simp add: n1_def n2_def up_link_def)
    have mem: "z \<in> set (bypasses svr)" if "(i, z) \<in> set ?bs" for i z
      using that by (auto simp: in_set_enumerate_eq intro: nth_mem)
    have in7: "i < 7" if "(i, z) \<in> set ?bs" for i z using that by (auto simp: in_set_enumerate_eq)
    have prio: "our_priority c (RoutingRulePriority c - 7 + int i)" if "(i, z) \<in> set ?bs" for i z
      using in7 [OF that] by (simp add: our_priority_def)
    have bypass: "runs b (seqA (map (install_bypass E (RoutingRulePriority c) 7) ?bs)) (?S n2) (\<lambda>_. ?S n3)"
      unfolding n3_def
    proof (rule runs_bypasses [OF e])
      show "\<forall>(i, cidr, desc) \<in> set ?bs. parse_ipnet E cidr \<noteq> None" if b
        using ok [OF that] mem unfolding usable_def by blast
      show "\<forall>x \<in> set ?bs. \<forall>r. r \<in># rules n2 \<longrightarrow> ru_priority r \<noteq> RoutingRulePriority c - 7 + int (fst x)" if b
        unfolding n2 using clean(2) prio by (metis prod.collapse)
    qed simp_all
    have "catchall c \<notin># rules n3"
      using clean(2) by (auto simp: n3_def n2 catchall_def bypass_rule_def our_priority_def dest: in7)
    then have last: "runs b (add_rule E (catchall c) spec) (?S n3) (\<lambda>_. ?S (n3\<lparr>rules := add_mset (catchall c) (rules n3)\<rparr>))" for spec
      by (intro runs_add_rule [OF e])
    have net: "n3\<lparr>rules := add_mset (catchall c) (rules n3)\<rparr> = session_net E c svr (net w0)"
      by (simp add: session_net_def Some gw n3_def n2_def n1_def up_link_def insert_commute)
    have front: "runs b (seqA [add_route E ?r1 p, add_route E ?r2 q]) (?S ?n) (\<lambda>_. ?S n2)" for p q
    proof (rule runs_Cons)
      show "runs b (add_route E ?r1 p) (?S ?n) (\<lambda>_. ?S n1)"
        unfolding n1_def by (rule runs_add_route [OF e r(1)])
      show "runs b (seqA [add_route E ?r2 q]) (?S n1) (\<lambda>_. ?S n2)"
        unfolding n2_def by (rule runs_Cons [OF runs_add_route [OF e r(2)] runs_Nil])
    qed
    have tail: "runs b (seqA [add_rule E (catchall c) p]) (?S n3) (\<lambda>_. ?S (session_net E c svr (net w0)))" for p
      unfolding net [symmetric] by (rule runs_Cons [OF last runs_Nil])
    have dev: "ifname (our_device c) = TunName c" by (simp add: our_device_def)
    show ?thesis
      unfolding s Let_def Some gw option.case prod.case length_bypasses dev
      by (rule runs_append [OF front runs_append [OF bypass tail]])
  qed
qed

section \<open>resolv.conf\<close>

definition not_dir :: "node option \<Rightarrow> bool" where
  "not_dir r \<longleftrightarrow> (\<forall>m. r \<noteq> Some (Dir m))"

definition managed :: "config \<Rightarrow> node option \<Rightarrow> bool" where
  "managed c r \<longleftrightarrow> (\<exists>m. r = Some (File (Bytes (resolv_content (DNSServerIP c))) m))"

abbreviation holds :: "path \<Rightarrow> fdata \<Rightarrow> world \<Rightarrow> bool" where
  "holds p d w \<equiv> \<exists>m. fs w p = Some (File d m)"

text \<open>What a look at \<open>resolv.conf\<close> says about it.\<close>

definition seen :: "bool \<Rightarrow> oserr + node \<Rightarrow> node option \<Rightarrow> bool" where
  "seen b fi r \<longleftrightarrow> not_dir r \<and> (case fi of Inr nd \<Rightarrow> r = Some nd | Inl e \<Rightarrow> (if e = ENOENT then r = None else \<not> b))"

lemma runs_look:
  assumes "b \<Longrightarrow> smooth E"
  shows "runs b (attempt (os_lstat E (ResolvPath c))) (host_at c n y not_dir) (\<lambda>fi. host_at c n y (seen b fi))"
  unfolding os_lstat_def
  by (rule runs_attempt_sys)
    (use assms in \<open>auto simp: host_at_def seen_def not_dir_def split: option.split\<close>)

lemma runs_write_file:
  assumes e: "b \<Longrightarrow> smooth E" "config_ok c" and p: "p \<in> own_files c"
  shows "runs b (os_write_file E p d m) (host_at c n y R) (\<lambda>_ w. host_at c n y R w \<and> holds p (Bytes d) w)"
proof -
  have w: "runs b (os_write E p (Bytes d)) (\<lambda>w. host_at c n y R w \<and> there p w)
      (\<lambda>_ w. host_at c n y R w \<and> holds p (Bytes d) w)"
    unfolding os_write_def
  proof (rule runs_sys)
    fix w assume h: "host_at c n y R w \<and> there p w"
    then obtain d' k where f: "fs w p = Some (File d' k)" using own_file_node [OF _ p] by blast
    have "host_at c n y R (set_node p (Some (File (Bytes d) k)) (tick w))"
      using h by (intro host_at_file [OF e(2) p]) auto
    with f show "case (Inr (), put_data p (Bytes d) (tick w)) of (Inl e, _) \<Rightarrow> \<not> b
        | (Inr a, w2) \<Rightarrow> host_at c n y R w2 \<and> holds p (Bytes d) w2"
      by (simp add: fs_put_same)
  qed (rule e(1))
  have fd: "runs b (os_fd_call E p) (\<lambda>w. host_at c n y R w \<and> holds p (Bytes d) w)
      (\<lambda>_ w. host_at c n y R w \<and> holds p (Bytes d) w)"
    by (rule runs_fd_call [OF e(1)]) simp_all
  show ?thesis
    unfolding os_write_file_def
    by (rule runs_Cons [OF runs_open_trunc [OF e p] runs_Cons [OF runs_onErr [OF w] runs_Cons [OF fd runs_Nil]]])
qed

lemma runs_put_resolv:
  assumes e: "b \<Longrightarrow> smooth E" "config_ok c"
  shows "runs b (os_rename E (resolv_tmp c) (ResolvPath c))
     (\<lambda>w. host_at c n y not_dir w \<and> holds (resolv_tmp c) (Bytes (resolv_content (DNSServerIP c))) w)
     (\<lambda>_. host_at c n y (managed c))"
  unfolding os_rename_def
proof (rule runs_sys)
  fix w assume h: "host_at c n y not_dir w \<and> holds (resolv_tmp c) (Bytes (resolv_content (DNSServerIP c))) w"
  then obtain m where m: "fs w (resolv_tmp c) = Some (File (Bytes (resolv_content (DNSServerIP c))) m)" by blast
  have nd: "not_dir (fs w (ResolvPath c))" using h by (simp add: host_at_def)
  have "host_at c n y not_dir (set_node (resolv_tmp c) None (tick w))"
    using h by (intro host_at_file [OF e(2)]) (auto simp: own_files_def)
  then have "host_at c n y (managed c) (set_node (ResolvPath c)
      (Some (File (Bytes (resolv_content (DNSServerIP c))) m)) (set_node (resolv_tmp c) None (tick w)))"
    by (rule host_at_resolv [OF e(2), rotated]) (simp add: managed_def)
  with m nd show "case (case fs (tick w) (resolv_tmp c) of
       None \<Rightarrow> (Inl ENOENT, tick w)
     | Some n \<Rightarrow> (case fs (tick w) (ResolvPath c) of
           Some (Dir _) \<Rightarrow> (Inl EEXIST, tick w)
         | _ \<Rightarrow> (Inr (), set_node (ResolvPath c) (Some n) (set_node (resolv_tmp c) None (tick w))))) of
     (Inl e, _) \<Rightarrow> \<not> b | (Inr a, w2) \<Rightarrow> host_at c n y (managed c) w2"
    by (auto simp: not_dir_def split: option.split node.split)
qed (rule e(1))

lemma runs_unlink:
  assumes e: "b \<Longrightarrow> smooth E" "config_ok c"
  shows "runs b (case fi of
          Inr (Symlink _) \<Rightarrow> mapE UnlinkSymlink (onW (os_remove E (ResolvPath c)))
        | Inr _ \<Rightarrow> ret ()
        | Inl e \<Rightarrow> if e \<noteq> ENOENT then throw (LstatResolv e) else ret ())
     (sess_at c n y (seen b fi) t ip) (\<lambda>_. sess_at c n y not_dir t ip)"
proof -
  have weak: "sess_at c n y not_dir t ip sw" if "sess_at c n y (seen b fi) t ip sw" for sw
    using that by (auto simp: sess_at_def host_at_def seen_def)
  have rm: "runs b (os_remove E (ResolvPath c)) (host_at c n y (seen b (Inr (Symlink x)))) (\<lambda>_. host_at c n y not_dir)" for x
    unfolding os_remove_def
  proof (rule runs_sys)
    fix w assume h: "host_at c n y (seen b (Inr (Symlink x))) w"
    then have "fs w (ResolvPath c) = Some (Symlink x)" by (simp add: host_at_def seen_def)
    moreover have "host_at c n y not_dir (set_node (ResolvPath c) None (tick w))"
      by (rule host_at_resolv [OF e(2)]) (use h in \<open>auto simp: not_dir_def\<close>)
    ultimately show "case if fs (tick w) (ResolvPath c) = None then (Inl ENOENT, tick w)
       else (Inr (), set_node (ResolvPath c) None (tick w)) of (Inl e, _) \<Rightarrow> \<not> b
      | (Inr a, w2) \<Rightarrow> host_at c n y not_dir w2" by simp
  qed (rule e(1))
  have no: "\<not> b" if "sess_at c n y (seen b (Inl x)) t ip sw" "x \<noteq> ENOENT" for x sw
    using that by (auto simp: sess_at_def host_at_def seen_def)
  show ?thesis
  proof (cases fi)
    case (Inl x)
    show ?thesis
    proof (cases "x = ENOENT")
      case True
      with Inl weak show ?thesis by (simp add: runs_ret)
    next
      case False
      with Inl no show ?thesis by (auto simp: runs_def wp_throw)
    qed
  next
    case (Inr nd)
    with weak show ?thesis by (cases nd) (auto intro!: runs_ret runs_mapE runs_onW' [OF rm])
  qed
qed

lemma runs_writeResolvConf:
  assumes e: "b \<Longrightarrow> smooth E" "config_ok c"
  shows "runs b (writeResolvConf E) (sess_at c n y not_dir t ip) (\<lambda>_. sess_at c n y (managed c) t ip)"
  unfolding writeResolvConf_def
proof (rule runs_session)
  fix s :: session assume s: "cfg s = c"
  let ?S = "sess_at c n y not_dir t ip" and ?d = "resolv_content (DNSServerIP c)"
  let ?H = "\<lambda>sw. ?S sw \<and> holds (resolv_tmp c) (Bytes ?d) (snd sw)"
  have tmp: "resolv_tmp c \<in> own_files c" "ResolvPath c @ ''.ouf.tmp'' = resolv_tmp c"
    by (simp_all add: own_files_def resolv_tmp_def)
  have look: "runs b (onW (attempt (os_lstat E (ResolvPath c)))) ?S (\<lambda>fi. sess_at c n y (seen b fi) t ip)"
    by (rule runs_onW_gen [OF runs_look [OF e(1)]]) (auto simp: sess_at_def)
  have put: "runs b (onW (os_write_file E (resolv_tmp c) ?d mode_0644)) ?S (\<lambda>_. ?H)"
    by (rule runs_onW_gen [OF runs_write_file [OF e tmp(1)]]) (auto simp: sess_at_def)
  have move: "runs b (onW (os_rename E (resolv_tmp c) (ResolvPath c))) ?H (\<lambda>_. sess_at c n y (managed c) t ip)"
    by (rule runs_onW_gen [OF runs_put_resolv [OF e]]) (auto simp: sess_at_def)
  have steps: "runs b (seqA [
       (case fi of
          Inr (Symlink _) \<Rightarrow> mapE UnlinkSymlink (onW (os_remove E (ResolvPath c)))
        | Inr _ \<Rightarrow> ret ()
        | Inl e \<Rightarrow> if e \<noteq> ENOENT then throw (LstatResolv e) else ret ()),
       on_writer (AppendAction (ResolvWriteAction (ResolvPath c) (sha256 E ?d) False)),
       mapE ResolvSnap (persist_snap E),
       mapE WriteTmpResolv (onW (os_write_file E (resolv_tmp c) ?d mode_0644)),
       onErr (ignoreA (onW (os_remove E (resolv_tmp c)))) (mapE RenameResolv (onW (os_rename E (resolv_tmp c) (ResolvPath c)))),
       on_writer MarkLastDone,
       mapE ResolvSnap (persist_snap E)])
     (sess_at c n y (seen b fi) t ip) (\<lambda>_. sess_at c n y (managed c) t ip)" for fi
    by (rule runs_Cons [OF runs_unlink [OF e]] runs_Cons [OF runs_append_action]
        runs_Cons [OF runs_mapE [OF runs_persist [OF e]]] runs_Cons [OF runs_mapE [OF put]]
        runs_Cons [OF runs_onErr [OF runs_mapE [OF move]]]
        runs_Cons [OF runs_writer [of MarkLastDone]] runs_Nil MarkLastDone_snap(5) | assumption)+
  show "runs b (let resolv = ResolvPath (cfg s); content = resolv_content (DNSServerIP (cfg s));
         sha = sha256 E content; tmp = resolv @ ''.ouf.tmp'' in
     bindA (onW (attempt (os_lstat E resolv))) (\<lambda>fi.
     seqA [
       (case fi of
          Inr (Symlink _) \<Rightarrow> mapE UnlinkSymlink (onW (os_remove E resolv))
        | Inr _ \<Rightarrow> ret ()
        | Inl e \<Rightarrow> if e \<noteq> ENOENT then throw (LstatResolv e) else ret ()),
       on_writer (AppendAction (ResolvWriteAction resolv sha False)),
       mapE ResolvSnap (persist_snap E),
       mapE WriteTmpResolv (onW (os_write_file E tmp content mode_0644)),
       onErr (ignoreA (onW (os_remove E tmp))) (mapE RenameResolv (onW (os_rename E tmp resolv))),
       on_writer MarkLastDone,
       mapE ResolvSnap (persist_snap E)])) ?S (\<lambda>_. sess_at c n y (managed c) t ip)"
    unfolding s Let_def tmp(2) by (rule runs_bind [OF look steps])
qed

end
