(* ===== verification/StartWorks.thy ===== *)
theory StartWorks
  imports StartRuns Lives
begin

text \<open>
  \<open>Start\<close> as a whole: the recording half, the half that changes the host, and the two
  together, in the two readings of \<open>runs\<close>.
\<close>

section \<open>Recording\<close>

text \<open>Before the writer exists.\<close>

definition early_at :: "config \<Rightarrow> netstate \<Rightarrow> (gostring \<Rightarrow> gostring option) \<Rightarrow> session \<times> world \<Rightarrow> bool" where
  "early_at c n y = (\<lambda>(s, w). cfg s = c \<and> tun s = None \<and> svrIP s = None \<and> host_at c n y not_dir w)"

lemma runs_open:
  assumes "b \<Longrightarrow> smooth E" "\<And>w. I w \<Longrightarrow> \<exists>d m. fs w p = Some (File d m)" "\<And>w k. I w \<Longrightarrow> I (w\<lparr>clock := k\<rparr>)"
  shows "runs b (os_open E p) I (\<lambda>_. I)"
  unfolding os_open_def
proof (rule runs_sys)
  fix w assume i: "I w"
  from assms(2) [OF this] obtain d m where "fs w p = Some (File d m)" by blast
  with assms(3) [OF i] show "case (case follow 41 (fs (tick w)) p of Inl e \<Rightarrow> Inl e | Inr _ \<Rightarrow> Inr (), tick w) of
     (Inl e, _) \<Rightarrow> \<not> b | (Inr a, w2) \<Rightarrow> I w2" by simp
qed (rule assms(1))

lemma runs_read:
  assumes "b \<Longrightarrow> smooth E" "\<And>w. I w \<Longrightarrow> \<exists>d m. fs w p = Some (File d m)" "\<And>w k. I w \<Longrightarrow> I (w\<lparr>clock := k\<rparr>)"
  shows "runs b (os_read E p) I (\<lambda>_. I)"
  unfolding os_read_def
proof (rule runs_sys)
  fix w assume i: "I w"
  from assms(2) [OF this] obtain d m where "fs w p = Some (File d m)" by blast
  with assms(3) [OF i] show "case (case follow 41 (fs (tick w)) p of Inl e \<Rightarrow> Inl e
     | Inr (File d _) \<Rightarrow> Inr d | Inr _ \<Rightarrow> Inl EINVAL, tick w) of
     (Inl e, _) \<Rightarrow> \<not> b | (Inr a, w2) \<Rightarrow> I w2" by simp
qed (rule assms(1))

lemma runs_backup:
  assumes e: "b \<Longrightarrow> smooth E" "config_ok c"
  shows "runs b (copyFile E (ResolvPath c) (backup_path (StateDir c)) k) (host_at c n y (\<lambda>r. r = Some (File d m)))
     (\<lambda>_ w. host_at c n y (\<lambda>r. r = Some (File d m)) w \<and> there (backup_path (StateDir c)) w)"
proof -
  let ?R = "\<lambda>r. r = Some (File d m)" and ?b = "backup_path (StateDir c)"
  let ?H = "host_at c n y ?R" and ?B = "\<lambda>w. host_at c n y ?R w \<and> there ?b w"
  have own: "?b \<in> own_files c" by (simp add: own_files_def)
  have src: "\<exists>d m. fs w (ResolvPath c) = Some (File d m)" if "?H w" for w using that by (simp add: host_at_def)
  have copy: "runs b (bindA (os_read E (ResolvPath c)) (\<lambda>d. os_write E ?b d)) ?B (\<lambda>_. ?B)"
    by (rule runs_bind [OF runs_read [OF e(1)] runs_write [OF e own]]) (use src in auto)
  have fd: "runs b (os_fd_call E ?b) ?B (\<lambda>_. ?B)" by (rule runs_fd_call [OF e(1)]) auto
  have op: "runs b (os_open E (ResolvPath c)) ?H (\<lambda>_. ?H)" by (rule runs_open [OF e(1)]) (use src in auto)
  show ?thesis
    unfolding copyFile_def
    by (rule runs_Cons [OF op runs_Cons [OF runs_open_trunc [OF e own]
        runs_Cons [OF runs_onErr [OF copy] runs_Cons [OF runs_onErr [OF fd] runs_Cons [OF fd runs_Nil]]]]])
qed

lemma runs_hash:
  assumes e: "b \<Longrightarrow> smooth E" and p: "p \<in> own_files c"
  shows "runs b (hashFile E p) (\<lambda>w. host_at c n y R w \<and> there p w) (\<lambda>_. host_at c n y R)"
proof -
  let ?B = "\<lambda>w. host_at c n y R w \<and> there p w"
  have node: "\<exists>d m. fs w p = Some (File d m)" if "?B w" for w using that own_file_node [OF _ p] by blast
  have op: "runs b (os_open E p) ?B (\<lambda>_. ?B)" by (rule runs_open [OF e]) (use node in auto)
  have rd: "runs b (os_read E p) ?B (\<lambda>_. ?B)" by (rule runs_read [OF e]) (use node in auto)
  show ?thesis unfolding hashFile_def by (rule runs_bind [OF op runs_bind [OF rd runs_ret]]) simp
qed

lemma runs_RecordResolvConf:
  assumes e: "b \<Longrightarrow> smooth E" "config_ok c" and v: "stateDir v = StateDir c"
  shows "runs b (RecordResolvConf E (ResolvPath c) v) (host_at c n y not_dir)
     (\<lambda>v' w. stateDir v' = StateDir c \<and> host_at c n y not_dir w)"
  unfolding RecordResolvConf_def
proof (rule runs_bind [OF runs_look [OF e(1)]])
  fix fi
  let ?J = "\<lambda>v' w. stateDir v' = StateDir c \<and> host_at c n y not_dir w"
  have nd: "host_at c n y not_dir w" if "host_at c n y (seen b fi) w" for w
    using that by (simp add: host_at_def seen_def)
  have set: "stateDir (set_resolv r v) = StateDir c" for r by (simp add: v)
  have rl: "runs b (os_readlink E (ResolvPath c)) (host_at c n y (seen b (Inr (Symlink t)))) (\<lambda>_. host_at c n y not_dir)" for t
    unfolding os_readlink_def
    by (rule runs_sys) (use e(1) in \<open>auto simp: host_at_def seen_def\<close>)
  let ?F = "\<lambda>d m. host_at c n y (\<lambda>r. r = Some (File d m))"
  have plain_file: "runs b (bindA (mapE BackupFailed (copyFile E (ResolvPath c) (backup_path (stateDir v)) mode_0600)) (\<lambda>_.
         bindA (mapE HashFailed (hashFile E (backup_path (stateDir v)))) (\<lambda>sum.
         ret (set_resolv \<lparr>Existed = True, BackupPath = backup_path (stateDir v), WasSymlink = False,
           SymlinkTarget = [], SHA256Before = sum\<rparr> v)))) (host_at c n y (seen b (Inr (File d m)))) ?J" for d m
  proof -
    have own: "backup_path (StateDir c) \<in> own_files c" by (simp add: own_files_def)
    have fin: "runs b (ret (set_resolv r v)) (?F d m) ?J" for r
      by (rule runs_ret) (simp add: v host_at_def not_dir_def)
    have "runs b (bindA (mapE BackupFailed (copyFile E (ResolvPath c) (backup_path (stateDir v)) mode_0600)) (\<lambda>_.
         bindA (mapE HashFailed (hashFile E (backup_path (stateDir v)))) (\<lambda>sum.
         ret (set_resolv \<lparr>Existed = True, BackupPath = backup_path (stateDir v), WasSymlink = False,
           SymlinkTarget = [], SHA256Before = sum\<rparr> v)))) (?F d m) ?J"
      unfolding v by (rule runs_bind [OF runs_mapE [OF runs_backup [OF e]]
          runs_bind [OF runs_mapE [OF runs_hash [OF e(1) own]] fin]])
    then show ?thesis by (rule runs_weaken) (auto simp: host_at_def seen_def)
  qed
  show "runs b (case fi of
       Inl e \<Rightarrow> if e = ENOENT then ret (set_resolv no_resolv_conf v) else throw (LstatFailed e)
     | Inr (Symlink _) \<Rightarrow>
         bindA (mapE ReadlinkFailed (os_readlink E (ResolvPath c))) (\<lambda>tgt.
         ret (set_resolv \<lparr>Existed = True, BackupPath = [], WasSymlink = True, SymlinkTarget = tgt,
           SHA256Before = []\<rparr> v))
     | Inr _ \<Rightarrow>
         bindA (mapE BackupFailed (copyFile E (ResolvPath c) (backup_path (stateDir v)) mode_0600)) (\<lambda>_.
         bindA (mapE HashFailed (hashFile E (backup_path (stateDir v)))) (\<lambda>sum.
         ret (set_resolv \<lparr>Existed = True, BackupPath = backup_path (stateDir v), WasSymlink = False,
           SymlinkTarget = [], SHA256Before = sum\<rparr> v)))) (host_at c n y (seen b fi)) ?J"
  proof (cases fi)
    case (Inl x)
    show ?thesis
    proof (cases "x = ENOENT")
      case True
      with Inl nd set show ?thesis by (simp add: runs_ret)
    next
      case False
      then have "\<not> b" if "host_at c n y (seen b (Inl x)) w" for w using that by (auto simp: host_at_def seen_def)
      with Inl False show ?thesis by (auto simp: runs_def wp_throw)
    qed
  next
    case (Inr nd)
    show ?thesis
    proof (cases nd)
      case (Symlink t)
      show ?thesis unfolding Inr Symlink sum.case node.case
        by (rule runs_bind [OF runs_mapE [OF rl] runs_ret]) (simp add: v)
    next
      case (Dir m)
      have "\<not> host_at c n y (seen b (Inr (Dir m))) w" for w by (auto simp: host_at_def seen_def not_dir_def)
      then show ?thesis unfolding Inr Dir by (simp add: runs_def)
    qed (use Inr plain_file in simp)
  qed
qed

lemma runs_readIPv6:
  assumes "b \<Longrightarrow> smooth E" "y IPv6DisableSysctlKey \<in> {Some ''0'', Some ''1''}"
  shows "runs b (readIPv6Disabled E) (host_at c n y R) (\<lambda>_. host_at c n y R)"
proof -
  have rd: "runs b (os_read_proc E IPv6DisableProcFile) (host_at c n y R)
      (\<lambda>v w. v \<in> {''0'' @ [byte_of 10], ''1'' @ [byte_of 10]} \<and> host_at c n y R w)"
    unfolding os_read_proc_def sysctl_key
    by (rule runs_sys) (use assms in \<open>auto simp: host_at_def split: option.split\<close>)
  show ?thesis
    unfolding readIPv6Disabled_def
    by (rule runs_bind [OF runs_mapE [OF rd]]) (auto simp: runs_def wp_ret wp_throw trim_bit)
qed

lemma runs_record_rest:
  assumes e: "b \<Longrightarrow> smooth E" "config_ok c" and y: "y IPv6DisableSysctlKey \<in> {Some ''0'', Some ''1''}"
    and free: "TunName c \<notin> links n"
  shows "runs b (record_rest E c) (sess_at c n y not_dir t ip) (\<lambda>_. sess_at c n y not_dir t ip)"
proof -
  let ?S = "sess_at c n y not_dir t ip"
  have show_link: "runs b (onW (attempt (link_show E (TunName c)))) ?S (\<lambda>r sw. isl r \<and> ?S sw)"
    by (rule runs_onW_gen [where W = "host_at c n y not_dir" and W' = "\<lambda>r w. isl r \<and> host_at c n y not_dir w"])
      (use e(1) free in \<open>auto simp: link_show_def sess_at_def host_at_def intro!: runs_attempt_sys\<close>)
  have rec: "runs b (on_writer (RecordSysctl k v)) ?S (\<lambda>_. ?S)" for k v by (rule runs_writer) simp
  have test: "runs b (if \<not> isl r then seqA [on_writer (SetTunExisted True), throw (TunTaken (TunName c))]
       else ret ()) (\<lambda>sw. isl r \<and> ?S sw) (\<lambda>_. ?S)" for r :: "oserr + unit"
    by (rule runs_pure) (simp add: runs_ret)
  show ?thesis
    unfolding record_rest_def
    by (rule runs_Cons [OF runs_bind [OF runs_mapE [OF runs_onW' [OF runs_readIPv6 [where y = y, OF e(1) y]]] rec]
        runs_Cons [OF runs_bind [OF show_link test] runs_Cons [OF runs_mapE [OF runs_persist [OF e]] runs_Nil]]])
qed

lemma runs_start_record:
  assumes e: "b \<Longrightarrow> smooth E" "config_ok c" and h: "host_clean c w0" and t: "tidy c w0"
  shows "wp (start_record E) (\<lambda>_. sess_at c (net w0) (sysctls w0) not_dir None None) (\<lambda>_ _. \<not> b) (\<lambda>_. \<not> b)
     (new_session c, w0)"
proof -
  let ?n = "net w0" and ?y = "sysctls w0"
  let ?E0 = "early_at c ?n ?y" and ?S = "sess_at c ?n ?y not_dir None None" and ?H = "host_at c ?n ?y not_dir"
  have clean: "?y IPv6DisableSysctlKey \<in> {Some ''0'', Some ''1''}" "TunName c \<notin> links ?n" "fs w0 (snap_path c) = None"
    using h by (auto simp: host_clean_def)
  have snap: "StateDir c @ ''/'' @ SnapshotFile = snap_path c" by (simp add: snap_path_def)
  have dirs: "StateDir c \<in> own_dirs c" "filepath_join (StateDir c) BackupSubdir \<in> own_dirs c" by (simp_all add: own_dirs_def)
  have clock: "runs b get_clock ?H (\<lambda>_. ?H)" by (simp add: runs_def wp_get_clock)
  have new: "runs b (snapshot_New E (StateDir c) ms ver) ?H (\<lambda>v w. stateDir v = StateDir c \<and> ?H w)" for ms ver
    unfolding snapshot_New_def
    by (rule runs_bind [OF runs_mapE [OF runs_mkdir [OF e dirs(1)]]
        runs_bind [OF runs_mapE [OF runs_mkdir [OF e dirs(2)]] runs_bind [OF clock runs_ret]]]) simp_all
  have new': "runs b (onW (snapshot_New E (StateDir c) ms ver)) ?E0 (\<lambda>v sw. stateDir v = StateDir c \<and> ?E0 sw)" for ms ver
    by (rule runs_onW_gen [OF new]) (auto simp: early_at_def)
  have arm: "runs b (update (\<lambda>s. s\<lparr>wr := Some v\<rparr>)) (\<lambda>sw. stateDir v = StateDir c \<and> ?E0 sw)
      (\<lambda>_ sw. stateDir v = StateDir c \<and> ?S sw)" for v
    by (auto simp: runs_def wp_update early_at_def sess_at_def)
  have rearm: "runs b (update (\<lambda>s. s\<lparr>wr := Some v\<rparr>)) (\<lambda>sw. stateDir v = StateDir c \<and> ?S sw) (\<lambda>_. ?S)" for v
    by (auto simp: runs_def wp_update sess_at_def)
  have rec: "runs b (onW (RecordResolvConf E (ResolvPath c) v)) (\<lambda>sw. stateDir v = StateDir c \<and> ?S sw)
      (\<lambda>v' sw. stateDir v' = StateDir c \<and> ?S sw)" for v
    by (rule runs_pure, rule runs_onW_gen [OF runs_RecordResolvConf [OF e]]) (auto simp: sess_at_def)
  have all: "runs b (bindA (mapE InitSnapshot (onW (snapshot_New E (StateDir c) ms ver))) (\<lambda>v.
       bindA (update (\<lambda>s. s\<lparr>wr := Some v\<rparr>)) (\<lambda>_.
       bindA (mapE RecordResolv (onW (RecordResolvConf E (ResolvPath c) v))) (\<lambda>v1.
       bindA (update (\<lambda>s. s\<lparr>wr := Some v1\<rparr>)) (\<lambda>_.
       record_rest E c))))) ?E0 (\<lambda>_. ?S)" for ms ver
    by (rule runs_bind [OF runs_mapE [OF new'] runs_bind [OF arm runs_bind [OF runs_mapE [OF rec]
        runs_bind [OF rearm runs_record_rest [where y = ?y, OF e clean(1,2)]]]]])
  have nd: "not_dir (fs w0 (ResolvPath c))" using h by (auto simp: host_clean_def not_dir_def)
  have first: "runs b (onW (attempt (os_stat E (snap_path c)))) (\<lambda>sw. sw = (new_session c, w0)) (\<lambda>r sw. isl r \<and> ?E0 sw)"
  proof (rule runs_onW_gen)
    show "runs b (attempt (os_stat E (snap_path c))) (\<lambda>w. w = w0) (\<lambda>r w. isl r \<and> ?H w)"
      unfolding os_stat_def
      by (rule runs_attempt_sys)
        (use e(1) clean(3) nd t in \<open>auto simp: host_at_def dest!: follow_exists split: sum.split\<close>)
  qed (auto simp: early_at_def new_session_def)
  have test: "runs b (if \<not> isl st then throw (SnapshotExists q) else m) (\<lambda>sw. isl st \<and> ?E0 sw) J"
    if "runs b m ?E0 J" for st :: "oserr + node" and q J and m :: "(start_error, unit) sess_act"
    by (rule runs_pure) (simp add: that)
  have "runs b (bindA (onW (attempt (os_stat E (snap_path c)))) (\<lambda>st. if \<not> isl st then throw (SnapshotExists q)
     else bindA (mapE InitSnapshot (onW (snapshot_New E (StateDir c) ms ver))) (\<lambda>v.
       bindA (update (\<lambda>s. s\<lparr>wr := Some v\<rparr>)) (\<lambda>_.
       bindA (mapE RecordResolv (onW (RecordResolvConf E (ResolvPath c) v))) (\<lambda>v1.
       bindA (update (\<lambda>s. s\<lparr>wr := Some v1\<rparr>)) (\<lambda>_.
       record_rest E c)))))) (\<lambda>sw. sw = (new_session c, w0)) (\<lambda>_. ?S)" for q ms ver
    by (rule runs_bind [OF first test [OF all]])
  note go = runsD [OF this, OF refl]
  have cfg: "cfg (new_session c) = c" by (simp add: new_session_def)
  show ?thesis
    unfolding start_record_def Let_def wp_with_session fst_conv cfg snap by (rule go)
qed

section \<open>Changing the host\<close>

lemma usable_proxy: "usable E c svr \<Longrightarrow> newPacketProxy E (TransportURL c) \<noteq> Inl x"
  by (simp add: usable_def newPacketProxy_def)

lemma runs_lift:
  "(b \<Longrightarrow> r \<noteq> Inl (projl r)) \<Longrightarrow> (\<And>a s. r = Inr a \<Longrightarrow> I s \<Longrightarrow> J a s) \<Longrightarrow> runs b (lift_sum r) I J"
  by (cases r) (auto simp: runs_def wp_lift_sum)

text \<open>The session when the device is open and both copies run.\<close>

definition running :: "env \<Rightarrow> config \<Rightarrow> world \<Rightarrow> gostring \<Rightarrow> session \<times> world \<Rightarrow> bool" where
  "running E c w0 svr = (\<lambda>(s, w). resolveShadowsocksServerIPv4 E (TransportURL c) = Inr svr
     \<and> tun s = Some (our_device c) \<and> svrIP s = Some svr \<and> pumps s = 2
     \<and> net w = session_net E c svr (net w0) \<and> sysctls w = (sysctls w0)(IPv6DisableSysctlKey \<mapsto> ''1'')
     \<and> managed c (fs w (ResolvPath c)))"

lemma runs_start_mutate:
  assumes e: "b \<Longrightarrow> smooth E" "config_ok c" "lawful_kernel E" "b \<Longrightarrow> obliging E c"
    and h: "host_clean c w0" and svr: "svr = projr (resolveShadowsocksServerIPv4 E (TransportURL c))"
    and ok: "b \<Longrightarrow> usable E c svr"
  shows "runs b (start_mutate E) (sess_at c (net w0) (sysctls w0) not_dir None None) (\<lambda>_. running E c w0 svr)"
proof -
  let ?n = "net w0" and ?y = "(sysctls w0)(IPv6DisableSysctlKey \<mapsto> ''1'')"
  let ?res = "resolveShadowsocksServerIPv4 E (TransportURL c)"
  have clean: "sysctls w0 IPv6DisableSysctlKey \<noteq> None" "TunName c \<notin> links ?n" "TunName c \<noteq> []"
    using h e(2) by (auto simp: host_clean_def config_ok_def reserved_ifname_def)
  let ?S = "\<lambda>t ip. sess_at c ?n ?y not_dir t ip"
  have resolved: "runs b (bindA (mapE ResolveServer (lift_sum ?res)) (\<lambda>ip. update (\<lambda>s. s\<lparr>svrIP := Some ip\<rparr>)))
      (?S None None) (\<lambda>_ sw. ?res = Inr svr \<and> ?S None (Some svr) sw)"
  proof (rule runs_bind)
    show "runs b (mapE ResolveServer (lift_sum ?res)) (?S None None) (\<lambda>ip sw. ?res = Inr svr \<and> ip = svr \<and> ?S None None sw)"
    proof (rule runs_mapE, rule runs_lift)
      show "?res \<noteq> Inl (projl ?res)" if b
      proof -
        have "?res = Inr svr" using ok [OF that] unfolding usable_def by (elim conjE)
        then show ?thesis by simp
      qed
    qed (simp add: svr)
    show "runs b (update (\<lambda>s. s\<lparr>svrIP := Some ip\<rparr>)) (\<lambda>sw. ?res = Inr svr \<and> ip = svr \<and> ?S None None sw)
      (\<lambda>_ sw. ?res = Inr svr \<and> ?S None (Some svr) sw)" for ip
      by (auto simp: runs_def wp_update sess_at_def)
  qed
  have dial: "runs b (if stream_dialer E (TransportURL c) then ret () else throw BuildDialer) I (\<lambda>_. I)" for I
    using ok by (auto simp: usable_def intro: runs_ret runs_throw)
  have proxy: "runs b (bindA (mapE BuildProxy (lift_sum (newPacketProxy E (TransportURL c)))) (\<lambda>_. ret ())) I (\<lambda>_. I)" for I
    by (rule runs_bind [OF runs_mapE [OF runs_lift [where J = "\<lambda>_. I"]] runs_ret]) (use ok usable_proxy in auto)
  have lwip: "runs b (if sdk_ready E 3 then update (\<lambda>s. s\<lparr>device := True\<rparr>) else throw ConfigureLwip) (?S t ip) (\<lambda>_. ?S t ip)" for t ip
  proof (cases "sdk_ready E 3")
    case True
    then show ?thesis by (auto intro!: runs_update)
  next
    case False
    then have "\<not> b" using ok by (auto simp: usable_def)
    with False show ?thesis by (simp add: runs_throw)
  qed
  let ?U = "\<lambda>R. sess_at c (up_link c ?n) ?y R (Some (our_device c)) (Some svr)"
  have dev: "runs b (bindA (mapE CreateTunFailed (onW (newTunDevice E (TunName c) (TunIP c))))
         (\<lambda>d. update (\<lambda>s. s\<lparr>tun := Some d\<rparr>))) (?S None (Some svr)) (\<lambda>_. ?U not_dir)"
  proof (rule runs_bind [OF runs_mapE [OF runs_onW [OF runs_newTunDevice [OF e(1,3) clean(2) e(4)]]]])
    show "runs b (update (\<lambda>s. s\<lparr>tun := Some d\<rparr>)) (\<lambda>sw. d = our_device c \<and> sess_at c (up_link c ?n) ?y not_dir None (Some svr) sw)
      (\<lambda>_. ?U not_dir)" for d by (rule runs_pure) (auto intro!: runs_update)
  qed (use ok clean(3) in \<open>auto simp: usable_def\<close>)
  have routing: "runs b (installRouting E) (?U (managed c))
      (\<lambda>_. sess_at c (session_net E c svr ?n) ?y (managed c) (Some (our_device c)) (Some svr))"
    by (rule runs_installRouting [OF e h ok])
  have pump: "runs b (update (\<lambda>s. s\<lparr>pumps := 2\<rparr>)) (sess_at c (session_net E c svr ?n) ?y (managed c) (Some (our_device c)) (Some svr))
     (\<lambda>_. running E c w0 svr)" if "?res = Inr svr"
    using that by (auto simp: runs_def wp_update sess_at_def running_def host_at_def)
  have rest: "runs b (seqA [
       (if stream_dialer E (TransportURL c) then ret () else throw BuildDialer),
       bindA (mapE BuildProxy (lift_sum (newPacketProxy E (TransportURL c)))) (\<lambda>_. ret ()),
       (if sdk_ready E 3 then update (\<lambda>s. s\<lparr>device := True\<rparr>) else throw ConfigureLwip),
       bindA (mapE CreateTunFailed (onW (newTunDevice E (TunName c) (TunIP c))))
         (\<lambda>d. update (\<lambda>s. s\<lparr>tun := Some d\<rparr>)),
       on_writer (AppendAction (TunCreateAction (TunName c) True)),
       mapE StartSnap (persist_snap E),
       mapE WriteResolv (writeResolvConf E),
       mapE InstallRouting (installRouting E),
       update (\<lambda>s. s\<lparr>pumps := 2\<rparr>)]) (\<lambda>sw. ?res = Inr svr \<and> ?S None (Some svr) sw) (\<lambda>_. running E c w0 svr)"
    by (rule runs_pure, rule runs_Cons [OF dial runs_Cons [OF proxy runs_Cons [OF lwip runs_Cons [OF dev
        runs_Cons [OF runs_append_action runs_Cons [OF runs_mapE [OF runs_persist [OF e(1,2)]]
        runs_Cons [OF runs_mapE [OF runs_writeResolvConf [OF e(1,2)]] runs_Cons [OF runs_mapE [OF routing]
        runs_Cons [OF pump runs_Nil]]]]]]]]])
  have ipv6: "runs b (writeIPv6Disabled E ''1'') (host_at c ?n (sysctls w0) not_dir) (\<lambda>_. host_at c ?n ?y not_dir)"
    by (rule runs_writeIPv6 [where y = "sysctls w0", OF e(1) clean(1)])
  show ?thesis
    unfolding start_mutate_def Let_def
  proof (rule runs_session)
    fix s :: session assume s: "cfg s = c"
    show "runs b (seqA [
       mapE DisableIPv6 (onW (writeIPv6Disabled E ''1'')),
       on_writer (AppendAction (SysctlSetAction IPv6DisableSysctlKey ''1'' True)),
       mapE StartSnap (persist_snap E),
       bindA (mapE ResolveServer (lift_sum (resolveShadowsocksServerIPv4 E (TransportURL (cfg s)))))
         (\<lambda>ip. update (\<lambda>s. s\<lparr>svrIP := Some ip\<rparr>)),
       (if stream_dialer E (TransportURL (cfg s)) then ret () else throw BuildDialer),
       bindA (mapE BuildProxy (lift_sum (newPacketProxy E (TransportURL (cfg s))))) (\<lambda>_. ret ()),
       (if sdk_ready E 3 then update (\<lambda>s. s\<lparr>device := True\<rparr>) else throw ConfigureLwip),
       bindA (mapE CreateTunFailed (onW (newTunDevice E (TunName (cfg s)) (TunIP (cfg s)))))
         (\<lambda>d. update (\<lambda>s. s\<lparr>tun := Some d\<rparr>)),
       on_writer (AppendAction (TunCreateAction (TunName (cfg s)) True)),
       mapE StartSnap (persist_snap E),
       mapE WriteResolv (writeResolvConf E),
       mapE InstallRouting (installRouting E),
       update (\<lambda>s. s\<lparr>pumps := 2\<rparr>)]) (sess_at c ?n (sysctls w0) not_dir None None) (\<lambda>_. running E c w0 svr)"
      unfolding s
      by (rule runs_Cons [OF runs_mapE [OF runs_onW' [OF ipv6]] runs_Cons [OF runs_append_action
          runs_Cons [OF runs_mapE [OF runs_persist [OF e(1,2)]] runs_Cons [OF resolved rest]]]])
  qed
qed

lemma runs_Start:
  assumes e: "b \<Longrightarrow> smooth E" "config_ok c" "lawful_kernel E" "b \<Longrightarrow> obliging E c"
    and h: "host_clean c w0" "tidy c w0" and svr: "svr = projr (resolveShadowsocksServerIPv4 E (TransportURL c))"
    and ok: "b \<Longrightarrow> usable E c svr"
  shows "wp (Start E) (\<lambda>_. running E c w0 svr) (\<lambda>_ _. \<not> b) (\<lambda>_. \<not> b) (new_session c, w0)"
  unfolding Start_def wp_bind
  by (rule wp_mono [OF runs_start_record [OF e(1,2) h]])
    (auto intro!: runsD [OF runs_onErr [OF runs_start_mutate [OF e h(1) svr ok]]])

end
