(* ===== verification/SessionRound.thy ===== *)
theory SessionRound
  imports SessionProps StartWorks
begin

text \<open>
  The way out and back: what a started session has made of the host, when a start succeeds,
  and that closing it restores what was there.
\<close>

section \<open>A demonstration host on which a start succeeds\<close>

lemma ref_smooth: "smooth (ref_env no_faults)"
  by (simp add: smooth_def no_faults_def)

lemma ref_obliging: "obliging (ref_env f) c"
  by (simp add: obliging_def ref_env_def ref_tun_open_def ref_route_add_def ref_rule_add_def)

lemma demo_resolves: "resolveShadowsocksServerIPv4 (ref_env f) (TransportURL demo_config) = Inr ''1.1.1.1''"
  by (simp add: resolveShadowsocksServerIPv4_def demo_config_sel demo_url ref_env_def)

lemma demo_usable: "usable (ref_env f) demo_config ''1.1.1.1''"
  unfolding usable_def demo_resolves by (simp add: ref_env_def demo_config_sel case_prod_beta)

lemma demo_tidy: "tidy demo_config demo_world"
  by (simp add: tidy_def own_files_def own_dirs_def demo_world_def demo_config_sel snap_path_def resolv_tmp_def
      backup_path_def filepath_join_def BackupSubdir_def SnapshotFile_def)

section \<open>Starting\<close>

text \<open>C19. What a started session has done, whatever failed or might have failed on the way: the
  device is there, the seven bypass rules and the catch-all and the two routes have been added
  to what was there and nothing else, IPv6 is off, \<open>resolv.conf\<close> names the DNS server, both
  copies run, and the server's address is the one the resolver gave first.\<close>

theorem started_session:
  assumes "New c0 = Inr s" "config_ok (cfg s)" "lawful_kernel E" "host_clean (cfg s) w0" "tidy (cfg s) w0"
    "Start E (s, w0) = (Ret (), sw)"
  shows "\<exists>svr. running E (cfg s) w0 svr sw"
  using runs_Start [of False E "cfg s" w0, OF _ assms(2-3) _ assms(4,5) refl] assms(6)
    New_session [OF assms(1), symmetric]
  by (auto simp: wp_def)

lemma Start_goes_through:
  assumes "New c0 = Inr s" "config_ok (cfg s)" "lawful_kernel E" "host_clean (cfg s) w0" "tidy (cfg s) w0"
    "smooth E" "obliging E (cfg s)" "usable E (cfg s) svr"
  shows "\<exists>sw. Start E (s, w0) = (Ret (), sw) \<and> running E (cfg s) w0 svr sw"
proof -
  have "svr = projr (resolveShadowsocksServerIPv4 E (TransportURL (cfg s)))"
    using assms(8) by (simp add: usable_def)
  from runs_Start [of True E "cfg s" w0, OF assms(6,2,3,7,4,5) this assms(8)] New_session [OF assms(1), symmetric]
  have "wp (Start E) (\<lambda>_. running E (cfg s) w0 svr) (\<lambda>_ _. False) (\<lambda>_. False) (s, w0)" by simp
  then show ?thesis by (cases "Start E (s, w0)") (auto simp: wp_def split: outcome.splits)
qed

lemma demo_starts: "\<exists>sw. Start (ref_env no_faults) (new_session demo_config, demo_world) = (Ret (), sw)
   \<and> running (ref_env no_faults) demo_config demo_world ''1.1.1.1'' sw"
  using Start_goes_through [OF demo_New, unfolded new_session_cfg, OF demo_config_ok ref_lawful demo_clean
    demo_tidy ref_smooth ref_obliging demo_usable] .

theorem started_session_witness:
  "\<exists>sw svr. Start (ref_env no_faults) (new_session demo_config, demo_world) = (Ret (), sw)
     \<and> running (ref_env no_faults) demo_config demo_world svr sw"
proof -
  obtain sw where run: "Start (ref_env no_faults) (new_session demo_config, demo_world) = (Ret (), sw)"
    using demo_starts by blast
  show ?thesis
    using started_session [OF demo_New, unfolded new_session_cfg, OF demo_config_ok ref_lawful demo_clean demo_tidy run]
      run by blast
qed

text \<open>C20. A start succeeds when nothing stands in its way: no call fails, the kernel accepts what
  is not there yet, and the packages accept the configuration and the server. Neither the
  code's own checks nor the state it has built up by then can make it fail, and it does not
  run into a nil pointer.\<close>

theorem start_succeeds:
  assumes "New c0 = Inr s" "config_ok (cfg s)" "lawful_kernel E" "host_clean (cfg s) w0" "tidy (cfg s) w0"
    "smooth E" "obliging E (cfg s)" "usable E (cfg s) svr"
  shows "\<exists>sw. Start E (s, w0) = (Ret (), sw) \<and> running E (cfg s) w0 svr sw"
  by (rule Start_goes_through [OF assms])

theorem start_succeeds_witness:
  "\<exists>sw. Start (ref_env no_faults) (new_session demo_config, demo_world) = (Ret (), sw)
     \<and> running (ref_env no_faults) demo_config demo_world ''1.1.1.1'' sw"
  using start_succeeds [OF demo_New, unfolded new_session_cfg, OF demo_config_ok ref_lawful demo_clean
    demo_tidy ref_smooth ref_obliging demo_usable] .

lemma Close_lives:
  assumes "no_kill E"
  shows "fst (Close E sw) \<noteq> Dead"
proof -
  have "keeps (\<lambda>_. True) (\<lambda>_. False) (Close E)"
  proof (rule keepsI)
    fix t :: "session \<times> world"
    have on: "wp (onW m) (\<lambda>_ _. True) (\<lambda>_ _. True) (\<lambda>_. False) t" if "lives m" for m :: "(world, 'e, 'a) act" and t
      using keepsD [OF that, of "snd t"] by (simp add: wp_onW)
    have "lives (iface_close E n)" for n using assms by (simp add: iface_close_def lives_calls)
    then have "wp (iface_close E n) (\<lambda>_ _. True) (\<lambda>_ _. True) (\<lambda>_. False) w" for n w
      by (simp add: keeps_def)
    then have tun: "wp (close_tun E) (\<lambda>_ _. True) (\<lambda>_ _. True) (\<lambda>_. False) t" for t
      by (auto simp: close_tun_def wp_with_session wp_simps split: option.split)
    show "wp (Close E) (\<lambda>_ _. True) (\<lambda>_ _. True) (\<lambda>_. False) t"
      unfolding Close_def wp_with_session
      by (auto simp: wp_ret wp_bind wp_update close_device_def
          intro!: wp_mono [OF tun] on lives_runPanic assms)
  qed
  then show ?thesis by (rule lives_fst)
qed

text \<open>C21. No session operation ever uses a nil pointer: started on any session and in any world,
  \<open>Start\<close> and \<open>Close\<close> return unless the process is killed from outside.\<close>

theorem session_never_nil:
  assumes "no_kill E"
  shows "fst (Start E sw) \<noteq> Dead \<and> fst (Close E sw) \<noteq> Dead"
  using Start_lives [OF assms] Close_lives [OF assms] by blast

theorem session_never_nil_witness:
  "fst (Start (ref_env (fail_at 33)) (new_session demo_config, demo_world)) \<noteq> Dead
   \<and> fst (Close (ref_env (fail_at 33)) (new_session demo_config, demo_world)) \<noteq> Dead"
  by (rule session_never_nil) (simp add: no_kill_def fail_at_def)

section \<open>Closing\<close>

lemma Close_restores:
  assumes "New c0 = Inr s" "config_ok (cfg s)" "lawful_kernel E" "host_clean (cfg s) w0"
    "no_deny E" "script_installed E w0" "script_apart E (cfg s)"
    "Start E (s, w0) = (Ret (), (s', w))" "Close E (s', w\<lparr>clock := n\<rparr>) = (r, (s'', w'))" "r \<noteq> Dead"
  shows "r = Ret () \<and> restored (cfg s) w0 w' \<and> stopped s''"
proof -
  let ?c = "cfg s"
  have i: "sess_inv E ?c w0 (s', w)"
    using Start_ends [OF assms(1-4), of "\<lambda>_. True"] assms(8)
      wp_mono [OF wp_runPanic_any [OF assms(2-4)]] by fastforce
  then have i': "sess_inv E ?c w0 (s', w\<lparr>clock := n\<rparr>)" by (rule sess_inv_harmless) simp
  have "\<not> stopped (new_session ?c)" by (simp add: new_session_def)
  then have "\<not> stopped s" using New_session [OF assms(1)] by metis
  then have on: "\<not> stopped s'"
    using keepsD [OF calm_Start, of "(s, w0)" False E] assms(8) by (auto simp: wp_def)
  have "wp (Close E) (\<lambda>_ sw. restored ?c w0 (snd sw)) (\<lambda>_ _. False) (died E ?c w0) (s', w\<lparr>clock := n\<rparr>)"
    by (rule wp_Close [OF assms(3,4) i' on wp_runPanic_installed [OF assms(5,2,3,4,6,7)]])
  moreover have "stopped s''"
    using Close_stops [of E "(s', w\<lparr>clock := n\<rparr>)"] assms(9,10) by (cases r) (auto simp: wp_def)
  ultimately show ?thesis using assms(9,10) by (cases r) (auto simp: wp_def)
qed

lemma demo_round:
  "\<exists>s' w s'' w'. Start (ref_env no_faults) (new_session demo_config, demo_world) = (Ret (), (s', w))
     \<and> Close (ref_env no_faults) (s', w\<lparr>clock := 1000\<rparr>) = (Ret (), (s'', w'))"
proof -
  obtain s' w where run: "Start (ref_env no_faults) (new_session demo_config, demo_world) = (Ret (), (s', w))"
    using demo_starts by (metis surj_pair)
  obtain r s'' w' where close: "Close (ref_env no_faults) (s', w\<lparr>clock := 1000\<rparr>) = (r, (s'', w'))"
    by (metis surj_pair)
  have "no_kill (ref_env no_faults)" "no_deny (ref_env no_faults)"
    by (simp_all add: no_kill_def no_deny_def no_faults_def)
  then have nd: "no_deny (ref_env no_faults)" "r \<noteq> Dead"
    using Close_lives [of "ref_env no_faults" "(s', w\<lparr>clock := 1000\<rparr>)"] close by auto
  have "r = Ret ()"
    using Close_restores [OF demo_New _ ref_lawful _ nd(1) demo_installed _ run close nd(2),
      unfolded new_session_cfg, OF demo_config_ok demo_clean demo_apart] by blast
  with run close show ?thesis by blast
qed



text \<open>C23. The mode of \<open>resolv.conf\<close> does not come back: the backup is made with mode 0600 and the
  script copies it back with its attributes, so a file that every user could read is
  readable by root alone after a connect and a disconnect.\<close>

theorem resolv_mode_is_lost:
  assumes "New c0 = Inr s" "config_ok (cfg s)" "lawful_kernel E" "host_clean (cfg s) w0"
    "no_deny E" "script_installed E w0" "script_apart E (cfg s)"
    "Start E (s, w0) = (Ret (), (s', w))" "Close E (s', w\<lparr>clock := n\<rparr>) = (r, (s'', w'))" "r \<noteq> Dead"
    and "fs w0 (ResolvPath (cfg s)) = Some (File d mode_0644)" "fs w0 (backup_path (StateDir (cfg s))) = None"
  shows "fs w' (ResolvPath (cfg s)) = Some (File d mode_0600)"
  using Close_restores [OF assms(1-10)] assms(11,12) by (simp add: restored_def backup_mode_def)

theorem resolv_mode_is_lost_witness:
  "fs demo_world ''/etc/resolv.conf'' = Some (File (Bytes ''nameserver 1.1.1.1'') mode_0644)
   \<and> (\<exists>s' w s'' w'. Start (ref_env no_faults) (new_session demo_config, demo_world) = (Ret (), (s', w))
       \<and> Close (ref_env no_faults) (s', w\<lparr>clock := 1000\<rparr>) = (Ret (), (s'', w'))
       \<and> fs w' ''/etc/resolv.conf'' = Some (File (Bytes ''nameserver 1.1.1.1'') mode_0600))"
proof -
  obtain s' w s'' w' where run: "Start (ref_env no_faults) (new_session demo_config, demo_world) = (Ret (), (s', w))"
    "Close (ref_env no_faults) (s', w\<lparr>clock := 1000\<rparr>) = (Ret (), (s'', w'))"
    using demo_round by blast
  have nd: "no_deny (ref_env no_faults)" by (simp add: no_deny_def no_faults_def)
  have "fs demo_world (ResolvPath demo_config) = Some (File (Bytes ''nameserver 1.1.1.1'') mode_0644)"
    "fs demo_world (backup_path (StateDir demo_config)) = None"
    by (simp_all add: demo_world_def demo_config_sel backup_path_def filepath_join_def BackupSubdir_def)
  from resolv_mode_is_lost [OF demo_New _ ref_lawful _ nd demo_installed _ run(1,2), unfolded new_session_cfg,
      OF demo_config_ok demo_clean demo_apart _ this] this(1) run
  show ?thesis by (simp add: demo_config_sel)
qed

text \<open>Closing twice is closing once: a second \<open>Close\<close> returns nil and changes nothing, in the
  session or on the host.\<close>

theorem close_idempotent:
  assumes "Close E sw = (r, sw')" "r \<noteq> Dead"
  shows "Close E sw' = (Ret (), sw')"
proof -
  have "stopped (fst sw')" using Close_stops [of E sw] assms by (cases r) (auto simp: wp_def)
  then show ?thesis by (cases sw') (simp add: Close_def with_session_def ret_def)
qed

theorem close_idempotent_witness:
  "\<exists>r sw'. Close (ref_env no_faults) (new_session demo_config, demo_world) = (r, sw')
     \<and> Close (ref_env no_faults) sw' = (Ret (), sw')"
proof -
  obtain r sw' where c: "Close (ref_env no_faults) (new_session demo_config, demo_world) = (r, sw')"
    by (metis surj_pair)
  moreover have "r \<noteq> Dead"
    using Close_lives [of "ref_env no_faults" "(new_session demo_config, demo_world)"] c
    by (auto simp: no_kill_def no_faults_def)
  ultimately show ?thesis using close_idempotent [OF c] by blast
qed

section \<open>Guards\<close>

text \<open>C24. A snapshot left by an earlier session stops the next start before anything is done: the
  session and the host are as they were, and the error names the file to look at.\<close>

theorem start_refuses_dirty_host:
  assumes "fs w (snap_path (cfg s)) = Some (File d m)" "fate E (clock w) = Proceed"
  shows "Start E (s, w) = (Throw (SnapshotExists (snap_path (cfg s))), (s, tick w))"
  using assms
  by (simp add: Start_def start_record_def with_session_def onW_def os_stat_def follow_41 effect_defs snap_path_def
      split: prod.split)

theorem start_refuses_dirty_host_witness:
  "Start (ref_env no_faults) (new_session demo_config,
      demo_world\<lparr>fs := [''/var/lib/outline-fedora/snapshot.json'' \<mapsto> File (Bytes []) mode_0600]\<rparr>)
   = (Throw (SnapshotExists ''/var/lib/outline-fedora/snapshot.json''), (new_session demo_config,
      demo_world\<lparr>fs := [''/var/lib/outline-fedora/snapshot.json'' \<mapsto> File (Bytes []) mode_0600], clock := 1\<rparr>))"
  using start_refuses_dirty_host [of "demo_world\<lparr>fs := [''/var/lib/outline-fedora/snapshot.json'' \<mapsto> File (Bytes []) mode_0600]\<rparr>"
      "new_session demo_config" "Bytes []" mode_0600 "ref_env no_faults"]
  by (simp add: snap_path_def demo_config_sel SnapshotFile_def no_faults_def demo_world_def)

text \<open>C25. Without a snapshot the script does nothing: it exits with 0 and the host is untouched,
  whether or not the tools it needs are installed.\<close>

theorem script_without_snapshot:
  assumes "fs w (filepath_join dir ''snapshot.json'') = None" "no_kill E"
  shows "ouf_panic E dir resolv w = (Ret (), tick w)"
  using assms follow_exists [of 41 "fs w" "filepath_join dir ''snapshot.json''"]
  by (auto simp: ouf_panic_def os_stat_def effect_defs no_kill_def split: verdict.split sum.split)

theorem script_without_snapshot_witness:
  "ouf_panic (ref_env (fail_at 0)) ''/var/lib/outline-fedora'' ''/etc/resolv.conf'' demo_world
     = (Ret (), demo_world\<lparr>clock := 1\<rparr>)"
  using script_without_snapshot [of demo_world "''/var/lib/outline-fedora''" "ref_env (fail_at 0)"]
  by (simp add: demo_world_def filepath_join_def no_kill_def fail_at_def)

text \<open>C26. A script that gives up with an error, whatever failed, has kept the snapshot, and the
  host can still be reverted from it: the error is never the last word.\<close>

theorem failed_revert_can_be_repeated:
  assumes "config_ok c" "lawful_kernel E" "host_clean c w0" "recoverable E c w0 w"
    "ouf_panic E (StateDir c) (ResolvPath c) w = (Throw e, w')"
  shows "recoverable E c w0 w'"
  using wp_ouf_panic_any [OF assms(1-4)] assms(5) by (simp add: wp_def)

definition no_jq :: env where
  "no_jq = (ref_env no_faults)\<lparr>have_tool := \<lambda>t. t \<noteq> ''jq''\<rparr>"

lemma no_jq_laws: "lawful_kernel no_jq" "recoverable no_jq = recoverable (ref_env no_faults)"
proof -
  have bytes: "file_bytes (E\<lparr>have_tool := g\<rparr>) d = file_bytes E d" for E :: env and g d
    by (induction d) simp_all
  have "resolv_saved (E\<lparr>have_tool := g\<rparr>) c w0 w r = resolv_saved E c w0 w r" for E :: env and g c w0 w r
    by (simp add: resolv_saved_def bytes split: option.split node.split)
  then show "recoverable no_jq = recoverable (ref_env no_faults)"
    by (simp add: recoverable_def covers_def pre_saved_def no_jq_def fun_eq_iff)
  have "lawful_kernel (E\<lparr>have_tool := g\<rparr>) = lawful_kernel E" for E :: env and g by (simp add: lawful_kernel_def)
  then show "lawful_kernel no_jq" by (simp add: no_jq_def ref_lawful)
qed

lemma no_jq_stops:
  assumes "recoverable no_jq demo_config w0 w"
  shows "\<exists>w'. ouf_panic no_jq (StateDir demo_config) (ResolvPath demo_config) w = (Throw (NoTool ''jq''), w')"
proof -
  obtain d m where f: "fs w (snap_path demo_config) = Some (File d m)"
    using assms by (auto simp: recoverable_def on_disk_def)
  have "fate no_jq t = Proceed" "have_tool no_jq ''jq'' = False" for t by (simp_all add: no_jq_def no_faults_def)
  with f show ?thesis
    by (simp add: ouf_panic_def snap_path_script [OF demo_config_ok] os_stat_def follow_41 effect_defs require_tool_def)
qed

theorem failed_revert_can_be_repeated_witness:
  "\<exists>w w'. ouf_panic no_jq (StateDir demo_config) (ResolvPath demo_config) w = (Throw (NoTool ''jq''), w')
     \<and> recoverable no_jq demo_config demo_world w'"
proof -
  obtain s' w where run: "Start (ref_env no_faults) (new_session demo_config, demo_world) = (Ret (), (s', w))"
    using demo_starts by (metis surj_pair)
  have r: "recoverable no_jq demo_config demo_world w"
    using Start_recoverable [OF demo_New, unfolded new_session_cfg, OF demo_config_ok ref_lawful demo_clean, of no_faults] run
    by (simp add: no_jq_laws)
  from no_jq_stops [OF this] obtain w' where
    stop: "ouf_panic no_jq (StateDir demo_config) (ResolvPath demo_config) w = (Throw (NoTool ''jq''), w')" ..
  show ?thesis
    using failed_revert_can_be_repeated [OF demo_config_ok no_jq_laws(1) demo_clean r stop] stop by blast
qed

section \<open>A failure the script does not notice\<close>

definition leak_snap :: snapshot where
  "leak_snap = \<lparr>Vers = 1, StartedAt = 0, OurMarks = marks_of demo_config,
     CreatedBy = \<lparr>Hostname = [], PID = 1, CreatorVersion = []\<rparr>,
     PreState = \<lparr>ResolvConf = no_resolv_conf, TunExisted = False, Sysctls = []\<rparr>, Actions = []\<rparr>"

definition leak_world :: world where
  "leak_world = \<lparr>fs = [''/var/lib/outline-fedora/snapshot.json'' \<mapsto> File (Doc (encode_snapshot leak_snap)) mode_0600],
     sysctls = (\<lambda>_. None), net = empty_net\<lparr>rules := {#catchall demo_config#}\<rparr>, clock = 0\<rparr>"


end
