(* ===== verification/RecordProps.thy ===== *)
theory RecordProps
  imports SessionRound
begin

text \<open>
  Properties of the parts a session is built from: the snapshot writer, the configuration,
  the numbers that go to the shell and back, and the choice of the server's address.
\<close>

section \<open>The snapshot\<close>

text \<open>C28. \<open>snapshot.json\<close> is replaced whole or not at all: whatever fails in \<open>Persist\<close> and
  wherever it is killed, the file holds what it held before or the whole new document, and
  no file but the temporary one besides it has changed.\<close>

theorem snapshot_file_replaced_whole:
  assumes "Persist E v w = (r, w')"
  shows "(fs w' (snapshot_Path v) = fs w (snapshot_Path v)
      \<or> (\<exists>m. fs w' (snapshot_Path v) = Some (File (Doc (encode_snapshot (snap v))) m)))
    \<and> (\<forall>q. q \<notin> {snapshot_Path v, snapshot_Path v @ ''.tmp''} \<longrightarrow> fs w' q = fs w q)"
  using Persist_contract [of E v w] assms
  by (auto simp: wp_def same_but_def snap_temps_def split: outcome.splits)

definition demo_writer :: snap_writer where
  "demo_writer = \<lparr>stateDir = ''/s'', snap = \<lparr>Vers = 1, StartedAt = 0, OurMarks = marks_of demo_config,
     CreatedBy = \<lparr>Hostname = [], PID = 1, CreatorVersion = []\<rparr>,
     PreState = \<lparr>ResolvConf = no_resolv_conf, TunExisted = False, Sysctls = []\<rparr>, Actions = []\<rparr>, nextSeq = 1\<rparr>"

theorem snapshot_file_replaced_whole_witness:
  "\<exists>r w'. Persist (ref_env (kill_at 1)) demo_writer demo_world = (r, w')
     \<and> (fs w' ''/s/snapshot.json'' = None
        \<or> (\<exists>m. fs w' ''/s/snapshot.json'' = Some (File (Doc (encode_snapshot (snap demo_writer))) m)))
     \<and> (\<forall>q. q \<notin> {''/s/snapshot.json'', ''/s/snapshot.json.tmp''} \<longrightarrow> fs w' q = fs demo_world q)"
proof -
  obtain r w' where run: "Persist (ref_env (kill_at 1)) demo_writer demo_world = (r, w')" by fastforce
  have p: "snapshot_Path demo_writer = ''/s/snapshot.json''"
    by (simp add: snapshot_Path_def demo_writer_def filepath_join_def SnapshotFile_def)
  have "fs demo_world ''/s/snapshot.json'' = None" by (simp add: demo_world_def)
  with snapshot_file_replaced_whole [OF run] run show ?thesis unfolding p by simp
qed

text \<open>What can be done with a writer once it exists.\<close>

inductive written :: "env \<Rightarrow> snap_writer \<Rightarrow> bool" for E where
  fresh: "snapshot_New E dir marks v w = (Ret s, w') \<Longrightarrow> written E s"
| resolv: "written E s \<Longrightarrow> RecordResolvConf E p s w = (Ret s', w') \<Longrightarrow> written E s'"
| sysctl: "written E s \<Longrightarrow> written E (RecordSysctl k x s)"
| tun_existed: "written E s \<Longrightarrow> written E (SetTunExisted b s)"
| append: "written E s \<Longrightarrow> written E (AppendAction a s)"
| mark: "written E s \<Longrightarrow> written E (MarkLastDone s)"

inductive_cases fresh_cases [elim]: "written E s"

definition numbered :: "snap_writer \<Rightarrow> bool" where
  "numbered s \<longleftrightarrow> Vers (snap s) = SnapVersion \<and> nextSeq s = int (length (Actions (snap s))) + 1
     \<and> map Seq (Actions (snap s)) = map (\<lambda>i. int i + 1) [0..<length (Actions (snap s))]"

lemma RecordResolvConf_writer:
  "wp (RecordResolvConf E p s) (\<lambda>s' _. \<exists>r. s' = set_resolv r s) (\<lambda>_ _. True) (\<lambda>_. True) w"
  unfolding RecordResolvConf_def
  by (rule wp_bind_any) (auto simp: wp_ret wp_throw intro!: wp_bind_any split: sum.split node.split)

lemma numbered_pre: "numbered (on_pre f s) = numbered s"
  by (simp add: numbered_def on_pre_def)

lemma map_list_update_same: "f y = f (xs ! i) \<Longrightarrow> map f (xs[i := y]) = map f xs"
  by (induction xs arbitrary: i) (auto split: nat.split)

lemma numbered_mark: "numbered s \<Longrightarrow> numbered (MarkLastDone s)"
  by (simp add: numbered_def MarkLastDone_def Let_def map_list_update_same)

text \<open>C29. The actions of a snapshot are numbered 1, 2, 3, ... without a gap in the order they were
  appended, whatever is recorded or marked in between, and the version is the one the
  script reads.\<close>

theorem actions_are_numbered:
  assumes "written E s"
  shows "numbered s"
  using assms
proof (induction rule: written.induct)
  case (fresh dir marks v w s w')
  then show ?case
    by (auto simp: snapshot_New_def bindA_def mapE_def get_clock_def ret_def numbered_def SnapVersion_def
        split: prod.splits outcome.splits)
next
  case (resolv s p w s' w')
  then show ?case
    using RecordResolvConf_writer [of E p s w] by (auto simp: wp_def set_resolv_def numbered_pre)
next
  case (append s a)
  then show ?case by (simp add: numbered_def AppendAction_def)
qed (simp_all add: RecordSysctl_def SetTunExisted_def numbered_pre numbered_mark)

definition demo_fresh :: "env \<Rightarrow> snap_writer" where
  "demo_fresh E = demo_writer\<lparr>snap := (snap demo_writer)\<lparr>StartedAt := now E 2,
     CreatedBy := \<lparr>Hostname = hostname E, PID = pid E, CreatorVersion = ''dev''\<rparr>\<rparr>\<rparr>"

definition demo_written :: "env \<Rightarrow> snap_writer" where
  "demo_written E = MarkLastDone (AppendAction (TunCreateAction ''ouftun0'' False)
     (AppendAction (SysctlSetAction ''k'' ''1'' True) (demo_fresh E)))"

lemma demo_fresh_written: "written (ref_env no_faults) (demo_fresh (ref_env no_faults))"
proof -
  have "fst (snapshot_New (ref_env no_faults) ''/s'' (marks_of demo_config) ''dev'' demo_world)
      = Ret (demo_fresh (ref_env no_faults))"
    by (simp add: snapshot_New_def effect_defs os_mkdir_all_def no_faults_def demo_world_def filepath_join_def
        BackupSubdir_def set_node_def demo_writer_def demo_fresh_def SnapVersion_def)
  then show ?thesis
    by (cases "snapshot_New (ref_env no_faults) ''/s'' (marks_of demo_config) ''dev'' demo_world")
      (auto intro: written.fresh)
qed

theorem actions_are_numbered_witness:
  "map Seq (Actions (snap (demo_written (ref_env no_faults)))) = [1, 2] \<and> numbered (demo_written (ref_env no_faults))"
proof -
  have "written (ref_env no_faults) (demo_written (ref_env no_faults))"
    unfolding demo_written_def by (intro written.mark written.append demo_fresh_written)
  from actions_are_numbered [OF this] show ?thesis
    by (simp add: demo_written_def demo_fresh_def MarkLastDone_def AppendAction_def demo_writer_def Let_def)
qed

section \<open>The configuration\<close>



text \<open>C28. The two guards are not in lockstep. There are configurations that pass validation and
  whose session the script refuses to revert, because of the name of the device; and there
  are some for which it would skip the bypass rules, because their priorities fall below
  its limit.\<close>

definition eth_config :: config where
  "eth_config = ApplyDefaults (zero_config\<lparr>TransportURL := ''ss://u@h'', TunName := ''eth7''\<rparr>)"

definition low_config :: config where
  "low_config = ApplyDefaults (zero_config\<lparr>TransportURL := ''ss://u@h'', RoutingRulePriority := 1003\<rparr>)"

definition eth_snapshot :: json where
  "eth_snapshot = encode_snapshot ((snap demo_writer)\<lparr>OurMarks := marks_of eth_config\<rparr>)"

theorem validate_and_script_disagree:
  "Validate eth_config = Inr () \<and> fst (read_marks E eth_snapshot w) = Throw (ReservedIfname ''eth7'')
   \<and> Validate low_config = Inr ()
   \<and> del_recorded_rule E (dec_int (RoutingRulePriority low_config - 7)) = ret ()"
proof -
  have sel: "TunName eth_config = ''eth7''" "RoutingTableID eth_config = 233" "RoutingRulePriority eth_config = 23333"
    "TransportURL eth_config = ''ss://u@h''" "TunName low_config = ''ouftun0''" "RoutingTableID low_config = 233"
    "RoutingRulePriority low_config = 1003" "TransportURL low_config = ''ss://u@h''"
    by (simp_all add: eth_config_def low_config_def ApplyDefaults_def zero_config_def or_default_def
        DefaultTunName_def DefaultRoutingTableID_def DefaultRoutingRulePriority_def)
  let ?sn = "(snap demo_writer)\<lparr>OurMarks := marks_of eth_config\<rparr>"
  have sn: "Vers ?sn = 1" "OurMarks ?sn = marks_of eth_config" by (simp_all add: demo_writer_def)
  have plain: "plain (TunName eth_config)" "TunName eth_config \<noteq> []"
    by (simp_all add: sel plain_def ascii_valid_utf8 ascii_def cmd_subst_id newline_iff)
  have "fst (read_marks E eth_snapshot w) = Throw (ReservedIfname ''eth7'')"
    unfolding eth_snapshot_def read_marks_def Let_def read_version [OF sn(1)] read_our_marks [OF sn(2) plain] sel
    by (simp add: reserved_ifname_def has_prefix_def guard_def bindA_def ret_def throw_def)
  moreover have "sh_int (dec_int 996) = Some 996" by (rule sh_int_dec_int) simp_all
  ultimately show ?thesis unfolding Validate_ok by (simp add: sel del_recorded_rule_def)
qed

section \<open>Numbers, addresses and priorities\<close>

text \<open>The shell reads back the number the daemon printed: every 64-bit integer survives the way
  through JSON, \<open>jq\<close>, command substitution and the shell's own comparison.\<close>

theorem numbers_survive_the_shell:
  assumes "- (2 ^ 63) \<le> i" "i < 2 ^ 63"
  shows "sh_int (cmd_subst (jq_raw E (JInt i))) = Some i"
  using sh_int_dec_int [OF assms] by simp

theorem numbers_survive_the_shell_witness:
  "sh_int (cmd_subst (jq_raw (ref_env no_faults) (JInt (- 9223372036854775808)))) = Some (- 9223372036854775808)"
  by (rule numbers_survive_the_shell) simp_all

lemma first_v4_iff: "first_v4 ips = Inr v4 \<longleftrightarrow> (\<exists>n post. ips = replicate n None @ Some v4 # post)"
proof (induction ips rule: first_v4.induct)
  case (2 ips)
  have "None # ips = replicate n None @ Some v4 # post \<longleftrightarrow> (\<exists>k. n = Suc k \<and> ips = replicate k None @ Some v4 # post)" for n post
    by (cases n) auto
  with 2 show ?case by auto
next
  case (3 v ips)
  have "Some v # ips = replicate n None @ Some v4 # post \<longleftrightarrow> n = 0 \<and> v = v4 \<and> ips = post" for n post
    by (cases n) auto
  then show ?case by auto
qed simp

text \<open>C32. The server's address is the first entry of the resolver's answer that has an IPv4 form;
  only a transport that is a single URL of scheme \<open>ss\<close> with a host yields an address at all.\<close>

theorem server_address_is_first_ipv4:
  "resolveShadowsocksServerIPv4 E u = Inr v4 \<longleftrightarrow>
     CHR ''|'' \<notin> set u \<and> trim_space u \<noteq> []
   \<and> (\<exists>host n post. url_parts E (trim_space u) = Some (''ss'', host) \<and> host \<noteq> []
        \<and> lookup_ip E host = Some (replicate n None @ Some v4 # post))"
proof -
  have "resolveShadowsocksServerIPv4 E u = Inr v4 \<longleftrightarrow>
     CHR ''|'' \<notin> set u \<and> trim_space u \<noteq> []
   \<and> (\<exists>host ips. url_parts E (trim_space u) = Some (''ss'', host) \<and> host \<noteq> []
        \<and> lookup_ip E host = Some ips \<and> first_v4 ips = Inr v4)"
    by (auto simp: resolveShadowsocksServerIPv4_def Let_def split: option.split if_splits)
  then show ?thesis unfolding first_v4_iff by blast
qed



end
