(* ===== verification/Rpc.thy ===== *)
theory Rpc
  imports Keystore
begin

text \<open>
  The protocol between \<open>ouf\<close> and \<open>oufdee\<close> (\<open>internal/rpc\<close>): the two message types, their
  JSON form, and the framing. A connection is a sequence of lines each way; a line is a JSON
  value or text that is no JSON. What the error texts look like is left open: a response
  carries its error as a value of any type \<open>'e\<close>, on the wire as the string it prints as.
\<close>

section \<open>Messages\<close>

definition MethodList :: gostring where "MethodList = ''list''"
definition MethodAdd :: gostring where "MethodAdd = ''add''"
definition MethodRemove :: gostring where "MethodRemove = ''remove''"
definition MethodRename :: gostring where "MethodRename = ''rename''"
definition MethodUse :: gostring where "MethodUse = ''use''"
definition MethodConnect :: gostring where "MethodConnect = ''connect''"
definition MethodDisconnect :: gostring where "MethodDisconnect = ''disconnect''"
definition MethodStatus :: gostring where "MethodStatus = ''status''"
definition MethodUndo :: gostring where "MethodUndo = ''undo''"
definition MethodPing :: gostring where "MethodPing = ''ping''"

definition SocketPathDefault :: path where
  "SocketPathDefault = ''/run/outline-fedora/oufdee.sock''"

record Request =
  Method :: gostring
  RqURL :: gostring
  SuggestedName :: gostring
  RqName :: gostring
  NewName :: gostring

record KeyView =
  KvName :: gostring
  KvURL :: gostring
  KvLabel :: gostring
  KvAddedAt :: time
  KvActive :: bool
  KvConnected :: bool

record StatusView =
  SvConnected :: bool
  SvKeyName :: gostring
  SvSince :: time
  SvServerIP :: gostring
  SvTunName :: gostring
  SvDirty :: bool

record 'e Response =
  Ok :: bool
  Err :: "'e option"
  RsKeys :: "KeyView list"
  RsActive :: gostring
  RsAdded :: "KeyView option"
  RsConnected :: "StatusView option"
  RsStatus :: "StatusView option"

definition zero_request :: Request where
  "zero_request = \<lparr>Method = [], RqURL = [], SuggestedName = [], RqName = [], NewName = []\<rparr>"

definition zero_keyview :: KeyView where
  "zero_keyview = \<lparr>KvName = [], KvURL = [], KvLabel = [], KvAddedAt = 0, KvActive = False, KvConnected = False\<rparr>"

definition zero_statusview :: StatusView where
  "zero_statusview = \<lparr>SvConnected = False, SvKeyName = [], SvSince = 0, SvServerIP = [], SvTunName = [],
     SvDirty = False\<rparr>"

definition zero_response :: "'e Response" where
  "zero_response = \<lparr>Ok = False, Err = None, RsKeys = [], RsActive = [], RsAdded = None, RsConnected = None,
     RsStatus = None\<rparr>"

section \<open>JSON form\<close>

definition omit_empty :: "gostring \<Rightarrow> gostring \<Rightarrow> (gostring \<times> json) list" where
  "omit_empty f s = (if s = [] then [] else [(f, jstr s)])"

definition encode_request :: "Request \<Rightarrow> json" where
  "encode_request r = JObj ([(''method'', jstr (Method r))] @ omit_empty ''url'' (RqURL r)
     @ omit_empty ''suggested_name'' (SuggestedName r) @ omit_empty ''name'' (RqName r)
     @ omit_empty ''new_name'' (NewName r))"

definition encode_keyview :: "KeyView \<Rightarrow> json" where
  "encode_keyview k = JObj ([(''name'', jstr (KvName k)), (''url'', jstr (KvURL k))]
     @ omit_empty ''label_from_url'' (KvLabel k)
     @ [(''added_at'', JTime (KvAddedAt k)), (''active'', JBool (KvActive k)),
        (''connected'', JBool (KvConnected k))])"

text \<open>\<open>omitempty\<close> has no effect on a time: a struct is never empty.\<close>

definition encode_statusview :: "StatusView \<Rightarrow> json" where
  "encode_statusview v = JObj ([(''connected'', JBool (SvConnected v))] @ omit_empty ''key_name'' (SvKeyName v)
     @ [(''since'', JTime (SvSince v))] @ omit_empty ''server_ip'' (SvServerIP v)
     @ omit_empty ''tun_name'' (SvTunName v) @ [(''dirty_snapshot'', JBool (SvDirty v))])"

definition omit_none :: "gostring \<Rightarrow> ('a \<Rightarrow> json) \<Rightarrow> 'a option \<Rightarrow> (gostring \<times> json) list" where
  "omit_none f enc x = (case x of None \<Rightarrow> [] | Some a \<Rightarrow> [(f, enc a)])"

definition omit_nil :: "gostring \<Rightarrow> ('a \<Rightarrow> json) \<Rightarrow> 'a list \<Rightarrow> (gostring \<times> json) list" where
  "omit_nil f enc xs = (if xs = [] then [] else [(f, JArr (map enc xs))])"

definition encode_response :: "gostring Response \<Rightarrow> json" where
  "encode_response r = JObj ([(''ok'', JBool (Ok r))] @ omit_none ''err'' jstr (Err r)
     @ omit_nil ''keys'' encode_keyview (RsKeys r)
     @ omit_empty ''active'' (RsActive r) @ omit_none ''added'' encode_keyview (RsAdded r)
     @ omit_none ''connected'' encode_statusview (RsConnected r)
     @ omit_none ''status'' encode_statusview (RsStatus r))"

definition dec_bool :: "gostring \<Rightarrow> json \<Rightarrow> bool \<Rightarrow> json_error + bool" where
  "dec_bool f j old = (case j of JNull \<Rightarrow> Inr old | JBool b \<Rightarrow> Inr b | _ \<Rightarrow> Inl (WrongType f))"

text \<open>\<open>json.Unmarshal\<close> ignores members it has no field for.\<close>

definition request_member :: "gostring \<Rightarrow> json \<Rightarrow> Request \<Rightarrow> json_error + Request" where
  "request_member f v r =
     (if field_match f ''method'' then map_sum id (\<lambda>s. r\<lparr>Method := s\<rparr>) (dec_string ''method'' v (Method r))
      else if field_match f ''url'' then map_sum id (\<lambda>s. r\<lparr>RqURL := s\<rparr>) (dec_string ''url'' v (RqURL r))
      else if field_match f ''suggested_name'' then
        map_sum id (\<lambda>s. r\<lparr>SuggestedName := s\<rparr>) (dec_string ''suggested_name'' v (SuggestedName r))
      else if field_match f ''name'' then map_sum id (\<lambda>s. r\<lparr>RqName := s\<rparr>) (dec_string ''name'' v (RqName r))
      else if field_match f ''new_name'' then
        map_sum id (\<lambda>s. r\<lparr>NewName := s\<rparr>) (dec_string ''new_name'' v (NewName r))
      else Inr r)"

definition decode_request :: "json \<Rightarrow> json_error + Request" where
  "decode_request j = (case j of JNull \<Rightarrow> Inr zero_request
     | JObj m \<Rightarrow> dec_members request_member m zero_request | _ \<Rightarrow> Inl NotAnObject)"

definition keyview_member :: "gostring \<Rightarrow> json \<Rightarrow> KeyView \<Rightarrow> json_error + KeyView" where
  "keyview_member f v k =
     (if field_match f ''name'' then map_sum id (\<lambda>s. k\<lparr>KvName := s\<rparr>) (dec_string ''name'' v (KvName k))
      else if field_match f ''url'' then map_sum id (\<lambda>s. k\<lparr>KvURL := s\<rparr>) (dec_string ''url'' v (KvURL k))
      else if field_match f ''label_from_url'' then
        map_sum id (\<lambda>s. k\<lparr>KvLabel := s\<rparr>) (dec_string ''label_from_url'' v (KvLabel k))
      else if field_match f ''added_at'' then
        map_sum id (\<lambda>t. k\<lparr>KvAddedAt := t\<rparr>) (dec_time ''added_at'' v (KvAddedAt k))
      else if field_match f ''active'' then
        map_sum id (\<lambda>b. k\<lparr>KvActive := b\<rparr>) (dec_bool ''active'' v (KvActive k))
      else if field_match f ''connected'' then
        map_sum id (\<lambda>b. k\<lparr>KvConnected := b\<rparr>) (dec_bool ''connected'' v (KvConnected k))
      else Inr k)"

definition decode_keyview :: "KeyView \<Rightarrow> json \<Rightarrow> json_error + KeyView" where
  "decode_keyview old j = (case j of JNull \<Rightarrow> Inr old
     | JObj m \<Rightarrow> dec_members keyview_member m old | _ \<Rightarrow> Inl NotAnObject)"

definition statusview_member :: "gostring \<Rightarrow> json \<Rightarrow> StatusView \<Rightarrow> json_error + StatusView" where
  "statusview_member f v s =
     (if field_match f ''connected'' then
        map_sum id (\<lambda>b. s\<lparr>SvConnected := b\<rparr>) (dec_bool ''connected'' v (SvConnected s))
      else if field_match f ''key_name'' then
        map_sum id (\<lambda>x. s\<lparr>SvKeyName := x\<rparr>) (dec_string ''key_name'' v (SvKeyName s))
      else if field_match f ''since'' then
        map_sum id (\<lambda>t. s\<lparr>SvSince := t\<rparr>) (dec_time ''since'' v (SvSince s))
      else if field_match f ''server_ip'' then
        map_sum id (\<lambda>x. s\<lparr>SvServerIP := x\<rparr>) (dec_string ''server_ip'' v (SvServerIP s))
      else if field_match f ''tun_name'' then
        map_sum id (\<lambda>x. s\<lparr>SvTunName := x\<rparr>) (dec_string ''tun_name'' v (SvTunName s))
      else if field_match f ''dirty_snapshot'' then
        map_sum id (\<lambda>b. s\<lparr>SvDirty := b\<rparr>) (dec_bool ''dirty_snapshot'' v (SvDirty s))
      else Inr s)"

definition decode_statusview :: "StatusView \<Rightarrow> json \<Rightarrow> json_error + StatusView" where
  "decode_statusview old j = (case j of JNull \<Rightarrow> Inr old
     | JObj m \<Rightarrow> dec_members statusview_member m old | _ \<Rightarrow> Inl NotAnObject)"

text \<open>A pointer: \<open>null\<close> resets it, an object goes into the value it points to.\<close>

definition dec_ptr :: "('a \<Rightarrow> json \<Rightarrow> json_error + 'a) \<Rightarrow> 'a \<Rightarrow> json \<Rightarrow> 'a option \<Rightarrow> json_error + 'a option" where
  "dec_ptr dc zero j old = (case j of JNull \<Rightarrow> Inr None
     | _ \<Rightarrow> map_sum id Some (dc (case old of None \<Rightarrow> zero | Some a \<Rightarrow> a) j))"

text \<open>\<open>Err\<close> is a string; the empty string stands for no error text.\<close>

definition err_of :: "gostring \<Rightarrow> gostring option" where
  "err_of s = (if s = [] then None else Some s)"

definition response_member :: "gostring \<Rightarrow> json \<Rightarrow> gostring Response \<Rightarrow> json_error + gostring Response" where
  "response_member f v r =
     (if field_match f ''ok'' then map_sum id (\<lambda>b. r\<lparr>Ok := b\<rparr>) (dec_bool ''ok'' v (Ok r))
      else if field_match f ''err'' then
        map_sum id (\<lambda>s. r\<lparr>Err := err_of s\<rparr>)
          (dec_string ''err'' v (case Err r of None \<Rightarrow> [] | Some s \<Rightarrow> s))
      else if field_match f ''keys'' then
        (case v of JNull \<Rightarrow> Inr (r\<lparr>RsKeys := []\<rparr>)
         | JArr js \<Rightarrow> map_sum id (\<lambda>ks. r\<lparr>RsKeys := ks\<rparr>) (dec_elems (decode_keyview zero_keyview) js)
         | _ \<Rightarrow> Inl (WrongType ''keys''))
      else if field_match f ''active'' then
        map_sum id (\<lambda>s. r\<lparr>RsActive := s\<rparr>) (dec_string ''active'' v (RsActive r))
      else if field_match f ''added'' then
        map_sum id (\<lambda>x. r\<lparr>RsAdded := x\<rparr>) (dec_ptr decode_keyview zero_keyview v (RsAdded r))
      else if field_match f ''connected'' then
        map_sum id (\<lambda>x. r\<lparr>RsConnected := x\<rparr>) (dec_ptr decode_statusview zero_statusview v (RsConnected r))
      else if field_match f ''status'' then
        map_sum id (\<lambda>x. r\<lparr>RsStatus := x\<rparr>) (dec_ptr decode_statusview zero_statusview v (RsStatus r))
      else Inr r)"

definition decode_response :: "json \<Rightarrow> json_error + gostring Response" where
  "decode_response j = (case j of JNull \<Rightarrow> Inr zero_response
     | JObj m \<Rightarrow> dec_members response_member m zero_response | _ \<Rightarrow> Inl NotAnObject)"

section \<open>Framing\<close>

text \<open>One direction of a connection: lines already written, and what is still coming of one
  that was cut off.\<close>

datatype line = Line json | NoJson gostring

record stream =
  lines :: "line list"
  broken :: bool        \<comment> \<open>the peer is gone: writing fails\<close>

datatype codec_error = CodecEOF | Unmarshal | BadMember json_error | CodecWrite

text \<open>\<open>json.Marshal\<close> of these types never fails.\<close>

definition WriteMessage :: "json \<Rightarrow> stream \<Rightarrow> (codec_error + unit) \<times> stream" where
  "WriteMessage v s = (if broken s then (Inl CodecWrite, s)
     else (Inr (), s\<lparr>lines := lines s @ [Line v]\<rparr>))"

definition ReadMessage :: "(json \<Rightarrow> json_error + 'v) \<Rightarrow> stream \<Rightarrow> (codec_error + 'v) \<times> stream" where
  "ReadMessage decode s = (case lines s of
     [] \<Rightarrow> (Inl CodecEOF, s)
   | l # ls \<Rightarrow> ((case l of NoJson _ \<Rightarrow> Inl Unmarshal
       | Line j \<Rightarrow> map_sum BadMember id (decode j)), s\<lparr>lines := ls\<rparr>))"

section \<open>Round trips\<close>

definition request_valid :: "Request \<Rightarrow> bool" where
  "request_valid r \<longleftrightarrow> list_all valid_utf8 [Method r, RqURL r, SuggestedName r, RqName r, NewName r]"

definition keyview_valid :: "KeyView \<Rightarrow> bool" where
  "keyview_valid k \<longleftrightarrow> list_all valid_utf8 [KvName k, KvURL k, KvLabel k]"

definition statusview_valid :: "StatusView \<Rightarrow> bool" where
  "statusview_valid v \<longleftrightarrow> list_all valid_utf8 [SvKeyName v, SvServerIP v, SvTunName v]"

definition response_valid :: "gostring Response \<Rightarrow> bool" where
  "response_valid r \<longleftrightarrow> (\<forall>e. Err r = Some e \<longrightarrow> valid_utf8 e \<and> e \<noteq> []) \<and> list_all keyview_valid (RsKeys r)
     \<and> valid_utf8 (RsActive r) \<and> (\<forall>k. RsAdded r = Some k \<longrightarrow> keyview_valid k)
     \<and> (\<forall>v. RsConnected r = Some v \<longrightarrow> statusview_valid v) \<and> (\<forall>v. RsStatus r = Some v \<longrightarrow> statusview_valid v)"

lemma dec_members_append:
  "dec_members f (xs @ ys) r = (case dec_members f xs r of Inl e \<Rightarrow> Inl e | Inr r' \<Rightarrow> dec_members f ys r')"
  by (induction f xs r rule: dec_members.induct) (auto split: sum.splits)

lemma decode_encode_request:
  assumes "request_valid r"
  shows "decode_request (encode_request r) = Inr r"
proof -
  obtain m u s n n2 where r: "r = \<lparr>Method = m, RqURL = u, SuggestedName = s, RqName = n, NewName = n2\<rparr>"
    by (cases r) auto
  then have v: "valid_utf8 m" "valid_utf8 u" "valid_utf8 s" "valid_utf8 n" "valid_utf8 n2"
    using assms by (simp_all add: request_valid_def)
  have f: "request_member ''method'' v r = map_sum id (\<lambda>s. r\<lparr>Method := s\<rparr>) (dec_string ''method'' v (Method r))"
    "request_member ''url'' v r = map_sum id (\<lambda>s. r\<lparr>RqURL := s\<rparr>) (dec_string ''url'' v (RqURL r))"
    "request_member ''suggested_name'' v r
      = map_sum id (\<lambda>s. r\<lparr>SuggestedName := s\<rparr>) (dec_string ''suggested_name'' v (SuggestedName r))"
    "request_member ''name'' v r = map_sum id (\<lambda>s. r\<lparr>RqName := s\<rparr>) (dec_string ''name'' v (RqName r))"
    "request_member ''new_name'' v r = map_sum id (\<lambda>s. r\<lparr>NewName := s\<rparr>) (dec_string ''new_name'' v (NewName r))"
    for v r by (simp_all add: request_member_def eval_fields)
  show ?thesis
    by (simp add: r encode_request_def decode_request_def dec_members_append omit_empty_def f dec_string_def
        jstr_valid v zero_request_def)
qed

lemma keyview_member_simps:
  "keyview_member ''name'' v k = map_sum id (\<lambda>s. k\<lparr>KvName := s\<rparr>) (dec_string ''name'' v (KvName k))"
  "keyview_member ''url'' v k = map_sum id (\<lambda>s. k\<lparr>KvURL := s\<rparr>) (dec_string ''url'' v (KvURL k))"
  "keyview_member ''label_from_url'' v k =
     map_sum id (\<lambda>s. k\<lparr>KvLabel := s\<rparr>) (dec_string ''label_from_url'' v (KvLabel k))"
  "keyview_member ''added_at'' v k = map_sum id (\<lambda>t. k\<lparr>KvAddedAt := t\<rparr>) (dec_time ''added_at'' v (KvAddedAt k))"
  "keyview_member ''active'' v k = map_sum id (\<lambda>b. k\<lparr>KvActive := b\<rparr>) (dec_bool ''active'' v (KvActive k))"
  "keyview_member ''connected'' v k =
     map_sum id (\<lambda>b. k\<lparr>KvConnected := b\<rparr>) (dec_bool ''connected'' v (KvConnected k))"
  by (simp_all add: keyview_member_def eval_fields)

lemma statusview_member_simps:
  "statusview_member ''connected'' v s =
     map_sum id (\<lambda>b. s\<lparr>SvConnected := b\<rparr>) (dec_bool ''connected'' v (SvConnected s))"
  "statusview_member ''key_name'' v s =
     map_sum id (\<lambda>x. s\<lparr>SvKeyName := x\<rparr>) (dec_string ''key_name'' v (SvKeyName s))"
  "statusview_member ''since'' v s = map_sum id (\<lambda>t. s\<lparr>SvSince := t\<rparr>) (dec_time ''since'' v (SvSince s))"
  "statusview_member ''server_ip'' v s =
     map_sum id (\<lambda>x. s\<lparr>SvServerIP := x\<rparr>) (dec_string ''server_ip'' v (SvServerIP s))"
  "statusview_member ''tun_name'' v s =
     map_sum id (\<lambda>x. s\<lparr>SvTunName := x\<rparr>) (dec_string ''tun_name'' v (SvTunName s))"
  "statusview_member ''dirty_snapshot'' v s =
     map_sum id (\<lambda>b. s\<lparr>SvDirty := b\<rparr>) (dec_bool ''dirty_snapshot'' v (SvDirty s))"
  by (simp_all add: statusview_member_def eval_fields)

lemma response_member_simps:
  "response_member ''ok'' v r = map_sum id (\<lambda>b. r\<lparr>Ok := b\<rparr>) (dec_bool ''ok'' v (Ok r))"
  "response_member ''err'' v r = map_sum id (\<lambda>s. r\<lparr>Err := err_of s\<rparr>)
     (dec_string ''err'' v (case Err r of None \<Rightarrow> [] | Some s \<Rightarrow> s))"
  "response_member ''keys'' (JArr js) r
     = map_sum id (\<lambda>ks. r\<lparr>RsKeys := ks\<rparr>) (dec_elems (decode_keyview zero_keyview) js)"
  "response_member ''active'' v r = map_sum id (\<lambda>s. r\<lparr>RsActive := s\<rparr>) (dec_string ''active'' v (RsActive r))"
  "response_member ''added'' v r =
     map_sum id (\<lambda>x. r\<lparr>RsAdded := x\<rparr>) (dec_ptr decode_keyview zero_keyview v (RsAdded r))"
  "response_member ''connected'' v r =
     map_sum id (\<lambda>x. r\<lparr>RsConnected := x\<rparr>) (dec_ptr decode_statusview zero_statusview v (RsConnected r))"
  "response_member ''status'' v r =
     map_sum id (\<lambda>x. r\<lparr>RsStatus := x\<rparr>) (dec_ptr decode_statusview zero_statusview v (RsStatus r))"
  by (simp_all add: response_member_def eval_fields)

lemmas wire_defs = dec_members_append omit_empty_def omit_none_def dec_string_def dec_bool_def dec_time_def
  dec_ptr_def jstr_valid

lemma decode_encode_keyview: "keyview_valid k \<Longrightarrow> decode_keyview zero_keyview (encode_keyview k) = Inr k"
  by (cases k) (simp add: decode_keyview_def encode_keyview_def keyview_member_simps wire_defs keyview_valid_def
      zero_keyview_def)

lemma decode_encode_statusview: "statusview_valid v \<Longrightarrow> decode_statusview zero_statusview (encode_statusview v) = Inr v"
  by (cases v) (simp add: decode_statusview_def encode_statusview_def statusview_member_simps wire_defs
      statusview_valid_def zero_statusview_def)

lemma dec_ptr_keyview:
  "keyview_valid k \<Longrightarrow> dec_ptr decode_keyview zero_keyview (encode_keyview k) None = Inr (Some k)"
  using decode_encode_keyview [of k] by (simp add: dec_ptr_def encode_keyview_def)

lemma dec_ptr_statusview:
  "statusview_valid v \<Longrightarrow> dec_ptr decode_statusview zero_statusview (encode_statusview v) None = Inr (Some v)"
  using decode_encode_statusview [of v] by (simp add: dec_ptr_def encode_statusview_def)

text \<open>One group of members per field, decoded into a response that has the field's zero value.\<close>

lemma dec_response_fields:
  "(\<And>e. x = Some e \<Longrightarrow> valid_utf8 e \<and> e \<noteq> []) \<Longrightarrow> Err r = None \<Longrightarrow>
     dec_members response_member (omit_none ''err'' jstr x) r = Inr (r\<lparr>Err := x\<rparr>)"
  "list_all keyview_valid ks \<Longrightarrow> RsKeys r = [] \<Longrightarrow>
     dec_members response_member (omit_nil ''keys'' encode_keyview ks) r
       = Inr (r\<lparr>RsKeys := ks\<rparr>)"
  "valid_utf8 a \<Longrightarrow> RsActive r = [] \<Longrightarrow>
     dec_members response_member (omit_empty ''active'' a) r = Inr (r\<lparr>RsActive := a\<rparr>)"
  "(\<And>k. y = Some k \<Longrightarrow> keyview_valid k) \<Longrightarrow> RsAdded r = None \<Longrightarrow>
     dec_members response_member (omit_none ''added'' encode_keyview y) r = Inr (r\<lparr>RsAdded := y\<rparr>)"
  "(\<And>v. z = Some v \<Longrightarrow> statusview_valid v) \<Longrightarrow> RsConnected r = None \<Longrightarrow>
     dec_members response_member (omit_none ''connected'' encode_statusview z) r = Inr (r\<lparr>RsConnected := z\<rparr>)"
  "(\<And>v. z = Some v \<Longrightarrow> statusview_valid v) \<Longrightarrow> RsStatus r = None \<Longrightarrow>
     dec_members response_member (omit_none ''status'' encode_statusview z) r = Inr (r\<lparr>RsStatus := z\<rparr>)"
proof -
  show "dec_members response_member (omit_nil ''keys'' encode_keyview ks) r
       = Inr (r\<lparr>RsKeys := ks\<rparr>)" if "list_all keyview_valid ks" "RsKeys r = []"
  proof -
    have "dec_elems (decode_keyview zero_keyview) (map encode_keyview ks) = Inr ks"
      using that(1) by (intro dec_elems_map decode_encode_keyview) (auto simp: list_all_iff)
    then show ?thesis using that(2) by (cases r) (simp add: response_member_simps omit_nil_def)
  qed
qed (cases r; auto simp: response_member_simps omit_none_def omit_empty_def dec_string_def jstr_valid
    dec_ptr_keyview dec_ptr_statusview err_of_def split: option.split)+

lemma decode_encode_response:
  assumes "response_valid r"
  shows "decode_response (encode_response r) = Inr r"
proof -
  obtain b e ks a x y z where r: "r = \<lparr>Ok = b, Err = e, RsKeys = ks, RsActive = a, RsAdded = x, RsConnected = y, RsStatus = z\<rparr>"
    by (cases r) auto
  have v: "\<And>s. e = Some s \<Longrightarrow> valid_utf8 s \<and> s \<noteq> []" "list_all keyview_valid ks" "valid_utf8 a"
    "\<And>k. x = Some k \<Longrightarrow> keyview_valid k" "\<And>v. y = Some v \<Longrightarrow> statusview_valid v"
    "\<And>v. z = Some v \<Longrightarrow> statusview_valid v"
    using assms by (simp_all add: r response_valid_def)
  have "dec_members response_member ((''ok'', JBool b) # m) s = dec_members response_member m (s\<lparr>Ok := b\<rparr>)"
    for m s by (simp add: response_member_simps dec_bool_def)
  then show ?thesis
    by (simp add: r encode_response_def decode_response_def dec_members_append dec_response_fields v zero_response_def
        del: dec_members.simps)
qed

end
