(* ===== verification/Flags.thy ===== *)
theory Flags
  imports GoStr
begin

text \<open>
  What the two programs use of the \<open>flag\<close> package: string and boolean flags, parsed up to the
  first argument that is no flag. Every flag set of the programs exits on an error.
\<close>

datatype flag_kind = StringFlag | BoolFlag

text \<open>The settings in the order they were made and the arguments left, or the exit code.\<close>

datatype parsed = Parsed "(gostring \<times> gostring) list" "gostring list" | FlagExit nat

text \<open>\<open>strconv.ParseBool\<close>\<close>

definition parse_bool :: "gostring \<Rightarrow> bool option" where
  "parse_bool s =
     (if s \<in> {''1'', ''t'', ''T'', ''TRUE'', ''true'', ''True''} then Some True
      else if s \<in> {''0'', ''f'', ''F'', ''FALSE'', ''false'', ''False''} then Some False
      else None)"

text \<open>\<open>name=value\<close>, cut at the first equals sign after the first byte.\<close>

definition cut_value :: "gostring \<Rightarrow> gostring \<times> gostring option" where
  "cut_value s = (case find_index (\<lambda>c. c = CHR ''='') (drop 1 s) of
     None \<Rightarrow> (s, None)
   | Some i \<Rightarrow> (take (i + 1) s, Some (drop (i + 2) s)))"

definition is_flag :: "gostring \<Rightarrow> bool" where
  "is_flag s \<longleftrightarrow> length s \<ge> 2 \<and> hd s = CHR ''-''"

text \<open>The name and value behind the dashes; \<open>None\<close> is bad syntax.\<close>

definition flag_body :: "gostring \<Rightarrow> (gostring \<times> gostring option) option" where
  "flag_body s = (let n = (if s ! 1 = CHR ''-'' then drop 2 s else drop 1 s)
     in if n = [] \<or> hd n = CHR ''-'' \<or> hd n = CHR ''='' then None else Some (cut_value n))"

function parse_flags :: "(gostring \<times> flag_kind) list \<Rightarrow> gostring list \<Rightarrow> parsed" where
  "parse_flags formal [] = Parsed [] []"
| "parse_flags formal (s # args) =
     (if \<not> is_flag s then Parsed [] (s # args)
      else if s = ''--'' then Parsed [] args
      else (case flag_body s of
        None \<Rightarrow> FlagExit 2
      | Some (n, v) \<Rightarrow> (case map_of formal n of
          None \<Rightarrow> FlagExit (if n = ''help'' \<or> n = ''h'' then 0 else 2)
        | Some BoolFlag \<Rightarrow>
            (let value = (case v of None \<Rightarrow> ''true'' | Some x \<Rightarrow> x)
             in if parse_bool value = None then FlagExit 2
                else (case parse_flags formal args of
                  Parsed given rest \<Rightarrow> Parsed ((n, value) # given) rest | FlagExit c \<Rightarrow> FlagExit c))
        | Some StringFlag \<Rightarrow> (case v of
            Some x \<Rightarrow> (case parse_flags formal args of
              Parsed given rest \<Rightarrow> Parsed ((n, x) # given) rest | FlagExit c \<Rightarrow> FlagExit c)
          | None \<Rightarrow> (case args of
              [] \<Rightarrow> FlagExit 2
            | x # args' \<Rightarrow> (case parse_flags formal args' of
                Parsed given rest \<Rightarrow> Parsed ((n, x) # given) rest | FlagExit c \<Rightarrow> FlagExit c))))))"
  by pat_completeness auto
termination
  by (relation "measure (\<lambda>(_, args). length args)") auto

text \<open>The value of a flag: its last setting, or the default.\<close>

definition flag_value :: "gostring \<Rightarrow> gostring \<Rightarrow> (gostring \<times> gostring) list \<Rightarrow> gostring" where
  "flag_value n d given = (case find (\<lambda>(m, _). m = n) (rev given) of None \<Rightarrow> d | Some (_, v) \<Rightarrow> v)"

definition flag_set :: "gostring \<Rightarrow> (gostring \<times> gostring) list \<Rightarrow> bool" where
  "flag_set n given \<longleftrightarrow> parse_bool (flag_value n ''false'' given) = Some True"

declare parse_flags.simps(2) [simp del]

lemma parse_flags_positional: "\<not> is_flag s \<Longrightarrow> parse_flags formal (s # args) = Parsed [] (s # args)"
  by (simp add: parse_flags.simps)

end
