(* ===== verification/Threads.thy ===== *)
theory Threads
  imports CrashLogic
begin

text \<open>
  Threads over shared state. A thread is a sequence of atomic sections, each an effect on the
  shared state that decides how the thread goes on; what it has computed so far is its own.
  Run alone, a thread is an effect like any other; in a pool, the scheduler picks whose
  section comes next. One definition of a handler therefore has both readings.
\<close>

section \<open>Threads\<close>

datatype ('s, 'e, 'a) thread = Fin "('e, 'a) outcome" | Atom "'s \<Rightarrow> ('s, 'e, 'a) thread \<times> 's"

definition atomic :: "('s, 'e, 'a) act \<Rightarrow> ('s, 'e, 'a) thread" where
  "atomic m = Atom (\<lambda>s. case m s of (r, s') \<Rightarrow> (Fin r, s'))"

definition done_with :: "'a \<Rightarrow> ('s, 'e, 'a) thread" where
  "done_with a = Fin (Ret a)"

definition fail_with :: "'e \<Rightarrow> ('s, 'e, 'a) thread" where
  "fail_with e = Fin (Throw e)"

fun next_of :: "('e, 'a) outcome \<Rightarrow> ('a \<Rightarrow> ('s, 'f, 'b) thread) \<Rightarrow> ('e \<Rightarrow> ('s, 'f, 'b) thread) \<Rightarrow> ('s, 'f, 'b) thread" where
  "next_of (Ret a) f h = f a"
| "next_of (Throw e) f h = h e"
| "next_of Dead f h = Fin Dead"

text \<open>Going on with the value, or with the error, of a thread.\<close>

primrec thenT :: "('s, 'e, 'a) thread \<Rightarrow> ('a \<Rightarrow> ('s, 'f, 'b) thread) \<Rightarrow> ('e \<Rightarrow> ('s, 'f, 'b) thread)
    \<Rightarrow> ('s, 'f, 'b) thread" where
  "thenT (Fin r) f h = next_of r f h"
| "thenT (Atom g) f h = Atom (\<lambda>s. map_prod (\<lambda>k. k f h) id (map_prod thenT id (g s)))"

definition bindT :: "('s, 'e, 'a) thread \<Rightarrow> ('a \<Rightarrow> ('s, 'e, 'b) thread) \<Rightarrow> ('s, 'e, 'b) thread" where
  "bindT p f = thenT p f fail_with"

definition catchT :: "('e \<Rightarrow> 'a) \<Rightarrow> ('s, 'e, 'a) thread \<Rightarrow> ('s, 'f, 'a) thread" where
  "catchT h p = thenT p done_with (\<lambda>e. done_with (h e))"

text \<open>A thread run without interruption.\<close>

primrec alone :: "('s, 'e, 'a) thread \<Rightarrow> ('s, 'e, 'a) act" where
  "alone (Fin r) = (\<lambda>s. (r, s))"
| "alone (Atom g) = (\<lambda>s. (\<lambda>(k, s'). k s') (map_prod alone id (g s)))"

lemma alone_Atom [simp]: "alone (Atom g) s = (case g s of (p, s') \<Rightarrow> alone p s')"
  by (simp add: split_def)

lemma thenT_Atom [simp]: "thenT (Atom g) f h = Atom (\<lambda>s. case g s of (p, s') \<Rightarrow> (thenT p f h, s'))"
  by (simp add: split_def map_prod_def)

declare alone.simps(2) [simp del] thenT.simps(2) [simp del]

lemma wp_alone_thenT [wp_simps]:
  "wp (alone (thenT p f h)) Q X D = wp (alone p) (\<lambda>a. wp (alone (f a)) Q X D) (\<lambda>e. wp (alone (h e)) Q X D) D"
proof (rule ext)
  show "wp (alone (thenT p f h)) Q X D s
      = wp (alone p) (\<lambda>a. wp (alone (f a)) Q X D) (\<lambda>e. wp (alone (h e)) Q X D) D s" for s
  proof (induction p arbitrary: s)
    case (Fin r)
    then show ?case by (cases r) (simp_all add: wp_def)
  next
    case (Atom g)
    obtain q s' where g: "g s = (q, s')" by fastforce
    have "q \<in> Basic_BNFs.fsts (g s)" by (simp add: g fsts.intros)
    from Atom [OF rangeI this] g show ?case by (simp add: wp_def)
  qed
qed

lemma wp_alone_atomic [wp_simps]: "wp (alone (atomic m)) Q X D = wp m Q X D"
  by (rule ext) (simp add: wp_def atomic_def split: prod.split)

lemma wp_alone_done [wp_simps]: "wp (alone (done_with a)) Q X D = Q a"
  by (rule ext) (simp add: wp_def done_with_def)

lemma wp_alone_fail [wp_simps]: "wp (alone (fail_with e)) Q X D = X e"
  by (rule ext) (simp add: wp_def fail_with_def)

lemma wp_alone_bind [wp_simps]: "wp (alone (bindT p f)) Q X D = wp (alone p) (\<lambda>a. wp (alone (f a)) Q X D) X D"
  by (simp add: bindT_def wp_alone_thenT wp_alone_fail)

lemma wp_alone_catch [wp_simps]: "wp (alone (catchT h p)) Q X D = wp (alone p) Q (\<lambda>e. Q (h e)) D"
  by (simp add: catchT_def wp_alone_thenT wp_alone_done)

section \<open>Pools\<close>

text \<open>A pool of threads and their shared state. Sections of different threads may follow each
  other in any order; a new thread may join at any time; when one kills the process no more
  happens.\<close>

record ('s, 'e, 'a) pool =
  threads :: "('s, 'e, 'a) thread list"
  shared :: 's

definition killed :: "('s, 'e, 'a) pool \<Rightarrow> bool" where
  "killed P \<longleftrightarrow> Fin Dead \<in> set (threads P)"

inductive pool_step :: "('s, 'e, 'a) thread set \<Rightarrow> ('s, 'e, 'a) pool \<Rightarrow> ('s, 'e, 'a) pool \<Rightarrow> bool"
  for T :: "('s, 'e, 'a) thread set" where
  join: "\<not> killed P \<Longrightarrow> p \<in> T \<Longrightarrow> pool_step T P (P\<lparr>threads := threads P @ [p]\<rparr>)"
| advance: "\<not> killed P \<Longrightarrow> i < length (threads P) \<Longrightarrow> threads P ! i = Atom g \<Longrightarrow> g (shared P) = (p, s) \<Longrightarrow>
     pool_step T P (P\<lparr>threads := (threads P)[i := p], shared := s\<rparr>)"

inductive_cases pool_stepE: "pool_step T P Q"

inductive pool_reach :: "('s, 'e, 'a) thread set \<Rightarrow> ('s, 'e, 'a) pool \<Rightarrow> ('s, 'e, 'a) pool \<Rightarrow> bool"
  for T :: "('s, 'e, 'a) thread set" where
  here: "pool_reach T P P"
| further: "pool_step T P Q \<Longrightarrow> pool_reach T Q R \<Longrightarrow> pool_reach T P R"

lemma pool_reach_trans: "pool_reach T P Q \<Longrightarrow> pool_reach T Q R \<Longrightarrow> pool_reach T P R"
  by (induction rule: pool_reach.induct) (auto intro: further)

section \<open>Stable invariants\<close>

text \<open>\<open>steady I Q p\<close>: every section of \<open>p\<close> keeps \<open>I\<close>, whatever happens between its sections as
  long as it keeps \<open>I\<close> too, and a value \<open>p\<close> returns satisfies \<open>Q\<close>.\<close>

inductive steady :: "('s \<Rightarrow> bool) \<Rightarrow> ('a \<Rightarrow> bool) \<Rightarrow> ('s, 'e, 'a) thread \<Rightarrow> bool"
  for I :: "'s \<Rightarrow> bool" and Q :: "'a \<Rightarrow> bool" where
  over: "(\<And>a. r = Ret a \<Longrightarrow> Q a) \<Longrightarrow> steady I Q (Fin r)"
| onward: "(\<And>s. I s \<Longrightarrow> I (snd (g s))) \<Longrightarrow> (\<And>s. I s \<Longrightarrow> steady I Q (fst (g s))) \<Longrightarrow> steady I Q (Atom g)"

inductive_cases steady_FinE: "steady I Q (Fin r)"
inductive_cases steady_AtomE: "steady I Q (Atom g)"

named_theorems steady_intros \<open>one rule per way to build a thread\<close>

lemma steady_atomic:
  assumes "\<And>s. I s \<Longrightarrow> wp m (\<lambda>a s'. Q a \<and> I s') (\<lambda>_. I) I s"
  shows "steady I Q (atomic m)"
  unfolding atomic_def
proof (rule steady.onward)
  fix s assume "I s"
  from assms [OF this] show "I (snd (case m s of (r, s') \<Rightarrow> (Fin r, s')))"
    "steady I Q (fst (case m s of (r, s') \<Rightarrow> (Fin r, s')))"
    by (auto simp: wp_def intro!: steady.over split: prod.splits outcome.splits)
qed

lemma steady_keeps: "keeps I I m \<Longrightarrow> steady I (\<lambda>_. True) (atomic m)"
  by (rule steady_atomic) (simp add: keeps_def)

lemma steady_done [steady_intros]: "Q a \<Longrightarrow> steady I Q (done_with a)"
  unfolding done_with_def by (rule steady.over) simp

lemma steady_fail [steady_intros]: "steady I Q (fail_with e)"
  unfolding fail_with_def by (rule steady.over) simp

lemma steady_then:
  assumes "steady I R p" "\<And>a. R a \<Longrightarrow> steady I Q (f a)" "\<And>e. steady I Q (h e)"
  shows "steady I Q (thenT p f h)"
  using assms(1)
proof (induction rule: steady.induct)
  case (over r)
  then show ?case by (cases r) (auto intro: assms(2,3) steady.over)
next
  case (onward g)
  then show ?case by (auto intro!: steady.onward split: prod.splits) (metis snd_conv, metis fst_conv)
qed

lemma steady_bind:
  "steady I R p \<Longrightarrow> (\<And>a. R a \<Longrightarrow> steady I Q (f a)) \<Longrightarrow> steady I Q (bindT p f)"
  unfolding bindT_def by (rule steady_then [where R = R]) (auto intro: steady_fail)

lemma steady_catch [steady_intros]: "steady I (\<lambda>_. True) p \<Longrightarrow> steady I (\<lambda>_. True) (catchT h p)"
  unfolding catchT_def by (rule steady_then [where R = "\<lambda>_. True"]) (auto intro: steady_done)

text \<open>What every thread keeps, every interleaving of threads keeps.\<close>

lemma pool_invariant:
  assumes "pool_reach T P P'" "\<And>p. p \<in> T \<Longrightarrow> steady I (\<lambda>_. True) p"
    "\<forall>p \<in> set (threads P). steady I (\<lambda>_. True) p" "I (shared P)"
  shows "I (shared P')"
proof -
  have "(\<forall>p \<in> set (threads P'). steady I (\<lambda>_. True) p) \<and> I (shared P')"
    using assms(1,3,4)
  proof (induction rule: pool_reach.induct)
    case (further P Q R)
    have "(\<forall>p \<in> set (threads Q). steady I (\<lambda>_. True) p) \<and> I (shared Q)"
      using further.hyps(1)
    proof cases
      case (advance i g p s)
      then have "steady I (\<lambda>_. True) (Atom g)" using further.prems(1) nth_mem by metis
      then have "steady I (\<lambda>_. True) p" "I s"
        using advance(5) further.prems(2) by (metis fst_conv snd_conv steady_AtomE)+
      with advance further.prems show ?thesis
        by (auto dest!: set_update_subset_insert [THEN subsetD])
    qed (use assms(2) further.prems in auto)
    with further.IH show ?case by blast
  qed simp
  then show ?thesis by simp
qed

text \<open>A thread that runs without interruption: requests handled one after the other are among
  the runs of the pool.\<close>

lemma pool_run:
  assumes "alone p s = (r, s')" "i < length ps" "ps ! i = p" "\<And>j. j < length ps \<Longrightarrow> j \<noteq> i \<Longrightarrow> ps ! j \<noteq> Fin Dead"
  shows "pool_reach T \<lparr>threads = ps, shared = s\<rparr> \<lparr>threads = ps[i := Fin r], shared = s'\<rparr>"
  using assms
proof (induction p arbitrary: s ps)
  case (Fin r')
  then have "ps[i := Fin r] = ps" "s' = s" by (auto intro: list_update_same_conv [THEN iffD2])
  then show ?case by (simp add: pool_reach.here)
next
  case (Atom g)
  obtain q s1 where g: "g s = (q, s1)" by fastforce
  have "q \<in> Basic_BNFs.fsts (g s)" by (simp add: g fsts.intros)
  from Atom.IH [OF rangeI this, of s1 "ps[i := q]"] Atom.prems g
  have rest: "pool_reach T \<lparr>threads = ps[i := q], shared = s1\<rparr> \<lparr>threads = ps[i := Fin r], shared = s'\<rparr>" by simp
  let ?P = "\<lparr>threads = ps, shared = s\<rparr>"
  have "ps ! j \<noteq> Fin Dead" if "j < length ps" for j using that Atom.prems(3,4) by (cases "j = i") auto
  then have "\<not> killed ?P" by (auto simp: killed_def in_set_conv_nth)
  then have "pool_step T ?P (?P\<lparr>threads := (threads ?P)[i := q], shared := s1\<rparr>)"
    by (rule pool_step.advance [where g = g]) (use Atom.prems(2,3) g in auto)
  then have "pool_step T ?P \<lparr>threads = ps[i := q], shared = s1\<rparr>" by simp
  from pool_reach.further [OF this rest] show ?case .
qed

lemma pool_arrives:
  assumes "p \<in> T" "Fin Dead \<notin> set ps"
  shows "pool_reach T \<lparr>threads = ps, shared = s\<rparr> \<lparr>threads = ps @ [p], shared = s\<rparr>"
proof -
  let ?P = "\<lparr>threads = ps, shared = s\<rparr>"
  have "pool_step T ?P (?P\<lparr>threads := threads ?P @ [p]\<rparr>)"
    by (rule pool_step.join) (use assms in \<open>simp_all add: killed_def\<close>)
  then show ?thesis by (auto intro: pool_reach.intros)
qed

lemma pool_request:
  assumes "p \<in> T" "Fin Dead \<notin> set ps" "alone p s = (r, s')"
  shows "pool_reach T \<lparr>threads = ps, shared = s\<rparr> \<lparr>threads = ps @ [Fin r], shared = s'\<rparr>"
proof -
  have "(ps @ [p]) ! j \<noteq> Fin Dead" if "j < length (ps @ [p])" "j \<noteq> length ps" for j
  proof -
    have "j < length ps" using that by simp
    then show ?thesis using assms(2) nth_mem [of j ps] by (metis nth_append)
  qed
  then have "pool_reach T \<lparr>threads = ps @ [p], shared = s\<rparr> \<lparr>threads = (ps @ [p])[length ps := Fin r], shared = s'\<rparr>"
    by (intro pool_run [OF assms(3)]) simp_all
  from pool_reach_trans [OF pool_arrives [OF assms(1,2)] this] show ?thesis by simp
qed

end
