(* ===== verification/Server.thy ===== *)
theory Server
  imports Rpc Flags Session Threads
begin

text \<open>
  The daemon (\<open>cmd/oufdee\<close>): its state, one handler per method, the loop that serves
  connections, and the shutdown. A handler is a thread whose atomic sections are the critical
  sections of the server's mutex, the calls of the key store (which has a mutex of its own),
  and the calls of a session that no other thread holds. An error response is an error of the
  thread, turned into a response by \<open>dispatch\<close>; the wording of the messages is left open.
\<close>

section \<open>State\<close>

definition DefaultPath :: path where "DefaultPath = ''/etc/outline-fedora/keys.json''"

record server_config =
  SocketPath :: path
  SocketGroup :: gostring
  KeysPath :: path
  SrvStateDir :: path
  SrvResolvPath :: path
  SrvVersion :: gostring

definition applyDefaults :: "server_config \<Rightarrow> server_config" where
  "applyDefaults c = c\<lparr>
     SocketPath := or_default [] SocketPathDefault (SocketPath c),
     KeysPath := or_default [] DefaultPath (KeysPath c),
     SrvStateDir := or_default [] ''/var/lib/outline-fedora'' (SrvStateDir c),
     SrvResolvPath := or_default [] ''/etc/resolv.conf'' (SrvResolvPath c),
     SrvVersion := or_default [] ''dev'' (SrvVersion c)\<rparr>"

record server =
  scfg :: server_config
  ks :: store
  sess :: "session option"
  sessKey :: gostring
  sessSince :: time

datatype daemon_error = KeystoreError ks_error | RemoveConnected gostring | NoKeyGiven | NoSuchKey gostring
  | SwitchFailed run_error | BuildSession config_error | StartFailed start_error | NotConnected
  | CloseFailed run_error | UndoClose run_error | UndoScript run_error | UnknownMethod gostring

type_synonym 'a srv_act = "(server \<times> world, daemon_error, 'a) act"
type_synonym handler = "(server \<times> world, daemon_error, daemon_error Response) thread"

definition NewServer :: "env \<Rightarrow> server_config \<Rightarrow> (world, open_error, server) act" where
  "NewServer E cfg0 = (let c = applyDefaults cfg0 in
     bindA (Open E (KeysPath c)) (\<lambda>k. ret \<lparr>scfg = c, ks = k, sess = None, sessKey = [], sessSince = 0\<rparr>))"

section \<open>Sections\<close>

definition on_host :: "(world, 'e, 'a) act \<Rightarrow> (server \<times> world, 'e, 'a) act" where
  "on_host m = (\<lambda>(sv, w). case m w of (r, w') \<Rightarrow> (r, (sv, w')))"

definition on_ks :: "'a ks_act \<Rightarrow> 'a srv_act" where
  "on_ks m = mapE KeystoreError (\<lambda>(sv, w). case m (ks sv, w) of (r, (k, w')) \<Rightarrow> (r, (sv\<lparr>ks := k\<rparr>, w')))"

text \<open>A method of a session the thread holds; the session's new state is the result.\<close>

definition on_sess :: "('e, unit) sess_act \<Rightarrow> session \<Rightarrow> (server \<times> world, 'e, session) act" where
  "on_sess m s = (\<lambda>(sv, w). case m (s, w) of (Ret _, (s', w')) \<Rightarrow> (Ret s', (sv, w'))
     | (Throw e, (_, w')) \<Rightarrow> (Throw e, (sv, w')) | (Dead, (_, w')) \<Rightarrow> (Dead, (sv, w')))"

definition with_server :: "(server \<Rightarrow> (server \<times> world, 'e, 'a) act) \<Rightarrow> (server \<times> world, 'e, 'a) act" where
  "with_server f = (\<lambda>(sv, w). f sv (sv, w))"

definition modify :: "(server \<Rightarrow> server) \<Rightarrow> (server \<times> world, 'e, unit) act" where
  "modify f = (\<lambda>(sv, w). (Ret (), (f sv, w)))"

definition reading :: "(server \<Rightarrow> 'a) \<Rightarrow> (server \<times> world, 'e, 'a) act" where
  "reading f = with_server (\<lambda>sv. ret (f sv))"

definition no_session :: "server \<Rightarrow> server" where
  "no_session sv = sv\<lparr>sess := None, sessKey := []\<rparr>"

text \<open>\<open>sess := s.session; s.session = nil; s.sessKey = ""\<close>\<close>

definition take_session :: "(server \<times> world, 'e, session option) act" where
  "take_session = with_server (\<lambda>sv. bindA (modify no_session) (\<lambda>_. ret (sess sv)))"

definition statusViewLocked :: "env \<Rightarrow> (server \<times> world, 'e, StatusView) act" where
  "statusViewLocked E = with_server (\<lambda>sv.
     let v = (case sess sv of None \<Rightarrow> zero_statusview
       | Some s \<Rightarrow> zero_statusview\<lparr>SvConnected := True, SvKeyName := sessKey sv, SvSince := sessSince sv,
           SvServerIP := (case ServerIP s of None \<Rightarrow> [] | Some ip \<Rightarrow> ip)\<rparr>)
     in bindA (on_host (attempt (os_stat E (filepath_join (SrvStateDir (scfg sv)) ''snapshot.json''))))
       (\<lambda>st. ret (if \<not> isl st \<and> \<not> SvConnected v then v\<lparr>SvDirty := True\<rparr> else v)))"

section \<open>Handlers\<close>

definition errResp :: "'e \<Rightarrow> 'e Response" where
  "errResp e = zero_response\<lparr>Ok := False, Err := Some e\<rparr>"

definition okResp :: "'e Response" where
  "okResp = \<lparr>Ok = True, Err = None, RsKeys = [], RsActive = [], RsAdded = None, RsConnected = None,
     RsStatus = None\<rparr>"

definition key_view :: "key \<Rightarrow> bool \<Rightarrow> bool \<Rightarrow> KeyView" where
  "key_view k act conn = \<lparr>KvName = Name k, KvURL = URL k, KvLabel = LabelFromURL k, KvAddedAt = AddedAt k,
     KvActive = act, KvConnected = conn\<rparr>"

definition doList :: handler where
  "doList =
     bindT (atomic (reading (\<lambda>sv. ListKeys (ks sv)))) (\<lambda>keys.
     bindT (atomic (reading (\<lambda>sv. ActiveName (ks sv)))) (\<lambda>active.
     bindT (atomic (reading sessKey)) (\<lambda>connectedName.
     done_with (okResp\<lparr>RsKeys := map (\<lambda>k. key_view k (Name k = active) (Name k = connectedName)) keys,
       RsActive := active\<rparr>))))"

definition doAdd :: "env \<Rightarrow> Request \<Rightarrow> handler" where
  "doAdd E req =
     bindT (atomic (on_ks (Add E (RqURL req) (SuggestedName req)))) (\<lambda>k.
     bindT (atomic (reading (\<lambda>sv. ActiveName (ks sv)))) (\<lambda>active.
     done_with (okResp\<lparr>RsAdded := Some (key_view k (active = Name k) False)\<rparr>)))"

definition doRemove :: "env \<Rightarrow> Request \<Rightarrow> handler" where
  "doRemove E req =
     bindT (atomic (reading sessKey)) (\<lambda>sk.
     if sk = RqName req then fail_with (RemoveConnected (RqName req))
     else bindT (atomic (on_ks (Remove E (RqName req)))) (\<lambda>_. done_with okResp))"

definition doRename :: "env \<Rightarrow> Request \<Rightarrow> handler" where
  "doRename E req =
     bindT (atomic (on_ks (Rename E (RqName req) (NewName req)))) (\<lambda>_.
     bindT (atomic (modify (\<lambda>sv. if sessKey sv = RqName req then sv\<lparr>sessKey := NewName req\<rparr> else sv))) (\<lambda>_.
     done_with okResp))"

definition doUse :: "env \<Rightarrow> Request \<Rightarrow> handler" where
  "doUse E req = bindT (atomic (on_ks (Use E (RqName req)))) (\<lambda>_. done_with okResp)"

text \<open>The critical section of \<open>doConnect\<close> that looks at the current session: the view if it is
  already the one asked for, or else the session to be closed first, taken out of the server.\<close>

definition connect_lock :: "env \<Rightarrow> gostring \<Rightarrow> (server \<times> world, 'e, StatusView + session option) act" where
  "connect_lock E name = with_server (\<lambda>sv. case sess sv of
     Some old \<Rightarrow> if sessKey sv = name then bindA (statusViewLocked E) (\<lambda>view. ret (Inl view))
       else bindA take_session (\<lambda>s. ret (Inr s))
   | None \<Rightarrow> ret (Inr None))"

definition session_config :: "server_config \<Rightarrow> gostring \<Rightarrow> config" where
  "session_config c url = zero_config\<lparr>TransportURL := url, StateDir := SrvStateDir c,
     ResolvPath := SrvResolvPath c, OUFVersion := SrvVersion c\<rparr>"

definition publish :: "env \<Rightarrow> gostring \<Rightarrow> session \<Rightarrow> (server \<times> world, 'e, StatusView) act" where
  "publish E name s = (\<lambda>(sv, w).
     statusViewLocked E (sv\<lparr>sess := Some s, sessKey := name, sessSince := now E (clock w)\<rparr>, w))"

definition fresh_connect :: "env \<Rightarrow> gostring \<Rightarrow> key \<Rightarrow> handler" where
  "fresh_connect E name key =
     bindT (atomic (reading (\<lambda>sv. New (session_config (scfg sv) (URL key))))) (\<lambda>built. case built of
       Inl e \<Rightarrow> fail_with (BuildSession e)
     | Inr s \<Rightarrow>
         bindT (atomic (mapE StartFailed (on_sess (Start E) s))) (\<lambda>started.
         bindT (atomic (publish E name started)) (\<lambda>view.
         bindT (atomic (attempt (on_ks (MarkConnected E name)))) (\<lambda>_.
         done_with (okResp\<lparr>RsConnected := Some view\<rparr>)))))"

definition doConnect :: "env \<Rightarrow> Request \<Rightarrow> handler" where
  "doConnect E req =
     bindT (if RqName req = [] then atomic (reading (\<lambda>sv. ActiveName (ks sv))) else done_with (RqName req)) (\<lambda>name.
     if name = [] then fail_with NoKeyGiven
     else bindT (atomic (reading (\<lambda>sv. Get (ks sv) name))) (\<lambda>found. case found of
       None \<Rightarrow> fail_with (NoSuchKey name)
     | Some key \<Rightarrow>
         bindT (atomic (connect_lock E name)) (\<lambda>current. case current of
           Inl view \<Rightarrow> done_with (okResp\<lparr>RsConnected := Some view\<rparr>)
         | Inr None \<Rightarrow> fresh_connect E name key
         | Inr (Some old) \<Rightarrow>
             bindT (atomic (mapE SwitchFailed (on_sess (Close E) old))) (\<lambda>_. fresh_connect E name key))))"

definition doDisconnect :: "env \<Rightarrow> handler" where
  "doDisconnect E = bindT (atomic take_session) (\<lambda>old. case old of
     None \<Rightarrow> fail_with NotConnected
   | Some s \<Rightarrow> bindT (atomic (mapE CloseFailed (on_sess (Close E) s))) (\<lambda>_. done_with okResp))"

definition doStatus :: "env \<Rightarrow> handler" where
  "doStatus E = bindT (atomic (statusViewLocked E)) (\<lambda>view. done_with (okResp\<lparr>RsStatus := Some view\<rparr>))"

definition doUndo :: "env \<Rightarrow> handler" where
  "doUndo E = bindT (atomic take_session) (\<lambda>old. case old of
     Some s \<Rightarrow> bindT (atomic (mapE UndoClose (on_sess (Close E) s))) (\<lambda>_. done_with okResp)
   | None \<Rightarrow> bindT (atomic (mapE UndoScript (with_server (\<lambda>sv.
         on_host (RunPanicStandalone E (SrvStateDir (scfg sv)) (SrvResolvPath (scfg sv))))))) (\<lambda>_. done_with okResp))"

definition dispatch :: "env \<Rightarrow> Request \<Rightarrow> (server \<times> world, 'e, daemon_error Response) thread" where
  "dispatch E req = catchT errResp (
     if Method req = MethodPing then done_with okResp
     else if Method req = MethodList then doList
     else if Method req = MethodAdd then doAdd E req
     else if Method req = MethodRemove then doRemove E req
     else if Method req = MethodRename then doRename E req
     else if Method req = MethodUse then doUse E req
     else if Method req = MethodConnect then doConnect E req
     else if Method req = MethodDisconnect then doDisconnect E
     else if Method req = MethodStatus then doStatus E
     else if Method req = MethodUndo then doUndo E
     else fail_with (UnknownMethod (Method req)))"

section \<open>Connections\<close>

record conn =
  inbox :: stream
  outbox :: stream

text \<open>\<open>text\<close> stands for the wording of the error messages.\<close>

definition worded :: "('e \<Rightarrow> gostring) \<Rightarrow> 'e Response \<Rightarrow> gostring Response" where
  "worded text r = \<lparr>Ok = Ok r, Err = map_option text (Err r), RsKeys = RsKeys r, RsActive = RsActive r,
     RsAdded = RsAdded r, RsConnected = RsConnected r, RsStatus = RsStatus r\<rparr>"

definition handle :: "env \<Rightarrow> (daemon_error \<Rightarrow> gostring) \<Rightarrow> conn \<Rightarrow> (server \<times> world, 'e, conn) thread" where
  "handle E text c = (case ReadMessage decode_request (inbox c) of
     (Inl _, i) \<Rightarrow> done_with (c\<lparr>inbox := i\<rparr>)
   | (Inr req, i) \<Rightarrow> bindT (dispatch E req) (\<lambda>resp.
       done_with (c\<lparr>inbox := i, outbox := snd (WriteMessage (encode_response (worded text resp)) (outbox c))\<rparr>)))"

section \<open>Running\<close>

text \<open>The socket is a file without contents; who owns a file is not part of the world.\<close>

definition net_listen :: "env \<Rightarrow> path \<Rightarrow> (world, oserr, unit) act" where
  "net_listen E p = sys E nothing (\<lambda>w. if fs w p = None
     then (Inr (), set_node p (Some (File (Bytes []) mode_0755)) w) else (Inl EBUSY, w))"

definition os_chown :: "env \<Rightarrow> path \<Rightarrow> int \<Rightarrow> (world, oserr, unit) act" where
  "os_chown E p gid = sys E nothing (\<lambda>w. (if fs w p = None then Inl ENOENT else Inr (), w))"

text \<open>\<open>strconv.Atoi\<close>: decimal digits after an optional sign, within 64 bits; the shell's tests read
  the same strings.\<close>

definition Atoi :: "gostring \<Rightarrow> int option" where
  "Atoi s = sh_int s"

datatype chgrp_error = LookupGroup gostring | ParseGid gostring | ChownSocket oserr

definition chgrpSocket :: "env \<Rightarrow> (gostring \<Rightarrow> gostring option) \<Rightarrow> path \<Rightarrow> gostring \<Rightarrow> (world, chgrp_error, unit) act" where
  "chgrpSocket E groups p groupName = (case groups groupName of
     None \<Rightarrow> throw (LookupGroup groupName)
   | Some g \<Rightarrow> (case Atoi g of
       None \<Rightarrow> throw (ParseGid g)
     | Some gid \<Rightarrow> mapE ChownSocket (os_chown E p gid)))"

datatype serve_error = MkdirSocket oserr | ListenFailed oserr | ShutdownRevert run_error

text \<open>The connections in the order they are accepted; \<open>None\<close> is a failing \<open>Accept\<close>. Here each
  is handled before the next; the threads of the handlers in a pool are the other reading.\<close>

fun serve :: "env \<Rightarrow> (daemon_error \<Rightarrow> gostring) \<Rightarrow> conn option list \<Rightarrow> (server \<times> world, serve_error, conn list) act" where
  "serve E text [] = ret []"
| "serve E text (None # cs) = serve E text cs"
| "serve E text (Some c # cs) = bindA (alone (handle E text c)) (\<lambda>c'.
     bindA (serve E text cs) (\<lambda>cs'. ret (c' # cs')))"

definition shutdown :: "env \<Rightarrow> (server \<times> world, serve_error, unit) act" where
  "shutdown E = bindA take_session (\<lambda>old. case old of
     None \<Rightarrow> ret ()
   | Some s \<Rightarrow> bindA (mapE ShutdownRevert (on_sess (Close E) s)) (\<lambda>_. ret ()))"

definition Run :: "env \<Rightarrow> (gostring \<Rightarrow> gostring option) \<Rightarrow> (daemon_error \<Rightarrow> gostring) \<Rightarrow> conn option list
    \<Rightarrow> (server \<times> world, serve_error, conn list) act" where
  "Run E groups text conns = with_server (\<lambda>sv. let c = scfg sv in
     bindA (seqA [
       mapE MkdirSocket (on_host (os_mkdir_all E (filepath_dir (SocketPath c)) mode_0755)),
       ignoreA (on_host (os_remove E (SocketPath c))),
       mapE ListenFailed (on_host (net_listen E (SocketPath c))),
       ignoreA (on_host (os_chmod E (SocketPath c) mode_0660)),
       (if SocketGroup c \<noteq> [] then ignoreA (on_host (chgrpSocket E groups (SocketPath c) (SocketGroup c)))
        else ret ())]) (\<lambda>_.
     bindA (serve E text conns) (\<lambda>answered.
     bindA (seqA [ignoreA (on_host (os_remove E (SocketPath c))), shutdown E]) (\<lambda>_.
     ret answered))))"

section \<open>The program\<close>

text \<open>The defaults of the command line.\<close>

definition main_config :: "gostring \<Rightarrow> server_config" where
  "main_config version = \<lparr>SocketPath = ''/run/outline-fedora/oufdee.sock'', SocketGroup = ''wheel'',
     KeysPath = ''/etc/outline-fedora/keys.json'', SrvStateDir = ''/var/lib/outline-fedora'',
     SrvResolvPath = ''/etc/resolv.conf'', SrvVersion = version\<rparr>"

datatype main_error = InitFailed open_error | RunFailed serve_error

definition oufdee_main :: "env \<Rightarrow> (gostring \<Rightarrow> gostring option) \<Rightarrow> (daemon_error \<Rightarrow> gostring) \<Rightarrow> conn option list
    \<Rightarrow> server_config \<Rightarrow> (world, main_error, conn list) act" where
  "oufdee_main E groups text conns c = bindA (mapE InitFailed (NewServer E c)) (\<lambda>sv w.
     case mapE RunFailed (Run E groups text conns) (sv, w) of (r, (_, w')) \<Rightarrow> (r, w'))"


text \<open>The command line, and the exit code: \<open>Fatalf\<close> exits with 1.\<close>

datatype launch = ShowVersion | Launch server_config | LaunchExit nat

definition oufdee_args :: "gostring \<Rightarrow> gostring list \<Rightarrow> launch" where
  "oufdee_args version argv = (let c = main_config version in
     case parse_flags [(''socket'', StringFlag), (''group'', StringFlag), (''keys'', StringFlag),
       (''state-dir'', StringFlag), (''resolv'', StringFlag), (''version'', BoolFlag)] argv of
       FlagExit n \<Rightarrow> LaunchExit n
     | Parsed given _ \<Rightarrow> if flag_set ''version'' given then ShowVersion
         else Launch \<lparr>SocketPath = flag_value ''socket'' (SocketPath c) given,
           SocketGroup = flag_value ''group'' (SocketGroup c) given,
           KeysPath = flag_value ''keys'' (KeysPath c) given,
           SrvStateDir = flag_value ''state-dir'' (SrvStateDir c) given,
           SrvResolvPath = flag_value ''resolv'' (SrvResolvPath c) given, SrvVersion = version\<rparr>)"

definition oufdee :: "env \<Rightarrow> (gostring \<Rightarrow> gostring option) \<Rightarrow> (daemon_error \<Rightarrow> gostring) \<Rightarrow> conn option list
    \<Rightarrow> gostring \<Rightarrow> gostring list \<Rightarrow> (world, unit, nat) act" where
  "oufdee E groups text conns version argv = (case oufdee_args version argv of
     LaunchExit n \<Rightarrow> ret n
   | ShowVersion \<Rightarrow> ret 0
   | Launch c \<Rightarrow> bindA (attempt (oufdee_main E groups text conns c)) (\<lambda>r. ret (if isl r then 1 else 0)))"

lemma oufdee_no_args: "oufdee_args version [] = Launch (main_config version)"
  by (simp add: oufdee_args_def main_config_def flag_set_def flag_value_def parse_bool_def)

end
