(* ===== verification/ServerFacts.thy ===== *)
theory ServerFacts
  imports Server SessionFacts KeystoreFacts
begin

text \<open>
  The sections of the daemon's handlers, and what every one of them keeps: the store stays
  well-formed, and a key name is recorded exactly when there is a session. Since each section
  keeps it by itself, every interleaving of handlers does.
\<close>

section \<open>Weakest preconditions of the sections\<close>

lemma wp_on_host [wp_simps]:
  "wp (on_host m) Q X D (sv, w) = wp m (\<lambda>a w'. Q a (sv, w')) (\<lambda>e w'. X e (sv, w')) (\<lambda>w'. D (sv, w')) w"
  by (auto simp: wp_def on_host_def split: prod.splits outcome.splits)

lemma wp_on_ks [wp_simps]:
  "wp (on_ks m) Q X D (sv, w) = wp m (\<lambda>a (k, w'). Q a (sv\<lparr>ks := k\<rparr>, w'))
     (\<lambda>e (k, w'). X (KeystoreError e) (sv\<lparr>ks := k\<rparr>, w')) (\<lambda>(k, w'). D (sv\<lparr>ks := k\<rparr>, w')) (ks sv, w)"
  by (auto simp: wp_def on_ks_def mapE_def split: prod.splits outcome.splits)

lemma wp_on_sess [wp_simps]:
  "wp (on_sess m s) Q X D (sv, w) = wp m (\<lambda>_ (s', w'). Q s' (sv, w')) (\<lambda>e (s', w'). X e (sv, w'))
     (\<lambda>(s', w'). D (sv, w')) (s, w)"
  by (auto simp: wp_def on_sess_def split: prod.splits outcome.splits)

lemma wp_with_server [wp_simps]: "wp (with_server f) Q X D (sv, w) = wp (f sv) Q X D (sv, w)"
  by (simp add: wp_def with_server_def)

lemma wp_modify [wp_simps]: "wp (modify f) Q X D (sv, w) = Q () (f sv, w)"
  by (simp add: wp_def modify_def)

lemma wp_reading [wp_simps]: "wp (reading f) Q X D (sv, w) = Q (f sv) (sv, w)"
  by (simp add: reading_def wp_simps)

lemma no_session_sel [simp]:
  "ks (no_session sv) = ks sv" "sess (no_session sv) = None" "sessKey (no_session sv) = []"
  "scfg (no_session sv) = scfg sv"
  by (simp_all add: no_session_def)

lemma wp_take_session [wp_simps]: "wp take_session Q X D (sv, w) = Q (sess sv) (no_session sv, w)"
  by (simp add: take_session_def wp_simps)

definition view_of :: "server \<Rightarrow> bool \<Rightarrow> StatusView" where
  "view_of sv dirty = (case sess sv of
     None \<Rightarrow> zero_statusview\<lparr>SvDirty := dirty\<rparr>
   | Some s \<Rightarrow> \<lparr>SvConnected = True, SvKeyName = sessKey sv, SvSince = sessSince sv,
       SvServerIP = (case svrIP s of None \<Rightarrow> [] | Some ip \<Rightarrow> ip), SvTunName = [], SvDirty = False\<rparr>)"

lemma wp_statusView:
  assumes "\<And>d. Q (view_of sv d) (sv, tick w)" "D (sv, tick w)"
  shows "wp (statusViewLocked E) Q X D (sv, w)"
proof -
  have "Q (view_of sv False) (sv, tick w)" "Q (view_of sv True) (sv, tick w)" by (rule assms(1))+
  then show ?thesis
    unfolding statusViewLocked_def Let_def
    by (cases "sess sv")
      (auto simp: wp_simps view_of_def zero_statusview_def ServerIP_def assms(2) intro!: wp_os_stat)
qed

lemma wp_publish: "wp (publish E name s) Q X D (sv, w)
    = wp (statusViewLocked E) Q X D (sv\<lparr>sess := Some s, sessKey := name, sessSince := now E (clock w)\<rparr>, w)"
  by (simp add: publish_def wp_def)

lemma okResp_sel [simp]: "Ok okResp" "Err okResp = None"
  by (simp_all add: okResp_def)

section \<open>The key store in the server\<close>

lemma wp_voidA: "wp (voidA m) Q X D = wp m (\<lambda>_. Q ()) X D"
  by (simp add: voidA_def wp_bind wp_ret)

text \<open>What an operation may have done to the store, by ending.\<close>

definition ks_moved :: "ks_op \<Rightarrow> store \<Rightarrow> store \<Rightarrow> bool" where
  "ks_moved req s s' \<longleftrightarrow> (s' = s \<and> (\<exists>a. req = OpRename a a \<and> nameOK a))
     \<or> (\<exists>E k t t'. accepted E req k t (state s) \<and> s' = set_state (new_state req k t') s)"

definition ks_kept :: "store \<Rightarrow> store \<Rightarrow> bool" where
  "ks_kept s s' \<longleftrightarrow> spath s' = spath s \<and> mset (Keys (state s')) = mset (Keys (state s))"

lemma ks_kept_refl [simp]: "ks_kept s s"
  by (simp add: ks_kept_def)

lemma Rename_same_ok: "Rename E a a (s, w) = (Ret (), (s', w')) \<Longrightarrow> nameOK a"
  by (cases "validateName a") (auto simp: Rename_def Let_def validateName_Inr)

lemma rolled_back_kept:
  assumes "accepted E req k t (state s)"
  shows "ks_kept s (set_state (rolled_back req k) s)"
proof (cases req)
  case (OpRemove n)
  with assms have "n \<in> set (names (Keys (state s)))" by simp
  then obtain i where "find_index (\<lambda>k. Name k = n) (Keys (state s)) = Some i" "i < length (Keys (state s))"
    by (rule find_name)
  with mset_put_back [of i "Keys (state s)"] show ?thesis by (simp add: OpRemove ks_kept_def)
qed (simp_all add: ks_kept_def)

lemma wp_ks_exec:
  assumes "spath s \<notin> key_temps s"
  defines "files \<equiv> insert (spath s) (key_temps s)"
  shows "wp (ks_exec E req) (\<lambda>_ (s', w'). ks_moved req s s' \<and> spath s' = spath s \<and> same_but files w w')
     (\<lambda>_ (s', w'). ks_kept s s' \<and> same_but files w w')
     (\<lambda>(s', w'). same_but files w w') (s, w)"
proof (cases rule: ks_exec_cases [of E req s w])
  case (still r)
  then show ?thesis
    by (cases r) (auto simp: wp_def ks_moved_def dest: Rename_same_ok)
next
  case (commit k)
  define s1 where "s1 = set_state (new_state req k (now E (clock w))) s"
  have p: "spath s1 = spath s" "key_temps s1 = key_temps s" by (simp_all add: s1_def key_temps_def)
  have "same_but files w w'" if "persist E s1 w = (r, w')" for r w'
    using ks_file.commit_frame [OF _ that] assms(1) by (simp add: p files_def)
  moreover have "ks_moved req s s1" using commit(1) by (auto simp: ks_moved_def s1_def)
  ultimately show ?thesis
    using commit(2) rolled_back_kept [OF commit(1)] p(1)
    by (auto simp: wp_def s1_def [symmetric] elim!: commit_or_cases split: prod.split)
qed

lemma wf_on_ks:
  assumes "\<And>w. snd (m (s, w)) = snd (ks_exec E req (s, w))" "ks_wf (state s)"
  shows "wp m (\<lambda>_ (s', w). ks_wf (state s')) (\<lambda>_ (s', w). ks_wf (state s')) (\<lambda>(s', w). ks_wf (state s')) (s, w)"
  using ks_exec_wf [OF assms(2), of E req w] assms(1) [of w]
  by (cases "m (s, w)") (auto simp: wp_def split: outcome.split)

section \<open>The state under every interleaving\<close>

definition server_ok :: "server \<Rightarrow> bool" where
  "server_ok sv \<longleftrightarrow> ks_wf (state (ks sv)) \<and> (sess sv = None \<longleftrightarrow> sessKey sv = [])"

abbreviation ok_at :: "server \<times> world \<Rightarrow> bool" where
  "ok_at svw \<equiv> server_ok (fst svw)"

lemma server_ok_simps [simp]:
  "server_ok (sv\<lparr>ks := k\<rparr>) \<longleftrightarrow> ks_wf (state k) \<and> (sess sv = None \<longleftrightarrow> sessKey sv = [])"
  "server_ok (no_session sv) \<longleftrightarrow> ks_wf (state (ks sv))"
  "server_ok (sv\<lparr>sess := Some s, sessKey := n, sessSince := t\<rparr>) \<longleftrightarrow> ks_wf (state (ks sv)) \<and> n \<noteq> []"
  by (simp_all add: server_ok_def no_session_def)

lemma steady_reading [steady_intros]: "steady ok_at (\<lambda>_. True) (atomic (reading f))"
  by (rule steady_atomic) (auto simp: wp_reading)

lemma steady_on_host [steady_intros]: "steady ok_at (\<lambda>_. True) (atomic (on_host m))"
  by (rule steady_atomic) (auto simp: wp_def on_host_def split: prod.split outcome.split)

lemma steady_on_sess [steady_intros]: "steady ok_at (\<lambda>_. True) (atomic (mapE h (on_sess m s)))"
  by (rule steady_atomic) (auto simp: wp_def mapE_def on_sess_def split: prod.split outcome.split)

lemma steady_take_session [steady_intros]: "steady ok_at (\<lambda>_. True) (atomic take_session)"
  by (rule steady_atomic) (auto simp: wp_take_session server_ok_def)

lemma steady_statusView [steady_intros]: "steady ok_at (\<lambda>_. True) (atomic (statusViewLocked E))"
  by (rule steady_atomic) (auto intro!: wp_statusView)

lemma steady_publish [steady_intros]: "name \<noteq> [] \<Longrightarrow> steady ok_at (\<lambda>_. True) (atomic (publish E name s))"
proof (rule steady_atomic, clarify)
  fix sv :: server and w :: world assume "name \<noteq> []" "server_ok (fst (sv, w))"
  then have "server_ok (sv\<lparr>sess := Some s, sessKey := name, sessSince := now E (clock w)\<rparr>)"
    by (simp add: server_ok_def)
  then show "wp (publish E name s) (\<lambda>_ svw'. True \<and> ok_at svw') (\<lambda>_. ok_at) ok_at (sv, w)"
    unfolding wp_publish by (intro wp_statusView) simp_all
qed

lemma steady_connect_lock [steady_intros]: "steady ok_at (\<lambda>_. True) (atomic (connect_lock E name))"
proof (rule steady_atomic, clarify)
  fix sv :: server and w :: world assume "server_ok (fst (sv, w))"
  then show "wp (connect_lock E name) (\<lambda>_ svw'. True \<and> ok_at svw') (\<lambda>_. ok_at) ok_at (sv, w)"
    by (auto simp: connect_lock_def wp_simps server_ok_def split: option.split intro!: wp_statusView)
qed

lemma steady_on_ks:
  assumes "\<And>s w. snd (m (s, w)) = snd (ks_exec E req (s, w))"
    and "\<And>s w a s' w'. ks_wf (state s) \<Longrightarrow> m (s, w) = (Ret a, (s', w')) \<Longrightarrow> P a"
  shows "steady ok_at P (atomic (on_ks m))"
proof (rule steady_atomic, clarify)
  fix sv :: server and w :: world assume ok: "server_ok (fst (sv, w))"
  then have wf: "ks_wf (state (ks sv))" by (simp add: server_ok_def)
  show "wp (on_ks m) (\<lambda>a svw'. P a \<and> ok_at svw') (\<lambda>_. ok_at) ok_at (sv, w)"
    using wf_on_ks [OF assms(1) wf, of w] assms(2) [OF wf] ok unfolding wp_on_ks
    by (auto simp: wp_def server_ok_def split: prod.splits outcome.splits)
qed

lemma ks_execs:
  "snd (Add E u n sw) = snd (ks_exec E (OpAdd u n) sw)" "snd (Remove E n sw) = snd (ks_exec E (OpRemove n) sw)"
  "snd (Rename E a b sw) = snd (ks_exec E (OpRename a b) sw)" "snd (Use E n sw) = snd (ks_exec E (OpUse n) sw)"
  "snd (MarkConnected E n sw) = snd (ks_exec E (OpMarkConnected n) sw)"
  by simp_all

lemma steady_ks_ops [steady_intros]:
  "steady ok_at (\<lambda>_. True) (atomic (on_ks (Add E u n)))" "steady ok_at (\<lambda>_. True) (atomic (on_ks (Remove E n)))"
  "steady ok_at (\<lambda>_. True) (atomic (on_ks (Use E n)))"
  by (rule steady_on_ks [OF ks_execs(1)], simp, rule steady_on_ks [OF ks_execs(2)], simp,
      rule steady_on_ks [OF ks_execs(4)], simp)

lemma Rename_names:
  assumes "ks_wf (state s)" "Rename E a b (s, w) = (Ret (), (s', w'))"
  shows "b \<noteq> [] \<and> (a = [] \<longrightarrow> a = b)"
proof -
  have "nameOK b"
    using assms(2) by (cases "validateName b") (auto simp: Rename_def Let_def validateName_Inr)
  moreover have "lookup [] (Keys (state s)) = None"
    using assms(1) nameOK_nonempty unfolding lookup_None by (auto simp: ks_wf_def list_all_iff)
  then have "a = [] \<longrightarrow> a = b"
    using assms(2) by (cases "validateName b") (auto simp: Rename_def Let_def split: if_splits)
  ultimately show ?thesis using nameOK_nonempty by blast
qed

lemma steady_rename: "steady ok_at (\<lambda>_. b \<noteq> [] \<and> (a = [] \<longrightarrow> a = b)) (atomic (on_ks (Rename E a b)))"
  by (rule steady_on_ks [OF ks_execs(3)]) (auto dest: Rename_names)

lemma steady_sync: "b \<noteq> [] \<Longrightarrow> (a = [] \<longrightarrow> a = b) \<Longrightarrow>
    steady ok_at (\<lambda>_. True) (atomic (modify (\<lambda>sv. if sessKey sv = a then sv\<lparr>sessKey := b\<rparr> else sv)))"
  by (rule steady_atomic) (auto simp: wp_modify server_ok_def)

lemma steady_mark [steady_intros]: "steady ok_at (\<lambda>_. True) (atomic (attempt (on_ks (MarkConnected E n))))"
proof (rule steady_atomic, clarify)
  fix sv :: server and w :: world assume ok: "server_ok (fst (sv, w))"
  then have wf: "ks_wf (state (ks sv))" by (simp add: server_ok_def)
  show "wp (attempt (on_ks (MarkConnected E n))) (\<lambda>_ svw'. True \<and> ok_at svw') (\<lambda>_. ok_at) ok_at (sv, w)"
    using wf_on_ks [OF ks_execs(5) wf, of E n w] ok unfolding wp_attempt wp_on_ks
    by (auto simp: server_ok_def wp_def split: prod.splits outcome.splits)
qed

lemma steady_bind_any: "steady I (\<lambda>_. True) p \<Longrightarrow> (\<And>a. steady I Q (f a)) \<Longrightarrow> steady I Q (bindT p f)"
  by (rule steady_bind) auto

lemma steady_if: "(b \<Longrightarrow> steady I Q p) \<Longrightarrow> (\<not> b \<Longrightarrow> steady I Q q) \<Longrightarrow> steady I Q (if b then p else q)"
  by simp

lemma steady_fresh_connect: "name \<noteq> [] \<Longrightarrow> steady ok_at (\<lambda>_. True) (fresh_connect E name key)"
  unfolding fresh_connect_def
  by (intro steady_bind_any steady_intros) (auto split: sum.split intro!: steady_bind_any steady_intros)

lemma steady_doConnect: "steady ok_at (\<lambda>_. True) (doConnect E req)"
  unfolding doConnect_def
  by (intro steady_bind_any steady_if)
    (auto split: option.split sum.split intro!: steady_bind_any steady_intros steady_fresh_connect)

lemma steady_doUndo: "steady ok_at (\<lambda>_. True) (doUndo E)"
proof -
  have "steady ok_at (\<lambda>_. True) (atomic (mapE UndoScript (with_server (\<lambda>sv.
         on_host (RunPanicStandalone E (SrvStateDir (scfg sv)) (SrvResolvPath (scfg sv)))))))"
    by (rule steady_atomic) (auto simp: wp_def mapE_def with_server_def on_host_def split: prod.split outcome.split)
  then show ?thesis
    unfolding doUndo_def by (intro steady_bind_any) (auto split: option.split intro!: steady_bind_any steady_intros)
qed

lemma steady_dispatch: "steady ok_at (\<lambda>_. True) (dispatch E req)"
  unfolding dispatch_def
proof (intro steady_intros steady_if steady_doConnect steady_doUndo)
  show "steady ok_at (\<lambda>_. True) (doRename E req)"
    unfolding doRename_def
    by (rule steady_bind [OF steady_rename]) (auto intro!: steady_bind_any steady_sync steady_intros)
qed (auto simp: doList_def doAdd_def doRemove_def doUse_def doDisconnect_def doStatus_def
    split: option.split intro!: steady_bind_any steady_if steady_intros)

end
