(* ===== verification/ServerAlone.thy ===== *)
theory ServerAlone
  imports ServerFacts
begin

text \<open>
  Requests handled one after the other: what a handler does when no other runs between its
  sections. The key of the running session is then always a stored key.
\<close>

definition stored_name :: "store \<Rightarrow> gostring \<Rightarrow> bool" where
  "stored_name s n \<longleftrightarrow> n \<in> set (map Name (Keys (state s)))"

lemma Get_stored: "Get s n \<noteq> None \<longleftrightarrow> stored_name s n"
  by (simp add: Get_def stored_name_def lookup_None)

lemma stored_lookup: "stored_name s n \<longleftrightarrow> lookup n (Keys (state s)) \<noteq> None"
  by (simp only: stored_name_def lookup_None not_not)

lemma Get_Some_stored: "Get s n = Some k \<Longrightarrow> stored_name s n"
  using Get_stored [of s n] by simp

lemma kept_stored: "ks_kept s s' \<Longrightarrow> stored_name s' n = stored_name s n"
  unfolding ks_kept_def stored_name_def by (metis list.set_map mset_eq_setD)

lemma moved_stored:
  assumes "ks_moved req s s'" "ks_wf (state s)" "stored_name s n" "\<And>m. req = OpRemove m \<Longrightarrow> m \<noteq> n"
  shows "stored_name s' (case req of OpRename a b \<Rightarrow> if n = a then b else n | _ \<Rightarrow> n)"
proof -
  have dist: "distinct (map Name (Keys (state s)))" using assms(2) by (simp add: ks_wf_def)
  show ?thesis
  proof (cases req)
    case (OpRemove m)
    with assms(1) obtain k t where m: "m \<in> set (map Name (Keys (state s)))"
      "s' = set_state (new_state (OpRemove m) k t) s" by (auto simp: ks_moved_def)
    then obtain i where "find_index (\<lambda>k. Name k = m) (Keys (state s)) = Some i"
      "i < length (Keys (state s))" "Name (Keys (state s) ! i) = m" using find_name [of m "Keys (state s)"] by metis
    then have "lookup n (Keys (state s')) = lookup n (Keys (state s))"
      using assms(4) [OF OpRemove] by (simp add: m(2) lookup_remove_at [OF dist])
    then show ?thesis
      using assms(3) by (simp add: OpRemove stored_lookup)
  next
    case (OpRename a b)
    have names: "set (map Name (rename_first a b (Keys (state s)))) = (\<lambda>n. if n = a then b else n) ` set (map Name (Keys (state s)))"
      by (simp only: names_rename_first [OF dist] set_map)
    consider "s' = s" "a = b" | t k where "s' = set_state (new_state (OpRename a b) k t) s"
      using assms(1) by (auto simp: ks_moved_def OpRename)
    then show ?thesis
    proof cases
      case 2
      then have "Keys (state s') = rename_first a b (Keys (state s))" by simp
      then show ?thesis using assms(3) names unfolding stored_name_def OpRename by (metis (mono_tags, lifting) image_iff ks_op.case(3))
    qed (use assms(3) OpRename in simp)
  qed (use assms in \<open>auto simp: ks_moved_def stored_name_def\<close>)
qed

text \<open>What one request keeps.\<close>

definition stored :: "server \<Rightarrow> bool" where
  "stored sv \<longleftrightarrow> server_ok sv \<and> spath (ks sv) \<notin> key_temps (ks sv)
     \<and> (sessKey sv \<noteq> [] \<longrightarrow> stored_name (ks sv) (sessKey sv))"

abbreviation stored_at :: "server \<times> world \<Rightarrow> bool" where
  "stored_at svw \<equiv> stored (fst svw)"

section \<open>One rule for the operations of the store\<close>

definition key_files :: "server \<Rightarrow> path set" where
  "key_files sv = insert (spath (ks sv)) (key_temps (ks sv))"

lemma voidA_unit: "voidA m = m"
  by (rule ext) (auto simp: voidA_def bindA_def ret_def split: prod.split outcome.split)

lemma op_of:
  "voidA (Add E u n) = ks_exec E (OpAdd u n)" "voidA (Remove E n) = ks_exec E (OpRemove n)"
  "voidA (Rename E a b) = ks_exec E (OpRename a b)" "voidA (Use E n) = ks_exec E (OpUse n)"
  "voidA (MarkConnected E n) = ks_exec E (OpMarkConnected n)"
  by (simp_all add: voidA_unit)

lemma wp_on_ks_op:
  assumes "voidA m = ks_exec E req" "server_ok sv" "spath (ks sv) \<notin> key_temps (ks sv)"
    and "\<And>a k w'. ks_moved req (ks sv) k \<Longrightarrow> spath k = spath (ks sv) \<Longrightarrow> ks_wf (state k) \<Longrightarrow>
       same_but (key_files sv) w w' \<Longrightarrow> Q a (sv\<lparr>ks := k\<rparr>, w')"
    "\<And>e k w'. ks_kept (ks sv) k \<Longrightarrow> ks_wf (state k) \<Longrightarrow> same_but (key_files sv) w w' \<Longrightarrow>
       X (KeystoreError e) (sv\<lparr>ks := k\<rparr>, w')"
    "\<And>k w'. same_but (key_files sv) w w' \<Longrightarrow> D (sv\<lparr>ks := k\<rparr>, w')"
  shows "wp (on_ks m) Q X D (sv, w)"
proof -
  have wf: "ks_wf (state (ks sv))" using assms(2) by (simp add: server_ok_def)
  have "wp (ks_exec E req) (\<lambda>_ (k, w'). \<forall>a. Q a (sv\<lparr>ks := k\<rparr>, w'))
     (\<lambda>e (k, w'). X (KeystoreError e) (sv\<lparr>ks := k\<rparr>, w')) (\<lambda>(k, w'). D (sv\<lparr>ks := k\<rparr>, w')) (ks sv, w)"
    by (rule wp_mono [OF wp_conj [OF wp_ks_exec [OF assms(3)] wf_on_ks [OF refl wf]]])
      (use assms(4-6) in \<open>auto simp: key_files_def\<close>)
  then have "wp m (\<lambda>_ (k, w'). \<forall>a. Q a (sv\<lparr>ks := k\<rparr>, w'))
     (\<lambda>e (k, w'). X (KeystoreError e) (sv\<lparr>ks := k\<rparr>, w')) (\<lambda>(k, w'). D (sv\<lparr>ks := k\<rparr>, w')) (ks sv, w)"
    unfolding assms(1) [symmetric] wp_voidA .
  then show ?thesis unfolding wp_on_ks by (rule wp_mono) auto
qed

section \<open>The connected key is stored\<close>

lemma stored_ok: "stored sv \<Longrightarrow> server_ok sv" "stored sv \<Longrightarrow> spath (ks sv) \<notin> key_temps (ks sv)"
  by (simp_all add: stored_def)

lemma key_temps_eq: "spath k = spath s \<Longrightarrow> key_temps k = key_temps s"
  by (simp add: key_temps_def)

lemma stored_kept:
  assumes "stored sv" "ks_kept (ks sv) k" "ks_wf (state k)"
  shows "stored (sv\<lparr>ks := k\<rparr>)"
proof -
  have p: "spath k = spath (ks sv)" using assms(2) by (simp add: ks_kept_def)
  show ?thesis
    using assms(1,3) kept_stored [OF assms(2)] by (simp add: stored_def server_ok_def p key_temps_eq [OF p])
qed

text \<open>Operations that leave the name of the running session alone.\<close>

fun spares :: "gostring \<Rightarrow> ks_op \<Rightarrow> bool" where
  "spares n (OpRemove m) \<longleftrightarrow> m \<noteq> n"
| "spares n (OpRename a b) \<longleftrightarrow> False"
| "spares n _ \<longleftrightarrow> True"

lemma stored_moved:
  assumes "stored sv" "ks_moved req (ks sv) k" "spath k = spath (ks sv)" "ks_wf (state k)"
    "spares (sessKey sv) req"
  shows "stored (sv\<lparr>ks := k\<rparr>)"
proof -
  have wf: "ks_wf (state (ks sv))" and sync: "sess sv = None \<longleftrightarrow> sessKey sv = []"
    and temps: "spath k \<notin> key_temps k"
    using assms(1,3) key_temps_eq [OF assms(3)] by (simp_all add: stored_def server_ok_def)
  have "stored_name k (sessKey sv)" if "sessKey sv \<noteq> []"
  proof -
    have "stored_name (ks sv) (sessKey sv)" using assms(1) that by (simp add: stored_def)
    from moved_stored [OF assms(2) wf this] assms(5) show ?thesis by (cases req) auto
  qed
  then show ?thesis using assms(4) sync temps by (simp add: stored_def server_ok_def)
qed

lemma stored_no_session: "stored sv \<Longrightarrow> stored (no_session sv)"
  by (simp add: stored_def server_ok_def)

lemma wp_on_ks_stored:
  assumes "voidA m = ks_exec E req" "stored sv"
    "spares (sessKey sv) req"
  shows "wp (on_ks m) (\<lambda>_. stored_at) (\<lambda>_. stored_at) (\<lambda>_. True) (sv, w)"
  by (rule wp_on_ks_op [OF assms(1) stored_ok [OF assms(2)]])
    (simp_all add: stored_kept [OF assms(2)] stored_moved [OF assms(2) _ _ _ assms(3)])

lemma wp_any: "(\<And>a t. Q a t) \<Longrightarrow> (\<And>e t. X e t) \<Longrightarrow> (\<And>t. D t) \<Longrightarrow> wp m Q X D s"
  by (simp add: wp_def split: prod.split outcome.split)

lemma stored_doRename: "stored sv \<Longrightarrow> wp (alone (doRename E req)) (\<lambda>_. stored_at) (\<lambda>_. stored_at) (\<lambda>_. True) (sv, w)"
proof -
  assume st: "stored sv"
  let ?a = "RqName req" and ?b = "NewName req"
  have wf: "ks_wf (state (ks sv))" using st by (simp add: stored_def server_ok_def)
  have sync: "stored (if sessKey sv = ?a then sv\<lparr>ks := k, sessKey := ?b\<rparr> else sv\<lparr>ks := k\<rparr>)"
    if m: "ks_moved (OpRename ?a ?b) (ks sv) k" "spath k = spath (ks sv)" "ks_wf (state k)" for k
  proof -
    have "?b \<noteq> []" "?a \<noteq> []"
      using m(1) wf nameOK_nonempty by (auto simp: ks_moved_def ks_wf_def list_all_iff)
    moreover have "sessKey sv \<noteq> [] \<longrightarrow> stored_name k (if sessKey sv = ?a then ?b else sessKey sv)"
      using moved_stored [OF m(1) wf, of "sessKey sv"] st by (simp add: stored_def)
    moreover have "spath (ks sv) \<notin> key_temps (ks sv)" "sess sv = None \<longleftrightarrow> sessKey sv = []"
      using st by (simp_all add: stored_def server_ok_def)
    ultimately show ?thesis using m(2,3)
      by (cases "sessKey sv = ?a") (simp_all add: stored_def server_ok_def key_temps_eq [OF m(2)])
  qed
  show ?thesis
    unfolding doRename_def wp_alone_bind wp_alone_atomic wp_alone_done
    by (rule wp_on_ks_op [OF op_of(3) stored_ok [OF st]])
      (use sync st stored_kept in \<open>auto simp: wp_modify\<close>)
qed

lemma stored_publish:
  assumes "stored sv" "stored_name (ks sv) name" "name \<noteq> []"
  shows "stored (sv\<lparr>sess := Some s, sessKey := name, sessSince := t\<rparr>)"
  using assms by (auto simp: stored_def server_ok_def)

lemma stored_fresh_connect:
  assumes st: "stored sv" "stored_name (ks sv) name" "name \<noteq> []"
  shows "wp (alone (fresh_connect E name key)) (\<lambda>_. stored_at) (\<lambda>_. stored_at) (\<lambda>_. True) (sv, w)"
proof -
  have mark: "wp (on_ks (MarkConnected E name)) (\<lambda>_. stored_at) (\<lambda>_. stored_at) (\<lambda>_. True) t"
    if "stored_at t" for t
    using wp_on_ks_stored [OF op_of(5), where sv = "fst t" and w = "snd t"] that by (cases t) auto
  have pub: "wp (publish E name s) (\<lambda>_. stored_at) (\<lambda>_. stored_at) (\<lambda>_. True) (sv, w)" for s w
    unfolding wp_publish by (rule wp_statusView) (simp_all add: stored_publish [OF st])
  show ?thesis
    unfolding fresh_connect_def wp_alone_bind wp_alone_atomic wp_reading
    by (auto simp: wp_simps st split: sum.split intro!: wp_any wp_mono [OF pub] mark)
qed

abbreviation keeps_stored :: "handler \<Rightarrow> bool" where
  "keeps_stored p \<equiv> \<forall>sv w. stored sv \<longrightarrow> wp (alone p) (\<lambda>_. stored_at) (\<lambda>_. stored_at) (\<lambda>_. True) (sv, w)"

lemma stored_doConnect: "keeps_stored (doConnect E req)"
proof (intro allI impI)
  fix sv :: server and w :: world assume st: "stored sv"
  define name where "name = (if RqName req = [] then ActiveName (ks sv) else RqName req)"
  have start: "wp (alone (if RqName req = [] then atomic (reading (\<lambda>sv. ActiveName (ks sv))) else done_with (RqName req)))
      Q X D (sv, w) = Q name (sv, w)" for Q :: "gostring \<Rightarrow> server \<times> world \<Rightarrow> bool" and X D
    by (simp add: name_def wp_simps)
  have lock: "wp (connect_lock E name) (\<lambda>r t. stored_at t \<and> ks (fst t) = ks sv) (\<lambda>_ _. False) (\<lambda>_. True) (sv, w)"
    using stored_no_session [OF st] st
    by (auto simp: connect_lock_def wp_simps split: option.split intro!: wp_statusView)
  have fresh: "wp (alone (fresh_connect E name key)) (\<lambda>_. stored_at) (\<lambda>_. stored_at) (\<lambda>_. True) t"
    if "stored_at t \<and> ks (fst t) = ks sv" "stored_name (ks sv) name" "name \<noteq> []" for key t
    using stored_fresh_connect [of "fst t" name E key "snd t"] that by (cases t) simp
  have rest: "wp (alone (case current of
           Inl view \<Rightarrow> done_with (okResp\<lparr>RsConnected := Some view\<rparr>)
         | Inr None \<Rightarrow> fresh_connect E name key
         | Inr (Some old) \<Rightarrow> bindT (atomic (mapE SwitchFailed (on_sess (Close E) old))) (\<lambda>_. fresh_connect E name key)))
      (\<lambda>_. stored_at) (\<lambda>_. stored_at) (\<lambda>_. True) t"
    if "stored_at t \<and> ks (fst t) = ks sv" "Get (ks sv) name = Some key" "name \<noteq> []" for current key t
    using that fresh [OF _ Get_Some_stored [OF that(2)] that(3)]
    by (cases t) (auto simp: wp_simps split: sum.split option.split intro!: wp_any)
  show "wp (alone (doConnect E req)) (\<lambda>_. stored_at) (\<lambda>_. stored_at) (\<lambda>_. True) (sv, w)"
    unfolding doConnect_def wp_alone_bind start
    by (auto simp: wp_simps st split: option.split intro!: wp_mono [OF lock] rest)
qed

lemma stored_dispatch:
  assumes "stored sv"
  shows "wp (alone (dispatch E req)) (\<lambda>_. stored_at) (\<lambda>_ _. False) (\<lambda>_. True) (sv, w)"
proof -
  note ops = wp_on_ks_stored [OF op_of(1)] wp_on_ks_stored [OF op_of(2)] wp_on_ks_stored [OF op_of(4)]
  have view: "wp (statusViewLocked E) (\<lambda>_. stored_at) (\<lambda>_. stored_at) (\<lambda>_. True) (sv, w)" for E w
    by (rule wp_statusView) (simp_all add: assms)
  note quiet = stored_no_session [OF assms] assms
  have "keeps_stored doList" by (auto simp: doList_def wp_simps)
  moreover have "keeps_stored (doAdd E req)" by (auto simp: doAdd_def wp_alone_bind wp_alone_atomic wp_alone_done wp_reading intro!: wp_mono [OF ops(1)])
  moreover have "keeps_stored (doRemove E req)"
    by (auto simp: doRemove_def wp_alone_bind wp_alone_atomic wp_alone_done wp_alone_fail wp_reading intro!: ops(2))
  moreover have "keeps_stored (doRename E req)" using stored_doRename by blast
  moreover have "keeps_stored (doUse E req)"
    by (auto simp: doUse_def wp_alone_bind wp_alone_atomic wp_alone_done intro!: ops(3))
  moreover have "keeps_stored (doDisconnect E)"
    by (auto simp: doDisconnect_def wp_simps stored_no_session split: option.split intro!: wp_any)
  moreover have "keeps_stored (doStatus E)"
    by (auto simp: doStatus_def wp_simps intro!: wp_statusView)
  moreover have "keeps_stored (doUndo E)"
    by (auto simp: doUndo_def wp_simps stored_no_session split: option.split intro!: wp_any)
  moreover note stored_doConnect [of E req]
  ultimately show ?thesis
    unfolding dispatch_def wp_alone_catch using assms
    by (simp add: wp_alone_done wp_alone_fail)
qed

section \<open>Requests one after the other\<close>

text \<open>A process that was killed has no server any more; the host it ran on remains.\<close>

definition request_step :: "env \<Rightarrow> Request \<Rightarrow> server option \<times> world \<Rightarrow> bool \<times> (server option \<times> world)" where
  "request_step E req = (\<lambda>(svo, w). case svo of
     None \<Rightarrow> (False, (None, w))
   | Some sv \<Rightarrow> (case alone (dispatch E req :: (server \<times> world, unit, daemon_error Response) thread) (sv, w) of
       (Dead, (_, w')) \<Rightarrow> (False, (None, w'))
     | (_, (sv', w')) \<Rightarrow> (True, (Some sv', w'))))"

definition stored_if_alive :: "server option \<times> world \<Rightarrow> bool" where
  "stored_if_alive s \<longleftrightarrow> (\<forall>sv. fst s = Some sv \<longrightarrow> stored sv)"

lemma request_step_stored: "stored_if_alive s \<Longrightarrow> stored_if_alive (snd (request_step E req s))"
proof -
  assume inv: "stored_if_alive s"
  obtain svo w where s: "s = (svo, w)" by (cases s)
  show ?thesis
  proof (cases svo)
    case (Some sv)
    have "stored sv" using inv by (simp add: stored_if_alive_def s Some)
    then have "wp (alone (dispatch E req :: (server \<times> world, unit, daemon_error Response) thread))
        (\<lambda>_. stored_at) (\<lambda>_ _. False) (\<lambda>_. True) (sv, w)" by (rule stored_dispatch)
    then show ?thesis
      by (auto simp: stored_if_alive_def request_step_def s Some wp_def split: prod.splits outcome.splits)
  qed (simp add: stored_if_alive_def request_step_def s)
qed

interpretation requests: request_machine "request_step E" stored_if_alive for E
  by unfold_locales (rule request_step_stored)

end
