(* ===== verification/ServerHost.thy ===== *)
theory ServerHost
  imports ServerAlone SessionProps
begin

text \<open>
  The daemon and its host. Between requests the host is as the daemon found it, up to the
  daemon's own files, or a session is up from which it can be reverted. The transport URL is
  the only thing in which the configurations of two sessions of a daemon differ, and nothing
  said about the host depends on it.
\<close>

section \<open>The host as it was found\<close>

definition same_content :: "node option \<Rightarrow> node option \<Rightarrow> bool" where
  "same_content a b \<longleftrightarrow> (case a of Some (File d _) \<Rightarrow> \<exists>m. b = Some (File d m) | nd \<Rightarrow> b = nd)"

lemma same_content_refl [simp]: "same_content a a"
  by (simp add: same_content_def split: option.split node.split)

lemma same_content_trans: "same_content a b \<Longrightarrow> same_content b c \<Longrightarrow> same_content a c"
  by (auto simp: same_content_def split: option.splits node.splits)

definition as_found :: "config \<Rightarrow> path set \<Rightarrow> world \<Rightarrow> world \<Rightarrow> bool" where
  "as_found c D w0 w \<longleftrightarrow> fs w (snap_path c) = None \<and> net w = net w0 \<and> sysctls w = sysctls w0
   \<and> (\<forall>m. fs w (resolv_tmp c) \<noteq> Some (Dir m))
   \<and> (\<forall>q. q \<notin> D \<union> insert (ResolvPath c) (scratch c) \<longrightarrow> fs w q = fs w0 q)
   \<and> same_content (fs w0 (ResolvPath c)) (fs w (ResolvPath c))"

definition managed_paths :: "config \<Rightarrow> path set" where
  "managed_paths c = insert (ResolvPath c) (scratch c)"

lemma managed_pathsI [simp]:
  "ResolvPath c \<in> managed_paths c" "resolv_tmp c \<in> managed_paths c" "snap_path c \<in> managed_paths c"
  "backup_path (StateDir c) \<in> managed_paths c"
  by (simp_all add: managed_paths_def scratch_def snap_files_def)

lemma as_found_refl: "host_clean c w0 \<Longrightarrow> as_found c D w0 w0"
  by (simp add: as_found_def host_clean_def)

lemma as_found_clock [simp]: "as_found c D w0 (w\<lparr>clock := n\<rparr>) = as_found c D w0 w"
  by (simp add: as_found_def)

lemma as_found_clean: "host_clean c w0 \<Longrightarrow> as_found c D w0 w \<Longrightarrow> host_clean c w"
  by (auto simp: host_clean_def as_found_def same_content_def split: option.splits node.splits)

lemma as_found_restored:
  assumes "as_found c D w0 w1" "restored c w1 w2"
  shows "as_found c D w0 w2"
proof -
  have "same_content (fs w1 (ResolvPath c)) (fs w2 (ResolvPath c))"
    using assms(2) by (auto simp: restored_def same_content_def split: option.split node.split)
  then have "same_content (fs w0 (ResolvPath c)) (fs w2 (ResolvPath c))"
    using assms(1) same_content_trans by (auto simp: as_found_def)
  then show ?thesis using assms by (simp add: as_found_def restored_def)
qed

lemma as_found_untouched:
  assumes "as_found c D w0 w1" "untouched c w1 w2" "config_ok c"
  shows "as_found c D w0 w2"
proof -
  have "ResolvPath c \<notin> snap_files c" "resolv_tmp c \<notin> snap_files c" using assms(3) by (simp_all add: config_ok_def)
  then show ?thesis using assms(1,2) by (auto simp: as_found_def untouched_def scratch_def)
qed

lemma as_found_same_but:
  assumes "as_found c D w0 w1" "same_but S w1 w2" "S \<subseteq> D" "D \<inter> managed_paths c = {}"
  shows "as_found c D w0 w2"
proof -
  have "p \<notin> S" if "p \<in> managed_paths c" for p using that assms(3,4) by blast
  then have "fs w2 p = fs w1 p" if "p \<in> managed_paths c" for p using that assms(2) by (simp add: same_but_def)
  moreover have "fs w2 q = fs w1 q" if "q \<notin> D" for q using that assms(2,3) by (auto simp: same_but_def)
  ultimately show ?thesis using assms(1,2) by (simp add: as_found_def same_but_def)
qed

lemma as_found_installed:
  assumes "as_found c D w0 w" "script_installed E w0" "script_apart E c" "panic_path E \<notin> D"
  shows "script_installed E w"
proof -
  have "fs w (panic_path E) = fs w0 (panic_path E)"
    using assms(1,3,4) by (simp add: as_found_def script_apart_def)
  with assms(2) show ?thesis by (simp add: script_installed_def)
qed

section \<open>Nothing depends on the transport URL\<close>

lemma url_irrelevant [simp]:
  "snap_path (c\<lparr>TransportURL := u\<rparr>) = snap_path c" "resolv_tmp (c\<lparr>TransportURL := u\<rparr>) = resolv_tmp c"
  "scratch (c\<lparr>TransportURL := u\<rparr>) = scratch c" "snap_files (c\<lparr>TransportURL := u\<rparr>) = snap_files c"
  "our_priority (c\<lparr>TransportURL := u\<rparr>) = our_priority c" "marks_of (c\<lparr>TransportURL := u\<rparr>) = marks_of c"
  "config_ok (c\<lparr>TransportURL := u\<rparr>) = config_ok c" "host_clean (c\<lparr>TransportURL := u\<rparr>) w = host_clean c w"
  "script_apart E (c\<lparr>TransportURL := u\<rparr>) = script_apart E c"
  "backup_mode (c\<lparr>TransportURL := u\<rparr>) w = backup_mode c w"
  "restored (c\<lparr>TransportURL := u\<rparr>) w w' = restored c w w'"
  "untouched (c\<lparr>TransportURL := u\<rparr>) w w' = untouched c w w'"
  "net_over (c\<lparr>TransportURL := u\<rparr>) n ps n' = net_over c n ps n'"
  by (simp_all add: snap_path_def resolv_tmp_def scratch_def snap_files_def our_priority_def fun_eq_iff marks_of_def
      config_ok_def host_clean_def script_apart_def backup_mode_def restored_def untouched_def net_over_def
      cong: option.case_cong node.case_cong)

lemma url_irrelevant_recoverable [simp]: "recoverable E (c\<lparr>TransportURL := u\<rparr>) w w' = recoverable E c w w'"
  by (simp add: recoverable_def host_ok_def on_disk_def covers_def pre_saved_def resolv_saved_def
      cong: option.case_cong node.case_cong)

section \<open>Changes to files that are not the session's\<close>

definition moved_files :: "path set \<Rightarrow> world \<Rightarrow> world \<Rightarrow> world" where
  "moved_files S w w1 = w1\<lparr>fs := (\<lambda>q. if q \<in> S then fs w q else fs w1 q)\<rparr>"

lemma moved_files_sel [simp]:
  "net (moved_files S w w1) = net w1" "sysctls (moved_files S w w1) = sysctls w1"
  "q \<notin> S \<Longrightarrow> fs (moved_files S w w1) q = fs w1 q" "q \<in> S \<Longrightarrow> fs (moved_files S w w1) q = fs w q"
  by (simp_all add: moved_files_def)

lemma sess_inv_moved:
  assumes "sess_inv E c w1 (s, w)" "same_but S w w'" "S \<inter> managed_paths c = {}"
  shows "sess_inv E c (moved_files S w' w1) (s, w')"
proof -
  have out: "p \<notin> S" if "p \<in> managed_paths c" for p using that assms(3) by blast
  note out' = out [OF managed_pathsI(1)] out [OF managed_pathsI(2)] out [OF managed_pathsI(3)] out [OF managed_pathsI(4)]
  have same: "fs w' p = fs w p" if "p \<notin> S" for p using that assms(2) by (simp add: same_but_def)
  have rest: "net w' = net w" "sysctls w' = sysctls w" using assms(2) by (simp_all add: same_but_def)
  have cov: "covers E c (moved_files S w' w1) w' sn" if "covers E c w1 w sn" for sn
    using that by (simp add: covers_def pre_saved_def resolv_saved_def backup_mode_def out' same rest
        cong: option.case_cong node.case_cong)
  have ok: "host_ok c (moved_files S w' w1) w'" if h: "host_ok c w1 w"
  proof -
    have "fs w' q = fs (moved_files S w' w1) q" if "q \<notin> managed_paths c" for q
      using h that same by (cases "q \<in> S") (auto simp: host_ok_def managed_paths_def)
    then show ?thesis using h by (simp add: host_ok_def out' same rest managed_paths_def)
  qed
  show ?thesis
    using assms(1) cov ok by (auto simp: sess_inv_def recoverable_def on_disk_def out' same)
qed

lemma as_found_moved:
  assumes "as_found c D w0 w1" "S \<subseteq> D" "D \<inter> managed_paths c = {}"
  shows "as_found c D w0 (moved_files S w' w1)"
  by (rule as_found_same_but [OF assms(1) _ assms(2,3)]) (simp add: same_but_def)

end
