(* ===== verification/ServerRounds.thy ===== *)
theory ServerRounds
  imports ServerHost SessionRound
begin

text \<open>
  The daemon from its start to its end on a host where no system call fails: whatever is
  asked of it, and whatever the kernel, the resolver and the packages refuse, each request
  leaves the host as found or with one session up; killed anywhere, it leaves a host that the
  script can revert.
\<close>

section \<open>A host for the daemon\<close>

definition daemon_conf :: "server_config \<Rightarrow> config" where
  "daemon_conf sc = ApplyDefaults (session_config sc [])"

definition daemon_files :: "server_config \<Rightarrow> path set" where
  "daemon_files sc = {KeysPath sc, filepath_dir (KeysPath sc), SocketPath sc, filepath_dir (SocketPath sc)}
     \<union> key_temps \<lparr>spath = KeysPath sc, state = zero_state\<rparr>"

text \<open>The script is installed, and the daemon's files, the session's files and the script do not
  get in each other's way.\<close>

definition fair_host :: "env \<Rightarrow> server_config \<Rightarrow> world \<Rightarrow> bool" where
  "fair_host E sc w0 \<longleftrightarrow> lawful_kernel E \<and> no_deny E \<and> config_ok (daemon_conf sc) \<and> host_clean (daemon_conf sc) w0
   \<and> script_installed E w0 \<and> script_apart E (daemon_conf sc) \<and> panic_path E \<notin> daemon_files sc
   \<and> daemon_files sc \<inter> managed_paths (daemon_conf sc) = {}
   \<and> KeysPath sc \<notin> key_temps \<lparr>spath = KeysPath sc, state = zero_state\<rparr>
   \<and> SrvStateDir sc \<noteq> [] \<and> SrvResolvPath sc \<noteq> []"

abbreviation found :: "server_config \<Rightarrow> world \<Rightarrow> world \<Rightarrow> bool" where
  "found sc \<equiv> as_found (daemon_conf sc) (daemon_files sc)"

lemma daemon_conf_sel:
  "fair_host E sc w0 \<Longrightarrow> StateDir (daemon_conf sc) = SrvStateDir sc"
  "fair_host E sc w0 \<Longrightarrow> ResolvPath (daemon_conf sc) = SrvResolvPath sc"
  by (auto simp: fair_host_def daemon_conf_def session_config_def ApplyDefaults_def or_default_def)

lemma New_daemon:
  assumes "New (session_config sc u) = Inr s"
  shows "cfg s = (daemon_conf sc)\<lparr>TransportURL := u\<rparr>"
proof -
  have "cfg s = ApplyDefaults (session_config sc u)" using assms by (auto simp: New_def Let_def split: sum.splits)
  then show ?thesis by (simp add: daemon_conf_def session_config_def ApplyDefaults_def)
qed

section \<open>Between requests\<close>

text \<open>A session that is up: it was started on a host as found, and can be reverted to it.\<close>

definition up :: "env \<Rightarrow> server_config \<Rightarrow> world \<Rightarrow> session \<times> world \<Rightarrow> bool" where
  "up E sc w0 sw \<longleftrightarrow> \<not> stopped (fst sw) \<and> (\<exists>u. cfg (fst sw) = (daemon_conf sc)\<lparr>TransportURL := u\<rparr>)
     \<and> (\<exists>w1. found sc w0 w1 \<and> sess_inv E (cfg (fst sw)) w1 sw)"

definition serving :: "env \<Rightarrow> server_config \<Rightarrow> world \<Rightarrow> server \<times> world \<Rightarrow> bool" where
  "serving E sc w0 = (\<lambda>(sv, w). scfg sv = sc \<and> spath (ks sv) = KeysPath sc
     \<and> (case sess sv of None \<Rightarrow> found sc w0 w | Some s \<Rightarrow> up E sc w0 (s, w)))"

text \<open>Where the process may die: the host can be reverted to what was found.\<close>

definition lost :: "env \<Rightarrow> server_config \<Rightarrow> world \<Rightarrow> world \<Rightarrow> bool" where
  "lost E sc w0 w \<longleftrightarrow> (\<exists>w1. found sc w0 w1 \<and> revertible E (daemon_conf sc) w1 w)"

abbreviation lost_at :: "env \<Rightarrow> server_config \<Rightarrow> world \<Rightarrow> server \<times> world \<Rightarrow> bool" where
  "lost_at E sc w0 svw \<equiv> lost E sc w0 (snd svw)"

lemma found_lost: "found sc w0 w \<Longrightarrow> lost E sc w0 w"
  unfolding lost_def revertible_def untouched_def by (rule exI [of _ w]) (simp add: as_found_def)

lemma found_lost_clock: "found sc w0 w \<Longrightarrow> lost E sc w0 (w\<lparr>clock := n\<rparr>)"
  by (rule found_lost) simp

lemma up_lost: "up E sc w0 (s, w) \<Longrightarrow> lost E sc w0 w"
  unfolding lost_def up_def revertible_def by (auto simp: sess_inv_def)

lemma serving_lost: "serving E sc w0 (sv, w) \<Longrightarrow> lost E sc w0 w"
  by (auto simp: serving_def dest: found_lost up_lost split: option.splits)

lemma up_same_but:
  assumes "fair_host E sc w0" "up E sc w0 (s, w)" "same_but S w w'" "S \<subseteq> daemon_files sc"
  shows "up E sc w0 (s, w')"
proof -
  have d: "daemon_files sc \<inter> managed_paths (daemon_conf sc) = {}" using assms(1) by (simp add: fair_host_def)
  obtain u w1 where u: "cfg s = (daemon_conf sc)\<lparr>TransportURL := u\<rparr>" "found sc w0 w1" "sess_inv E (cfg s) w1 (s, w)"
    using assms(2) by (auto simp: up_def)
  have "S \<inter> managed_paths (cfg s) = {}" using d assms(4) by (auto simp: u(1) managed_paths_def)
  from sess_inv_moved [OF u(3) assms(3) this] as_found_moved [OF u(2) assms(4) d] u(1) assms(2)
  show ?thesis by (auto simp: up_def)
qed

lemma up_clock: "up E sc w0 (s, w) \<Longrightarrow> up E sc w0 (s, w\<lparr>clock := n\<rparr>)"
  unfolding up_def using sess_inv_harmless [where w = w and w' = "w\<lparr>clock := n\<rparr>"] by auto

lemma serving_clock: "serving E sc w0 (sv, w) \<Longrightarrow> serving E sc w0 (sv, w\<lparr>clock := n\<rparr>)"
  by (auto simp: serving_def up_clock split: option.splits)

lemma serving_same_but:
  assumes "fair_host E sc w0" "serving E sc w0 (sv, w)" "same_but S w w'" "S \<subseteq> daemon_files sc"
    and "spath k = KeysPath sc"
  shows "serving E sc w0 (sv\<lparr>ks := k\<rparr>, w')"
proof -
  have "daemon_files sc \<inter> managed_paths (daemon_conf sc) = {}" using assms(1) by (simp add: fair_host_def)
  then show ?thesis
    using assms(2,5) up_same_but [OF assms(1) _ assms(3,4)] as_found_same_but [OF _ assms(3,4)]
    by (auto simp: serving_def split: option.splits)
qed

section \<open>The sections\<close>

lemma key_files_daemon: "serving E sc w0 (sv, w) \<Longrightarrow> key_files sv \<subseteq> daemon_files sc"
  using key_temps_eq [of "ks sv" "\<lparr>spath = KeysPath sc, state = zero_state\<rparr>"]
  by (auto simp: key_files_def daemon_files_def serving_def)

lemma wp_on_ks_serving:
  assumes "fair_host E sc w0" "serving E sc w0 (sv, w)" "voidA m = ks_exec E req"
  shows "wp (on_ks m) (\<lambda>_ t. serving E sc w0 t \<and> sess (fst t) = sess sv)
     (\<lambda>_ t. serving E sc w0 t \<and> sess (fst t) = sess sv) (lost_at E sc w0) (sv, w)"
proof -
  have p: "spath (ks sv) = KeysPath sc" using assms(2) by (simp add: serving_def)
  have temps: "spath (ks sv) \<notin> key_temps (ks sv)"
    using assms(1) key_temps_eq [of "ks sv" "\<lparr>spath = KeysPath sc, state = zero_state\<rparr>"]
    by (simp add: fair_host_def p)
  have s: "serving E sc w0 (sv\<lparr>ks := k\<rparr>, w')" if "spath k = KeysPath sc" "same_but (key_files sv) w w'" for k w'
    by (rule serving_same_but [OF assms(1,2) that(2) key_files_daemon [OF assms(2)] that(1)])
  have l: "lost E sc w0 w'" if "same_but (key_files sv) w w'" for w'
    using serving_lost [OF s [OF p that]] .
  have "wp (ks_exec E req) (\<lambda>_ (k, w'). serving E sc w0 (sv\<lparr>ks := k\<rparr>, w'))
     (\<lambda>e (k, w'). serving E sc w0 (sv\<lparr>ks := k\<rparr>, w')) (\<lambda>(k, w'). lost E sc w0 w') (ks sv, w)"
    by (rule wp_mono [OF wp_ks_exec [OF temps]]) (use s l p in \<open>auto simp: key_files_def ks_kept_def\<close>)
  then have "wp m (\<lambda>_ (k, w'). serving E sc w0 (sv\<lparr>ks := k\<rparr>, w'))
     (\<lambda>e (k, w'). serving E sc w0 (sv\<lparr>ks := k\<rparr>, w')) (\<lambda>(k, w'). lost E sc w0 w') (ks sv, w)"
    unfolding assms(3) [symmetric] wp_voidA .
  then show ?thesis unfolding wp_on_ks by (rule wp_mono) auto
qed

lemma wp_on_ks_serves:
  assumes "fair_host E sc w0" "serving E sc w0 (sv, w)" "voidA m = ks_exec E req"
  shows "wp (on_ks m) (\<lambda>_. serving E sc w0) (\<lambda>_. serving E sc w0) (lost_at E sc w0) (sv, w)"
  by (rule wp_mono [OF wp_on_ks_serving [OF assms]]) auto

text \<open>Starting and closing, with the server between sessions.\<close>

lemma wp_start_serving:
  assumes f: "fair_host E sc w0" and sv: "serving E sc w0 (sv, w)" "sess sv = None"
    and s: "New (session_config sc u) = Inr s"
  shows "wp (on_sess (Start E) s) (\<lambda>s' t. fst t = sv \<and> up E sc w0 (s', snd t))
     (\<lambda>_ t. fst t = sv \<and> found sc w0 (snd t)) (lost_at E sc w0) (sv, w)"
proof -
  let ?c = "cfg s"
  note c = New_daemon [OF s]
  have fw: "found sc w0 w" using sv by (simp add: serving_def)
  have ok: "config_ok ?c" "lawful_kernel E" "no_deny E" "script_apart E ?c" "config_ok (daemon_conf sc)"
    using f by (simp_all add: fair_host_def c)
  have h: "host_clean ?c w" using as_found_clean [OF _ fw] f by (simp add: c fair_host_def)
  have inst: "script_installed E w"
    using as_found_installed [OF fw] f by (simp add: fair_host_def)
  have run: "wp (runPanicScript E (StateDir ?c) (ResolvPath ?c))
      (\<lambda>_. restored ?c w) (\<lambda>_. restored ?c w) (recoverable E ?c w) w'" if "recoverable E ?c w w'" for w'
    by (rule wp_mono [OF wp_runPanic_installed [OF ok(3,1,2) h inst ok(4) that]]) auto
  have "\<not> stopped s" using New_session [OF s] by (metis new_session_def session.select_convs(7))
  then have calm: "wp (Start E) (\<lambda>_ sw. \<not> stopped (fst sw)) (\<lambda>_ _. True) (\<lambda>_. True) (s, w)"
    using keepsD [OF calm_Start, of "(s, w)" False E] by (auto simp: wp_def split: prod.splits outcome.splits)
  have start: "wp (Start E) (\<lambda>_. sess_inv E ?c w) (\<lambda>_ sw. untouched ?c w (snd sw) \<or> restored ?c w (snd sw))
     (\<lambda>sw. untouched ?c w (snd sw) \<or> recoverable E ?c w (snd sw)) (s, w)"
    using wp_Start [OF ok(1,2) h run] New_session [OF s] by simp
  have home: "found sc w0 w'" if "untouched ?c w w' \<or> restored ?c w w'" for w'
    using that as_found_untouched [OF fw _ ok(5)] as_found_restored [OF fw] by (auto simp: c)
  have dead: "lost E sc w0 w'" if "untouched ?c w w' \<or> recoverable E ?c w w'" for w'
    using that fw by (auto simp: lost_def revertible_def c)
  show ?thesis
    unfolding wp_on_sess
    by (rule wp_mono [OF wp_conj [OF start calm]])
      (use home dead fw c in \<open>auto simp: up_def sess_inv_def\<close>)
qed

lemma wp_close_serving:
  assumes f: "fair_host E sc w0" and u: "up E sc w0 (s, w)"
  shows "wp (on_sess (Close E) s) (\<lambda>_ t. fst t = sv \<and> found sc w0 (snd t)) (\<lambda>_ _. False) (lost_at E sc w0) (sv, w)"
proof -
  let ?c = "cfg s"
  obtain v w1 where c: "?c = (daemon_conf sc)\<lparr>TransportURL := v\<rparr>" "found sc w0 w1" "sess_inv E ?c w1 (s, w)" "\<not> stopped s"
    using u by (auto simp: up_def)
  have ok: "config_ok ?c" "lawful_kernel E" "no_deny E" "script_apart E ?c"
    using f by (simp_all add: fair_host_def c)
  have h: "host_clean ?c w1" using as_found_clean [OF _ c(2)] f by (simp add: c(1) fair_host_def)
  have inst: "script_installed E w1" using as_found_installed [OF c(2)] f by (simp add: fair_host_def)
  have "wp (Close E) (\<lambda>_ sw. restored ?c w1 (snd sw)) (\<lambda>_ _. False) (died E ?c w1) (s, w)"
    by (rule wp_Close [OF ok(2) h c(3,4) wp_runPanic_installed [OF ok(3,1,2) h inst ok(4)]])
  then show ?thesis
    unfolding wp_on_sess
    by (rule wp_mono) (use as_found_restored [OF c(2)] c(1,2) in \<open>auto simp: lost_def revertible_def\<close>)
qed

lemma wp_undo_serving:
  assumes f: "fair_host E sc w0" and w: "found sc w0 w"
  shows "wp (RunPanicStandalone E (SrvStateDir sc) (SrvResolvPath sc)) (\<lambda>_. found sc w0) (\<lambda>_. found sc w0) (lost E sc w0) w"
proof -
  let ?c = "daemon_conf sc"
  have c: "config_ok ?c" using f by (simp add: fair_host_def)
  have panic: "wp (ouf_panic E (StateDir ?c) (ResolvPath ?c)) (\<lambda>_. found sc w0) (\<lambda>_. found sc w0) (lost E sc w0) w'"
    if "found sc w0 w'" for w'
    using ouf_panic_no_snapshot [OF c, of w' E] that found_lost [OF that]
    by (cases "ouf_panic E (StateDir ?c) (ResolvPath ?c) w'")
      (auto simp: wp_def as_found_def lost_def revertible_def untouched_def split: verdict.splits outcome.splits)
  show ?thesis
    unfolding RunPanicStandalone_def runPanicScript_def daemon_conf_sel [OF f, symmetric]
    using w by (auto simp: wp_simps intro!: wp_os_stat wp_os_fd_call panic found_lost_clock)
qed

section \<open>The handlers\<close>

abbreviation serves :: "env \<Rightarrow> server_config \<Rightarrow> world \<Rightarrow> handler \<Rightarrow> bool" where
  "serves E sc w0 p \<equiv> \<forall>sv w. serving E sc w0 (sv, w) \<longrightarrow>
     wp (alone p) (\<lambda>_. serving E sc w0) (\<lambda>_. serving E sc w0) (lost_at E sc w0) (sv, w)"

lemma serving_between: "serving E sc w0 (sv, w) \<Longrightarrow> found sc w0 w' \<Longrightarrow> serving E sc w0 (no_session sv, w')"
  by (simp add: serving_def)

lemma serving_up: "serving E sc w0 (sv, w) \<Longrightarrow> sess sv = Some s \<Longrightarrow> up E sc w0 (s, w)"
  by (simp add: serving_def)

lemma wp_statusView_serving:
  assumes "serving E sc w0 (sv, w)"
  shows "wp (statusViewLocked E) (\<lambda>_ t. serving E sc w0 t \<and> fst t = sv) (\<lambda>_ _. False) (lost_at E sc w0) (sv, w)"
  using serving_clock [OF assms] serving_lost [OF serving_clock [OF assms]] by (intro wp_statusView) auto

lemma serves_fresh_connect:
  assumes f: "fair_host E sc w0" and sv: "serving E sc w0 (sv, w)" "sess sv = None"
  shows "wp (alone (fresh_connect E name key)) (\<lambda>_. serving E sc w0) (\<lambda>_. serving E sc w0) (lost_at E sc w0) (sv, w)"
proof -
  have sc: "scfg sv = sc" using sv by (simp add: serving_def)
  have mark: "wp (on_ks (MarkConnected E name)) (\<lambda>_. serving E sc w0) (\<lambda>_. serving E sc w0) (lost_at E sc w0) t"
    if "serving E sc w0 t" for t
    by (cases t, simp) (rule wp_mono [OF wp_on_ks_serving [OF f _ op_of(5)]], use that in auto)
  have pub: "wp (publish E name s) (\<lambda>_. serving E sc w0) (\<lambda>_. serving E sc w0) (lost_at E sc w0) t"
    if "fst t = sv" "up E sc w0 (s, snd t)" for s t
  proof -
    obtain sv' w' where t: "t = (sv', w')" by (cases t)
    have "serving E sc w0 (sv\<lparr>sess := Some s, sessKey := name, sessSince := now E (clock w')\<rparr>, w')"
      using sv that(2) by (simp add: serving_def t)
    from wp_statusView_serving [OF this] show ?thesis
      using that(1) unfolding t by (auto simp: wp_publish intro: wp_mono)
  qed
  have home: "serving E sc w0 t" if "fst t = sv \<and> found sc w0 (snd t)" for t
    using that sv by (cases t) (simp add: serving_def)
  have go: "wp (on_sess (Start E) s)
      (\<lambda>a. wp (publish E name a)
         (\<lambda>_. wp (on_ks (MarkConnected E name)) (\<lambda>_. serving E sc w0) (\<lambda>_. serving E sc w0) (lost_at E sc w0))
         (\<lambda>_. serving E sc w0) (lost_at E sc w0))
      (\<lambda>_. serving E sc w0) (lost_at E sc w0) (sv, w)"
    if "New (session_config sc (URL key)) = Inr s" for s
    by (rule wp_mono [OF wp_start_serving [OF f sv that]])
      (auto intro!: wp_mono [OF pub] mark home)
  show ?thesis
    unfolding fresh_connect_def wp_alone_bind wp_alone_atomic wp_reading sc
    using go sv by (auto simp: wp_alone_fail wp_alone_bind wp_alone_atomic wp_alone_done wp_mapE wp_attempt
        split: sum.split)
qed

lemma serves_doConnect:
  assumes f: "fair_host E sc w0"
  shows "serves E sc w0 (doConnect E req)"
proof (intro allI impI)
  fix sv :: server and w :: world assume sv: "serving E sc w0 (sv, w)"
  define name where "name = (if RqName req = [] then ActiveName (ks sv) else RqName req)"
  have start: "wp (alone (if RqName req = [] then atomic (reading (\<lambda>sv. ActiveName (ks sv))) else done_with (RqName req)))
      Q X D (sv, w) = Q name (sv, w)" for Q :: "gostring \<Rightarrow> server \<times> world \<Rightarrow> bool" and X D
    by (simp add: name_def wp_simps)
  have close: "wp (on_sess (Close E) s) (\<lambda>_. wp (alone (fresh_connect E name key))
        (\<lambda>_. serving E sc w0) (\<lambda>_. serving E sc w0) (lost_at E sc w0))
      (\<lambda>_. serving E sc w0) (lost_at E sc w0) (no_session sv, w)"
    if "sess sv = Some s" for s key
  proof (rule wp_mono [OF wp_close_serving [OF f serving_up [OF sv that]]])
    fix a t assume "fst t = no_session sv \<and> found sc w0 (snd t)"
    then show "wp (alone (fresh_connect E name key)) (\<lambda>_. serving E sc w0) (\<lambda>_. serving E sc w0) (lost_at E sc w0) t"
      using serves_fresh_connect [OF f serving_between [OF sv], of "snd t" name key] by (cases t) simp
  qed auto
  have body: "wp (alone (bindT (atomic (connect_lock E name)) (\<lambda>current. case current of
           Inl view \<Rightarrow> done_with (okResp\<lparr>RsConnected := Some view\<rparr>)
         | Inr None \<Rightarrow> fresh_connect E name key
         | Inr (Some old) \<Rightarrow> bindT (atomic (mapE SwitchFailed (on_sess (Close E) old))) (\<lambda>_. fresh_connect E name key))))
      (\<lambda>_. serving E sc w0) (\<lambda>_. serving E sc w0) (lost_at E sc w0) (sv, w)" for key
  proof (cases "sess sv")
    case None
    then show ?thesis
      using serves_fresh_connect [OF f sv None] by (simp add: wp_simps connect_lock_def)
  next
    case (Some s)
    show ?thesis
    proof (cases "sessKey sv = name")
      case True
      then show ?thesis using Some wp_statusView_serving [OF sv]
        by (auto simp: wp_simps connect_lock_def intro: wp_mono)
    next
      case False
      then show ?thesis using Some close [OF Some] by (simp add: wp_simps connect_lock_def)
    qed
  qed
  show "wp (alone (doConnect E req)) (\<lambda>_. serving E sc w0) (\<lambda>_. serving E sc w0) (lost_at E sc w0) (sv, w)"
    unfolding doConnect_def wp_alone_bind [of _ "\<lambda>name. if name = [] then _ else _ name"] start
    using sv body by (auto simp: wp_alone_fail wp_alone_bind [of "atomic (reading f)" for f] wp_alone_atomic wp_reading
        split: option.split)
qed

lemma serves_taking:
  assumes f: "fair_host E sc w0"
  shows "serves E sc w0 (doDisconnect E)" "serves E sc w0 (doUndo E)"
proof -
  have close: "wp (on_sess (Close E) s) (\<lambda>_. serving E sc w0) (\<lambda>_ _. False) (lost_at E sc w0) (no_session sv, w)"
    if "serving E sc w0 (sv, w)" "sess sv = Some s" for sv s w
    by (rule wp_mono [OF wp_close_serving [OF f serving_up [OF that]]])
      (use serving_between [OF that(1)] in auto)
  have undo: "wp (on_host (RunPanicStandalone E (SrvStateDir (scfg sv)) (SrvResolvPath (scfg sv))))
      (\<lambda>_. serving E sc w0) (\<lambda>_. serving E sc w0) (lost_at E sc w0) (no_session sv, w)"
    if sv: "serving E sc w0 (sv, w)" "sess sv = None" for sv w
  proof -
    have sc: "scfg sv = sc" and w: "found sc w0 w" using sv by (simp_all add: serving_def)
    show ?thesis
      unfolding wp_on_host sc
      by (rule wp_mono [OF wp_undo_serving [OF f w]]) (simp_all add: serving_between [OF sv(1)])
  qed
  have none: "serving E sc w0 (no_session sv, w)" if "serving E sc w0 (sv, w)" "sess sv = None" for sv w
    using that by (auto simp: serving_def)
  note steps = wp_alone_bind wp_alone_atomic wp_alone_done wp_mapE
  show "serves E sc w0 (doDisconnect E)"
    unfolding doDisconnect_def wp_alone_bind wp_alone_atomic wp_take_session
    using none by (auto simp: wp_alone_fail steps split: option.split intro!: wp_mono [OF close])
  show "serves E sc w0 (doUndo E)"
    unfolding doUndo_def wp_alone_bind wp_alone_atomic wp_take_session
    using undo by (auto simp: steps wp_with_server split: option.split intro!: wp_mono [OF close])
qed

lemma serves_dispatch:
  assumes f: "fair_host E sc w0" and sv: "serving E sc w0 (sv, w)"
  shows "wp (alone (dispatch E req)) (\<lambda>_. serving E sc w0) (\<lambda>_ _. False) (lost_at E sc w0) (sv, w)"
proof -
  note steps = wp_alone_bind wp_alone_atomic wp_alone_done wp_alone_fail wp_reading
  note ks = wp_on_ks_serves [OF f]
  have "serves E sc w0 doList" by (auto simp: doList_def steps)
  moreover have "serves E sc w0 (doAdd E req)"
    by (auto simp: doAdd_def steps intro!: wp_mono [OF ks [OF _ op_of(1)]])
  moreover have "serves E sc w0 (doRemove E req)" by (auto simp: doRemove_def steps intro!: ks [OF _ op_of(2)])
  moreover have "serves E sc w0 (doUse E req)" by (auto simp: doUse_def steps intro!: ks [OF _ op_of(4)])
  moreover have "serves E sc w0 (doRename E req)"
  proof -
    have "serving E sc w0 (if sessKey sv = a then sv\<lparr>sessKey := b\<rparr> else sv, w)" if "serving E sc w0 (sv, w)" for a b sv w
      using that by (simp add: serving_def)
    then show ?thesis
      by (auto simp: doRename_def steps wp_modify intro!: wp_mono [OF ks [OF _ op_of(3)]])
  qed
  moreover have "serves E sc w0 (doStatus E)"
    by (auto simp: doStatus_def steps intro!: wp_mono [OF wp_statusView_serving])
  moreover note serves_taking [OF f] serves_doConnect [OF f, of req]
  ultimately show ?thesis
    unfolding dispatch_def wp_alone_catch using sv by (simp add: wp_alone_done wp_alone_fail)
qed

section \<open>From start to end\<close>

lemma serves_handle:
  assumes "fair_host E sc w0" "serving E sc w0 (sv, w)"
  shows "wp (alone (handle E text c)) (\<lambda>_. serving E sc w0) (\<lambda>_ _. False) (lost_at E sc w0) (sv, w)"
  using serves_dispatch [OF assms] assms(2)
  by (auto simp: handle_def wp_alone_bind wp_alone_done split: prod.split sum.split intro: wp_mono)

lemma serves_serve:
  assumes f: "fair_host E sc w0"
  shows "serving E sc w0 (sv, w) \<Longrightarrow>
     wp (serve E wording conns) (\<lambda>_. serving E sc w0) (\<lambda>_ _. False) (lost_at E sc w0) (sv, w)"
proof (induction conns arbitrary: sv w)
  case (Cons c cs)
  have rest: "wp (serve E wording cs) (\<lambda>_. serving E sc w0) (\<lambda>_ _. False) (lost_at E sc w0) t"
    if "serving E sc w0 t" for t
    using that Cons.IH by (cases t) simp
  show ?case
  proof (cases c)
    case None
    then show ?thesis using rest [OF Cons.prems] by simp
  next
    case (Some x)
    show ?thesis
      unfolding Some serve.simps wp_bind wp_ret
      by (rule wp_mono [OF serves_handle [OF f Cons.prems]]) (auto intro: wp_mono [OF rest])
  qed
qed (simp_all add: wp_ret)

text \<open>Calls that touch no file outside a given set.\<close>

abbreviation touches :: "path set \<Rightarrow> (world, 'e, 'a) act \<Rightarrow> bool" where
  "touches S m \<equiv> \<forall>w. wp m (\<lambda>_. same_but S w) (\<lambda>_. same_but S w) (same_but S w) w"

lemma touches_calls:
  "p \<in> S \<Longrightarrow> touches S (os_mkdir_all E p m)" "p \<in> S \<Longrightarrow> touches S (os_remove E p)"
  "p \<in> S \<Longrightarrow> touches S (os_chmod E p m)" "touches S (os_fd_call E q)" "touches S (os_read E q)"
  by (auto intro!: wp_intros simp: same_but_set_node)

lemma touches_listen: "p \<in> S \<Longrightarrow> touches S (net_listen E p)"
  unfolding net_listen_def by (auto intro!: wp_sysI simp: same_but_set_node split: if_splits)

lemma touches_chgrp: "touches S (chgrpSocket E groups p g)"
proof -
  have "touches S (os_chown E p gid)" for gid unfolding os_chown_def by (auto intro!: wp_sysI)
  then show ?thesis by (auto simp: chgrpSocket_def wp_simps split: option.split)
qed

lemma touches_reload: "touches S (reload E p)"
  unfolding reload_def
  by (auto simp: wp_simps intro!: wp_os_open wp_os_fd_call wp_os_read split: option.split fdata.split sum.split)

lemma touches_Open: "filepath_dir p \<in> S \<Longrightarrow> touches S (Open E p)"
proof -
  assume d: "filepath_dir p \<in> S"
  have "wp (reload E p) (\<lambda>_. same_but S w) (\<lambda>_. same_but S w) (same_but S w) w'" if "same_but S w w'" for w w'
  proof -
    have "wp (reload E p) (\<lambda>_. same_but S w') (\<lambda>_. same_but S w') (same_but S w') w'"
      using touches_reload by blast
    then show ?thesis by (rule wp_mono) (use that same_but_trans in blast)+
  qed
  then show ?thesis
    unfolding Open_def wp_bind wp_mapE wp_ret by (auto intro!: wp_mono [OF touches_calls(1) [OF d, rule_format]])
qed

lemma wp_touches_serving:
  assumes "fair_host E sc w0" "touches S m" "S \<subseteq> daemon_files sc" "serving E sc w0 t"
  shows "wp (on_host m) (\<lambda>_ t'. serving E sc w0 t' \<and> fst t' = fst t) (\<lambda>_ t'. serving E sc w0 t' \<and> fst t' = fst t)
     (lost_at E sc w0) t"
proof -
  obtain sv w where t: "t = (sv, w)" by (cases t)
  have "serving E sc w0 (sv, w')" if "same_but S w w'" for w'
    using serving_same_but [OF assms(1) _ that assms(3), of sv "ks sv"] assms(4) by (simp add: t serving_def)
  moreover have "wp m (\<lambda>_. same_but S w) (\<lambda>_. same_but S w) (same_but S w) w" using assms(2) by blast
  ultimately show ?thesis
    unfolding t wp_on_host by (auto elim!: wp_mono dest: serving_lost)
qed

lemma wp_shutdown:
  assumes f: "fair_host E sc w0" and sv: "serving E sc w0 (sv, w)"
  shows "wp (shutdown E) (\<lambda>_ t. found sc w0 (snd t)) (\<lambda>_ _. False) (lost_at E sc w0) (sv, w)"
proof (cases "sess sv")
  case None
  then show ?thesis using sv by (simp add: shutdown_def wp_bind wp_take_session wp_ret serving_def)
next
  case (Some s)
  show ?thesis
    unfolding shutdown_def wp_bind wp_take_session Some option.case wp_mapE wp_ret
    by (rule wp_mono [OF wp_close_serving [OF f serving_up [OF sv Some]]]) auto
qed

lemma wp_Run:
  assumes f: "fair_host E sc w0" and sv: "serving E sc w0 (sv, w)" "sess sv = None"
  shows "wp (Run E groups wording conns) (\<lambda>_ t. found sc w0 (snd t)) (\<lambda>_ t. found sc w0 (snd t)) (lost_at E sc w0) (sv, w)"
proof -
  define I where "I t \<longleftrightarrow> serving E sc w0 t \<and> fst t = sv" for t
  have sc: "scfg sv = sc" using sv(1) by (simp add: serving_def)
  have I0: "I (sv, w)" using sv by (simp add: I_def)
  have home: "found sc w0 (snd t)" if "I t" for t
    using that sv(2) by (cases t) (simp add: I_def serving_def)
  have paths: "{SocketPath sc, filepath_dir (SocketPath sc)} \<subseteq> daemon_files sc" by (simp add: daemon_files_def)
  have step: "wp (on_host m) (\<lambda>_. I) (\<lambda>_. I) (lost_at E sc w0) t"
    if "touches {SocketPath sc, filepath_dir (SocketPath sc)} m" "I t" for m :: "(world, 'e, 'a) act" and t
    using wp_touches_serving [OF f that(1) paths, of t] that(2) by (auto simp: I_def elim!: wp_mono)
  note steps = step [OF touches_calls(1)] step [OF touches_calls(2)] step [OF touches_calls(3)]
    step [OF touches_listen] step [OF touches_chgrp]
  have tail: "wp (serve E wording conns) (\<lambda>_. wp (seqA [ignoreA (on_host (os_remove E (SocketPath sc))), shutdown E])
      (\<lambda>_ t. found sc w0 (snd t)) (\<lambda>_ t. found sc w0 (snd t)) (lost_at E sc w0))
      (\<lambda>_ t. found sc w0 (snd t)) (lost_at E sc w0) t" if "I t" for t
  proof -
    have close: "wp (seqA [ignoreA (on_host (os_remove E (SocketPath sc))), shutdown E])
      (\<lambda>_ t. found sc w0 (snd t)) (\<lambda>_ t. found sc w0 (snd t)) (lost_at E sc w0) u" if "serving E sc w0 u" for u
      unfolding wp_seq_Cons wp_seq_Nil wp_ignore
    proof (rule wp_mono [OF wp_touches_serving [OF f touches_calls(2) paths that]])
      have "wp (shutdown E) (\<lambda>_ t. found sc w0 (snd t)) (\<lambda>_ t. found sc w0 (snd t)) (lost_at E sc w0) v"
        if "serving E sc w0 v" for v
        using wp_mono [OF wp_shutdown [OF f]] that by (cases v) (simp add: wp_def split: outcome.splits)
      then show "wp (shutdown E) (\<lambda>_ t. found sc w0 (snd t)) (\<lambda>_ t. found sc w0 (snd t)) (lost_at E sc w0) v"
        if "serving E sc w0 v \<and> fst v = fst u" for v using that by blast
      then show "wp (shutdown E) (\<lambda>_ t. found sc w0 (snd t)) (\<lambda>_ t. found sc w0 (snd t)) (lost_at E sc w0) v"
        if "serving E sc w0 v \<and> fst v = fst u" for v using that by blast
    qed simp_all
    show ?thesis
      using serves_serve [OF f, of "fst t" "snd t" wording conns] that close
      by (auto simp: I_def elim!: wp_mono)
  qed
  show ?thesis
    unfolding Run_def wp_with_server Let_def wp_bind [of "seqA ms" for ms] wp_bind [of "serve E wording conns"] wp_ret sc
    unfolding wp_seq_Cons wp_seq_Nil wp_ignore wp_mapE
    by (rule wp_mono [OF steps(1) [OF _ I0]])
      (auto intro!: wp_mono [OF steps(2)] wp_mono [OF steps(4)] wp_mono [OF steps(3)] wp_mono [OF steps(5)] tail [unfolded wp_seq_Cons wp_seq_Nil wp_ignore] home
        simp: wp_ignore wp_ret)
qed

lemma daemon_found:
  assumes f: "fair_host E (applyDefaults cfg0) w0"
  shows "wp (oufdee_main E groups wording conns cfg0) (\<lambda>_. found (applyDefaults cfg0) w0)
     (\<lambda>_. found (applyDefaults cfg0) w0) (lost E (applyDefaults cfg0) w0) w0"
proof -
  let ?sc = "applyDefaults cfg0"
  have w0: "found ?sc w0 w0" using f as_found_refl by (simp add: fair_host_def)
  have apart: "daemon_files ?sc \<inter> managed_paths (daemon_conf ?sc) = {}" using f by (simp add: fair_host_def)
  have dir: "filepath_dir (KeysPath ?sc) \<in> daemon_files ?sc" by (simp add: daemon_files_def)
  have moved: "found ?sc w0 w" if "same_but (daemon_files ?sc) w0 w" for w
    by (rule as_found_same_but [OF w0 that subset_refl apart])
  have path: "wp (Open E p) (\<lambda>s _. spath s = p) (\<lambda>_ _. True) (\<lambda>_. True) w" for p w
    by (simp add: Open_def wp_bind wp_ret) (rule wp_any; simp add: wp_any wp_bind wp_ret)
  have open_keys: "wp (Open E (KeysPath ?sc)) (\<lambda>s w. spath s = KeysPath ?sc \<and> found ?sc w0 w)
      (\<lambda>_. found ?sc w0) (lost E ?sc w0) w0"
    by (rule wp_mono [OF wp_conj [OF path touches_Open [OF dir, rule_format]]]) (auto dest: moved found_lost)
  have run: "wp (\<lambda>w. case mapE RunFailed (Run E groups wording conns) (sv, w) of (r, (_, w')) \<Rightarrow> (r, w'))
      (\<lambda>_. found ?sc w0) (\<lambda>_. found ?sc w0) (lost E ?sc w0) w"
    if "serving E ?sc w0 (sv, w)" "sess sv = None" for sv w
    using wp_Run [OF f that, of groups wording conns]
    by (auto simp: wp_def mapE_def split: prod.splits outcome.splits)
  have begun: "serving E ?sc w0 (\<lparr>scfg = ?sc, ks = s, sess = None, sessKey = [], sessSince = 0\<rparr>, w)"
    if "spath s = KeysPath ?sc \<and> found ?sc w0 w" for s w
    using that by (simp add: serving_def)
  show ?thesis
    unfolding oufdee_main_def NewServer_def Let_def wp_bind wp_mapE wp_ret
    by (rule wp_mono [OF open_keys]) (auto intro!: run begun)
qed

end
