(* ===== verification/ServerLives.thy ===== *)
theory ServerLives
  imports ServerRounds
begin

text \<open>
  Every request is answered: unless the process is killed from outside, a handler returns a
  response, and the daemon returns from its main function. No handler uses a nil session.
\<close>

section \<open>Sections that return\<close>

lemma livesI: "(\<And>s. fst (m s) \<noteq> Dead) \<Longrightarrow> lives m"
  by (auto simp: keeps_def wp_def split: prod.split outcome.split) (metis fst_conv)

lemma lives_persist: "no_kill E \<Longrightarrow> lives (persist E s)"
  unfolding persist_def cleanup_temp_def os_create_temp_def
  by (intro keeps_bind keeps_mapE keeps_seq lives_sys) (auto intro!: keep_intros)

lemma lives_ks_exec:
  assumes "no_kill E"
  shows "lives (ks_exec E req)"
proof (rule livesI, clarify)
  fix s :: store and w :: world assume dead: "fst (ks_exec E req (s, w)) = Dead"
  show False
  proof (cases rule: ks_exec_cases [of E req s w])
    case (commit k)
    define s1 where "s1 = set_state (new_state req k (now E (clock w))) s"
    have "fst (persist E s1 w) \<noteq> Dead" by (rule lives_fst [OF lives_persist [OF assms]])
    then show False using commit(2) dead
      by (auto simp: s1_def [symmetric] commit_or_def split: prod.splits outcome.splits)
  qed (use dead in auto)
qed

lemma voidA_dead: "fst (voidA m s) = Dead \<longleftrightarrow> fst (m s) = Dead"
  by (auto simp: voidA_def bindA_def ret_def split: prod.split outcome.split)

lemma lives_on_ks:
  assumes "no_kill E" "voidA m = ks_exec E req"
  shows "lives (on_ks m)"
proof (rule livesI)
  fix t :: "server \<times> world"
  have "fst (m (ks (fst t), snd t)) \<noteq> Dead"
    using lives_fst [OF lives_ks_exec [OF assms(1)]] voidA_dead [of m] assms(2) by metis
  then show "fst (on_ks m t) \<noteq> Dead"
    by (cases t) (auto simp: on_ks_def mapE_def split: prod.splits outcome.splits)
qed

lemma lives_on_host:
  assumes "lives m"
  shows "lives (on_host m)"
proof (rule livesI)
  fix t :: "server \<times> world"
  show "fst (on_host m t) \<noteq> Dead"
    using lives_fst [OF assms, of "snd t"] by (cases t) (auto simp: on_host_def split: prod.splits)
qed

lemma lives_on_sess:
  assumes "\<And>t. fst (m t) \<noteq> Dead"
  shows "lives (on_sess m s)"
proof (rule livesI)
  fix t :: "server \<times> world"
  show "fst (on_sess m s t) \<noteq> Dead"
    using assms [of "(s, snd t)"] by (cases t) (auto simp: on_sess_def split: prod.splits outcome.splits)
qed

lemma lives_with_server: "(\<And>sv. lives (f sv)) \<Longrightarrow> lives (with_server f)"
proof (rule livesI, clarify)
  fix sv :: server and w :: world assume f: "\<And>sv. lives (f sv)" and d: "fst (with_server f (sv, w)) = Dead"
  show False using lives_fst [OF f [of sv], of "(sv, w)"] d by (simp add: with_server_def)
qed

lemma lives_sections [keep_intros]:
  "lives (reading f)" "lives (modify g)" "lives take_session"
  by (auto simp: keeps_def wp_simps)

lemma lives_statusView: "no_kill E \<Longrightarrow> lives (statusViewLocked E)"
  unfolding statusViewLocked_def Let_def
  by (intro lives_with_server keeps_bind lives_on_host keeps_attempt lives_calls keeps_ret)

lemma lives_publish: "no_kill E \<Longrightarrow> lives (publish E name s)"
proof (rule livesI, clarify)
  fix sv :: server and w :: world assume "no_kill E" "fst (publish E name s (sv, w)) = Dead"
  then show False by (simp add: publish_def lives_fst [OF lives_statusView])
qed

lemma lives_connect_lock: "no_kill E \<Longrightarrow> lives (connect_lock E name)"
  unfolding connect_lock_def
  by (auto intro!: lives_with_server keeps_bind keeps_ret lives_statusView lives_sections split: option.split)

lemma lives_session: "no_kill E \<Longrightarrow> lives (on_sess (Start E) s)" "no_kill E \<Longrightarrow> lives (on_sess (Close E) s)"
  by (rule lives_on_sess, rule Start_lives, assumption) (rule lives_on_sess, rule Close_lives, assumption)

section \<open>Handlers that answer\<close>

text \<open>A response says ok exactly if it carries no error.\<close>

definition well_formed :: "'e Response \<Rightarrow> bool" where
  "well_formed r \<longleftrightarrow> (Ok r \<longleftrightarrow> Err r = None)"

definition answers :: "handler \<Rightarrow> bool" where
  "answers p \<longleftrightarrow> (\<forall>s. wp (alone p) (\<lambda>r _. Ok r \<and> Err r = None) (\<lambda>_ _. True) (\<lambda>_. False) s)"

named_theorems answer_intros \<open>handlers that answer\<close>

lemma answers_bind [answer_intros]: "lives m \<Longrightarrow> (\<And>a. answers (f a)) \<Longrightarrow> answers (bindT (atomic m) f)"
  unfolding answers_def wp_alone_bind wp_alone_atomic
proof
  fix s assume m: "lives m" and f: "\<And>a. \<forall>s. wp (alone (f a)) (\<lambda>r _. Ok r \<and> Err r = None) (\<lambda>_ _. True) (\<lambda>_. False) s"
  have "wp m (\<lambda>_ _. True) (\<lambda>_ _. True) (\<lambda>_. False) s" by (rule keepsD [OF m]) simp
  then show "wp m (\<lambda>a. wp (alone (f a)) (\<lambda>r _. Ok r \<and> Err r = None) (\<lambda>_ _. True) (\<lambda>_. False))
      (\<lambda>_ _. True) (\<lambda>_. False) s"
    by (rule wp_mono) (use f in auto)
qed

lemma answers_end [answer_intros]:
  "Ok r \<Longrightarrow> Err r = None \<Longrightarrow> answers (done_with r)" "answers (fail_with e)"
  by (simp_all add: answers_def wp_alone_done wp_alone_fail)

lemma answers_if [answer_intros]: "(b \<Longrightarrow> answers p) \<Longrightarrow> (\<not> b \<Longrightarrow> answers q) \<Longrightarrow> answers (if b then p else q)"
  by simp

lemma answers_cases [answer_intros]:
  "(\<And>e. answers (f e)) \<Longrightarrow> (\<And>a. answers (g a)) \<Longrightarrow> answers (case r of Inl e \<Rightarrow> f e | Inr a \<Rightarrow> g a)"
  "answers p \<Longrightarrow> (\<And>a. answers (h a)) \<Longrightarrow> answers (case x of None \<Rightarrow> p | Some a \<Rightarrow> h a)"
  by (simp_all split: sum.split option.split)

lemma answers_fresh_connect: "no_kill E \<Longrightarrow> answers (fresh_connect E name key)"
  unfolding fresh_connect_def
  by (intro answer_intros keep_intros lives_session lives_publish lives_on_ks [OF _ op_of(5)]) simp_all

lemma answers_doConnect: "no_kill E \<Longrightarrow> answers (doConnect E req)"
proof -
  assume k: "no_kill E"
  have rest: "answers (if name = [] then fail_with NoKeyGiven
     else bindT (atomic (reading (\<lambda>sv. Get (ks sv) name))) (\<lambda>found. case found of
       None \<Rightarrow> fail_with (NoSuchKey name)
     | Some key \<Rightarrow>
         bindT (atomic (connect_lock E name)) (\<lambda>current. case current of
           Inl view \<Rightarrow> done_with (okResp\<lparr>RsConnected := Some view\<rparr>)
         | Inr None \<Rightarrow> fresh_connect E name key
         | Inr (Some old) \<Rightarrow>
             bindT (atomic (mapE SwitchFailed (on_sess (Close E) old))) (\<lambda>_. fresh_connect E name key))))" for name
    by (intro answer_intros keep_intros lives_connect_lock lives_session answers_fresh_connect k) simp_all
  show ?thesis
  proof (cases "RqName req = []")
    case True
    then show ?thesis unfolding doConnect_def using rest by (simp add: answers_bind lives_sections)
  next
    case False
    have "answers (bindT (done_with n) f) = answers (f n)" for n :: gostring and f
      by (simp add: answers_def wp_alone_bind wp_alone_done)
    then show ?thesis unfolding doConnect_def if_not_P [OF False] using rest by simp
  qed
qed

lemma answers_doUndo: "no_kill E \<Longrightarrow> answers (doUndo E)"
  unfolding doUndo_def RunPanicStandalone_def
  by (intro answer_intros keep_intros lives_session lives_with_server lives_on_host lives_runPanic) simp_all

lemma answers_method:
  assumes k: "no_kill E"
  shows "answers doList" "answers (doAdd E req)" "answers (doRemove E req)" "answers (doRename E req)"
    "answers (doUse E req)" "answers (doDisconnect E)" "answers (doStatus E)"
  unfolding doList_def doAdd_def doRemove_def doRename_def doUse_def doDisconnect_def doStatus_def
  by (intro answer_intros keep_intros lives_session lives_statusView k
      lives_on_ks [OF k op_of(1)] lives_on_ks [OF k op_of(2)] lives_on_ks [OF k op_of(3)] lives_on_ks [OF k op_of(4)];
      simp)+

lemma dispatch_answers:
  assumes "no_kill E"
  shows "wp (alone (dispatch E req)) (\<lambda>r _. well_formed r) (\<lambda>_ _. False) (\<lambda>_. False) s"
proof -
  have "answers (if Method req = MethodPing then done_with okResp
     else if Method req = MethodList then doList
     else if Method req = MethodAdd then doAdd E req
     else if Method req = MethodRemove then doRemove E req
     else if Method req = MethodRename then doRename E req
     else if Method req = MethodUse then doUse E req
     else if Method req = MethodConnect then doConnect E req
     else if Method req = MethodDisconnect then doDisconnect E
     else if Method req = MethodStatus then doStatus E
     else if Method req = MethodUndo then doUndo E
     else fail_with (UnknownMethod (Method req)))"
    using answers_method [OF assms] answers_doConnect [OF assms, of req] answers_doUndo [OF assms]
    by (simp add: answers_end)
  then show ?thesis
    unfolding dispatch_def wp_alone_catch answers_def
    by (rule allE [of _ s]) (erule wp_mono, simp_all add: well_formed_def errResp_def zero_response_def)
qed

lemma wp_returns: "wp m Q (\<lambda>_ _. False) (\<lambda>_. False) s \<Longrightarrow> \<exists>a t. m s = (Ret a, t) \<and> Q a t"
  by (auto simp: wp_def split: prod.splits outcome.splits)

lemma dispatch_returns:
  assumes "no_kill E"
  shows "\<exists>resp svw'. alone (dispatch E req) svw = (Ret resp, svw') \<and> well_formed resp"
  by (rule wp_returns [OF dispatch_answers [OF assms]])

section \<open>The daemon returns\<close>

lemma lives_handle: "no_kill E \<Longrightarrow> lives (alone (handle E wording c))"
  unfolding handle_def keeps_def
  by (auto simp: wp_alone_bind wp_alone_done split: prod.split sum.split intro!: wp_mono [OF dispatch_answers])

lemma lives_serve: "no_kill E \<Longrightarrow> lives (serve E wording conns)"
proof (induction conns)
  case (Cons c cs)
  then show ?case by (cases c) (auto intro!: keeps_bind keeps_ret lives_handle)
qed (simp add: keeps_ret)

lemma lives_Run: "no_kill E \<Longrightarrow> lives (Run E groups wording conns)"
proof -
  assume k: "no_kill E"
  have "lives (chgrpSocket E groups p g)" for p g
    unfolding chgrpSocket_def os_chown_def by (intro keep_intros k)
  moreover have "lives (net_listen E p)" for p unfolding net_listen_def by (intro lives_sys k)
  moreover have "lives (shutdown E)"
    unfolding shutdown_def by (intro keep_intros lives_session k)
  ultimately show ?thesis
    unfolding Run_def Let_def
    by (intro lives_with_server keeps_bind keeps_ret lives_serve k keeps_seq)
      (auto intro!: keep_intros lives_on_host k)
qed

lemma main_returns:
  assumes k: "no_kill E"
  shows "fst (oufdee_main E groups wording conns cfg0 w) \<noteq> Dead"
proof -
  have "lives (reload E p)" for p
    unfolding reload_def
    by (intro keep_intros lives_calls k | auto split: sum.split fdata.split)+
  then have "lives (NewServer E c)" for c
    unfolding NewServer_def Open_def Let_def by (intro keep_intros k)
  moreover have "lives (\<lambda>w. case mapE RunFailed (Run E groups wording conns) (sv, w) of (r, (_, w')) \<Rightarrow> (r, w'))" for sv
  proof (rule livesI)
    show "fst (case mapE RunFailed (Run E groups wording conns) (sv, w) of (r, (_, w')) \<Rightarrow> (r, w')) \<noteq> Dead" for w
      using lives_fst [OF keeps_mapE [OF lives_Run [OF k]], of RunFailed groups wording conns "(sv, w)"]
      by (auto split: prod.split)
  qed
  ultimately have "lives (oufdee_main E groups wording conns cfg0)"
    unfolding oufdee_main_def by (intro keep_intros)
  then show ?thesis by (rule lives_fst)
qed

end
