(* ===== verification/ServerProps.thy ===== *)
theory ServerProps
  imports ServerLives KeystoreProps
begin

text \<open>
  What the daemon promises. \<open>cfg0\<close> are the values of its flags, \<open>w0\<close> is the host it starts on,
  \<open>conns\<close> are the connections it serves until it is told to stop; what comes in over them is
  arbitrary.
\<close>

section \<open>A demonstration\<close>

abbreviation demo_flags :: server_config where
  "demo_flags \<equiv> main_config ''dev''"

lemma demo_flags_sel:
  "applyDefaults demo_flags = demo_flags" "KeysPath demo_flags = ''/etc/outline-fedora/keys.json''"
  "SocketPath demo_flags = ''/run/outline-fedora/oufdee.sock''"
  "SrvStateDir demo_flags = ''/var/lib/outline-fedora''" "SrvResolvPath demo_flags = ''/etc/resolv.conf''"
  by (simp_all add: applyDefaults_def main_config_def or_default_def)

lemma demo_daemon_conf: "daemon_conf demo_flags = demo_config\<lparr>TransportURL := []\<rparr>"
  by (simp add: daemon_conf_def demo_config_def session_config_def ApplyDefaults_def zero_config_def or_default_def
      main_config_def)

lemma demo_dirs: "filepath_dir ''/etc/outline-fedora/keys.json'' = ''/etc/outline-fedora''"
  "filepath_dir ''/run/outline-fedora/oufdee.sock'' = ''/run/outline-fedora''"
  by (simp_all add: filepath_dir_def last_index_byte_def)

lemma demo_files: "daemon_files demo_flags = {''/etc/outline-fedora/keys.json'', ''/etc/outline-fedora'',
     ''/run/outline-fedora/oufdee.sock'', ''/run/outline-fedora''} \<union>
     {p. \<exists>r. p = ''/etc/outline-fedora/.keys.'' @ r @ ''.tmp''}"
  by (simp add: daemon_files_def demo_flags_sel demo_dirs key_temps_def)

lemma demo_managed: "managed_paths demo_config = {''/etc/resolv.conf'', ''/etc/resolv.conf.ouf.tmp'',
     ''/var/lib/outline-fedora'', ''/var/lib/outline-fedora/backup'', ''/var/lib/outline-fedora/backup/resolv.conf'',
     ''/var/lib/outline-fedora/snapshot.json'', ''/var/lib/outline-fedora/snapshot.json.tmp''}"
  by (simp add: managed_paths_def scratch_def snap_files_def resolv_tmp_def snap_path_def backup_path_def
      filepath_join_def demo_config_sel BackupSubdir_def SnapshotFile_def)

lemma demo_fair:
  assumes "no_deny (ref_env f)"
  shows "fair_host (ref_env f) (applyDefaults demo_flags) demo_world"
proof -
  have "managed_paths (demo_config\<lparr>TransportURL := []\<rparr>) = managed_paths demo_config"
    by (simp add: managed_paths_def)
  then show ?thesis
    unfolding fair_host_def demo_flags_sel demo_daemon_conf demo_files
    using assms by (auto simp: ref_lawful demo_config_ok demo_clean demo_installed demo_apart demo_managed ref_kernel
        key_temps_def demo_dirs)
qed


definition ask :: "Request \<Rightarrow> conn" where
  "ask req = \<lparr>inbox = \<lparr>lines = [Line (encode_request req)], broken = False\<rparr>,
     outbox = \<lparr>lines = [], broken = False\<rparr>\<rparr>"

text \<open>A key is added, the daemon connects, and is told to stop.\<close>

definition demo_conns :: "conn option list" where
  "demo_conns = [Some (ask (zero_request\<lparr>Method := MethodAdd, RqURL := ''ss://u@h''\<rparr>)), None,
     Some (ask (zero_request\<lparr>Method := MethodConnect\<rparr>))]"

section \<open>The host\<close>

lemma daemon_found_run:
  assumes "fair_host E (applyDefaults cfg0) w0" "oufdee_main E groups wording conns cfg0 w0 = (r, w)"
  shows "if r = Dead then lost E (applyDefaults cfg0) w0 w else found (applyDefaults cfg0) w0 w"
  using daemon_found [OF assms(1), of groups wording conns] assms(2) by (cases r) (simp_all add: wp_def)



lemma lost_daemon_reverts:
  assumes f: "fair_host E sc w0" and l: "lost E sc w0 w" and fates: "list_all kills_only fates"
  shows "\<exists>w'. ouf_panic (with_fate E no_faults) (SrvStateDir sc) (SrvResolvPath sc)
        (panic_attempts E (daemon_conf sc) fates (reaped E (daemon_conf sc) w)) = (Ret (), w') \<and> found sc w0 w'"
proof -
  obtain w1 where w1: "found sc w0 w1" "revertible E (daemon_conf sc) w1 w" using l by (auto simp: lost_def)
  have c: "config_ok (daemon_conf sc)" "lawful_kernel E" "all_tools E" "host_clean (daemon_conf sc) w0"
    using f by (auto simp: fair_host_def script_installed_def)
  from revert_completes [OF c(1-3) as_found_clean [OF c(4) w1(1)] w1(2) fates]
  show ?thesis
    using as_found_restored [OF w1(1)] as_found_untouched [OF w1(1) _ c(1)]
    by (auto simp: daemon_conf_sel [OF f])
qed



lemma demo_killed:
  "\<exists>w. oufdee_main (ref_env (kill_at 3)) groups wording conns demo_flags demo_world = (Dead, w)"
  by (simp add: oufdee_main_def NewServer_def Let_def demo_flags_sel Open_def reload_def effect_defs os_call_defs follow_41
      demo_dirs demo_world_def set_node_def kill_at_def ref_env_def Run_def with_server_def on_host_def)



section \<open>Requests\<close>

text \<open>C34. Every request is answered. Unless the process is killed from outside, a handler
  returns one response, whatever fails on the way, and a response says ok exactly if it
  carries no error.\<close>

theorem daemon_always_answers:
  assumes "no_kill E"
  shows "\<exists>resp svw'. alone (dispatch E req) svw = (Ret resp, svw') \<and> (Ok resp \<longleftrightarrow> Err resp = None)"
  using dispatch_returns [OF assms] unfolding well_formed_def .

definition demo_server :: server where
  "demo_server = \<lparr>scfg = demo_flags, ks = demo_store, sess = None, sessKey = [], sessSince = 0\<rparr>"

theorem daemon_always_answers_witness:
  "\<exists>resp svw'. alone (dispatch (ref_env (fail_at 7)) (zero_request\<lparr>Method := MethodConnect\<rparr>)) (demo_server, demo_world)
     = (Ret resp, svw') \<and> (Ok resp \<longleftrightarrow> Err resp = None)"
proof (rule daemon_always_answers)
  show "no_kill (ref_env (fail_at 7))" by (simp add: no_kill_def fail_at_def)
qed

text \<open>C11. The daemon's state stays consistent under every interleaving. Handlers run
  concurrently, each a sequence of critical sections; new ones start at any time. Whatever the
  order in which the sections of all of them follow each other, and whatever fails or is
  killed, the key store stays well-formed, and a key name is recorded exactly while there is a
  session.\<close>

theorem daemon_state_consistent:
  assumes "pool_reach (range (dispatch E)) \<lparr>threads = [], shared = (sv, w)\<rparr> P"
    "ks_wf (state (ks sv))" "sess sv = None \<longleftrightarrow> sessKey sv = []"
  shows "ks_wf (state (ks (fst (shared P)))) \<and> (sess (fst (shared P)) = None \<longleftrightarrow> sessKey (fst (shared P)) = [])"
  using pool_invariant [OF assms(1), where I = ok_at] assms(2,3) steady_dispatch
  by (auto simp: server_ok_def)

text \<open>A request to remove a key and one to rename it, in the pool together.\<close>

theorem daemon_state_consistent_witness:
  "\<exists>P :: (server \<times> world, unit, daemon_error Response) pool.
     pool_reach (range (dispatch (ref_env no_faults))) \<lparr>threads = [], shared = (demo_server, demo_world)\<rparr> P
     \<and> length (threads P) = 2
     \<and> ks_wf (state (ks (fst (shared P)))) \<and> (sess (fst (shared P)) = None \<longleftrightarrow> sessKey (fst (shared P)) = [])"
proof -
  let ?T = "range (dispatch (ref_env no_faults)) :: (server \<times> world, unit, daemon_error Response) thread set"
  let ?p = "dispatch (ref_env no_faults) (zero_request\<lparr>Method := MethodRemove, RqName := ''b''\<rparr>)
      :: (server \<times> world, unit, daemon_error Response) thread"
  let ?q = "dispatch (ref_env no_faults) (zero_request\<lparr>Method := MethodRename, RqName := ''b'', NewName := ''c''\<rparr>)
      :: (server \<times> world, unit, daemon_error Response) thread"
  obtain r t where run: "alone ?p (demo_server, demo_world) = (r, t)" by (metis surj_pair)
  have "no_kill (ref_env no_faults)" by (simp add: no_kill_def no_faults_def)
  then have alive: "r \<noteq> Dead" using dispatch_returns run by (metis fst_conv outcome.distinct(3))
  have "pool_reach ?T \<lparr>threads = [], shared = (demo_server, demo_world)\<rparr> \<lparr>threads = [Fin r], shared = t\<rparr>"
    using pool_request [where T = ?T and p = ?p and ps = "[]", OF _ _ run] by simp
  moreover have "pool_reach ?T \<lparr>threads = [Fin r], shared = t\<rparr> \<lparr>threads = [Fin r] @ [?q], shared = t\<rparr>"
    by (rule pool_arrives) (use alive in auto)
  ultimately have reach: "pool_reach ?T \<lparr>threads = [], shared = (demo_server, demo_world)\<rparr> \<lparr>threads = [Fin r, ?q], shared = t\<rparr>"
    by (auto intro: pool_reach_trans)
  have "ks_wf (state (ks demo_server))" "sess demo_server = None \<longleftrightarrow> sessKey demo_server = []"
    by (simp_all add: demo_server_def demo_store_wf)
  from daemon_state_consistent [OF reach this] reach show ?thesis
    by (intro exI [of _ "\<lparr>threads = [Fin r, ?q], shared = t\<rparr>"]) simp
qed

text \<open>C35. While requests are handled one after the other, the key of the running session is a
  stored key: it is neither removed nor left behind by a rename, whatever is asked and whatever
  fails.\<close>

theorem connected_key_exists:
  assumes "requests.run E reqs (Some sv, w) = (Some sv', w')"
    "ks_wf (state (ks sv))" "spath (ks sv) \<notin> key_temps (ks sv)" "sess sv = None" "sessKey sv = []"
  shows "sess sv' \<noteq> None \<longrightarrow> Get (ks sv') (sessKey sv') \<noteq> None"
proof -
  have "stored_if_alive (Some sv, w)"
    using assms(2-5) by (simp add: stored_if_alive_def stored_def server_ok_def)
  from requests.run_inv [OF this, of E reqs] show ?thesis
    using assms(1) by (auto simp: stored_if_alive_def stored_def server_ok_def Get_stored simp del: not_None_eq)
qed


lemma requests_alive: "no_kill E \<Longrightarrow> \<exists>sv' w'. requests.run E reqs (Some sv, w) = (Some sv', w')"
proof (induction reqs arbitrary: sv w)
  case (Cons req reqs)
  obtain resp sv' w' where "alone (dispatch E req :: (server \<times> world, unit, daemon_error Response) thread) (sv, w)
      = (Ret resp, (sv', w'))"
    using dispatch_returns [OF Cons.prems, of req "(sv, w)"] by (metis surj_pair)
  then have "request_step E req (Some sv, w) = (True, (Some sv', w'))" by (simp add: request_step_def)
  with Cons show ?case by simp
qed simp

theorem connected_key_exists_witness:
  "\<exists>sv' w'. requests.run (ref_env no_faults) [zero_request\<lparr>Method := MethodConnect, RqName := ''b''\<rparr>,
       zero_request\<lparr>Method := MethodRename, RqName := ''b'', NewName := ''c''\<rparr>] (Some demo_server, demo_world)
     = (Some sv', w') \<and> (sess sv' \<noteq> None \<longrightarrow> Get (ks sv') (sessKey sv') \<noteq> None)"
proof -
  have k: "no_kill (ref_env no_faults)" by (simp add: no_kill_def no_faults_def)
  have "ks_wf (state (ks demo_server))" "spath (ks demo_server) \<notin> key_temps (ks demo_server)"
    "sess demo_server = None" "sessKey demo_server = []"
    using demo_paths(3) demo_store_wf by (simp_all add: demo_server_def demo_store_def)
  note start = this
  obtain sv' w' where run: "requests.run (ref_env no_faults) [zero_request\<lparr>Method := MethodConnect, RqName := ''b''\<rparr>,
       zero_request\<lparr>Method := MethodRename, RqName := ''b'', NewName := ''c''\<rparr>] (Some demo_server, demo_world)
     = (Some sv', w')"
    using requests_alive [OF k] by metis
  from connected_key_exists [OF run start] run show ?thesis by blast
qed


section \<open>The wire\<close>

text \<open>C38. What is written is what is read: a request and a response with texts in UTF-8, written
  as one line of JSON to a connection on which nothing is waiting, are read at the other end as
  they were, and nothing is left. Empty fields are not sent, and come back empty.\<close>

theorem wire_round_trip:
  assumes "lines s = []" "\<not> broken s" "request_valid req" "response_valid resp"
  shows "ReadMessage decode_request (snd (WriteMessage (encode_request req) s)) = (Inr req, s)
     \<and> ReadMessage decode_response (snd (WriteMessage (encode_response resp) s)) = (Inr resp, s)"
  using assms by (simp add: WriteMessage_def ReadMessage_def decode_encode_request decode_encode_response)

theorem wire_round_trip_witness:
  "ReadMessage decode_request (snd (WriteMessage (encode_request (zero_request\<lparr>Method := MethodList\<rparr>))
       \<lparr>lines = [], broken = False\<rparr>)) = (Inr (zero_request\<lparr>Method := MethodList\<rparr>), \<lparr>lines = [], broken = False\<rparr>)
   \<and> ReadMessage decode_response (snd (WriteMessage (encode_response (errResp ''no key''))
       \<lparr>lines = [], broken = False\<rparr>)) = (Inr (errResp ''no key''), \<lparr>lines = [], broken = False\<rparr>)"
  by (rule wire_round_trip)
    (simp_all add: request_valid_def response_valid_def errResp_def zero_request_def zero_response_def MethodList_def
      ascii_valid_utf8 ascii_def)

end
