(* ===== verification/ServerSpec.thy ===== *)
theory ServerSpec
  imports ServerProps
begin

text \<open>
  The contract of the daemon towards its clients, without sessions, files and hosts: a map from
  names to keys, the active name, and the name of the connected key. Every request the daemon
  answers is a step of this machine.
\<close>

section \<open>The abstract daemon\<close>

record directory =
  entries :: "gostring \<Rightarrow> key option"
  active :: gostring
  connected :: "gostring option"

definition directory_of :: "server \<Rightarrow> directory" where
  "directory_of sv = \<lparr>entries = Get (ks sv), active = ActiveName (ks sv),
     connected = map_option (\<lambda>_. sessKey sv) (sess sv)\<rparr>"

text \<open>A request that is answered with an error has changed no key; a failed addition may have
  changed the active name, and a request that was to end a session has ended it.\<close>

definition failed_step :: "Request \<Rightarrow> directory \<Rightarrow> directory \<Rightarrow> bool" where
  "failed_step req A A' \<longleftrightarrow> entries A' = entries A \<and> (Method req \<noteq> MethodAdd \<longrightarrow> active A' = active A)
     \<and> (connected A' = connected A
        \<or> connected A' = None \<and> Method req \<in> {MethodConnect, MethodDisconnect, MethodUndo})"

definition list_step :: "directory \<Rightarrow> 'e Response \<Rightarrow> directory \<Rightarrow> bool" where
  "list_step A resp A' \<longleftrightarrow> A' = A \<and> RsActive resp = active A
     \<and> set (RsKeys resp) = {key_view k (n = active A) (connected A = Some n) | n k. entries A n = Some k}"

definition add_step :: "Request \<Rightarrow> directory \<Rightarrow> 'e Response \<Rightarrow> directory \<Rightarrow> bool" where
  "add_step req A resp A' \<longleftrightarrow> (\<exists>k. URL k = trim_space (RqURL req) \<and> entries A (Name k) = None
     \<and> A' = A\<lparr>entries := (entries A)(Name k \<mapsto> k), active := (if active A = [] then Name k else active A)\<rparr>
     \<and> RsAdded resp = Some (key_view k (active A' = Name k) False))"

definition remove_step :: "Request \<Rightarrow> directory \<Rightarrow> directory \<Rightarrow> bool" where
  "remove_step req A A' \<longleftrightarrow> (let n = RqName req in entries A n \<noteq> None \<and> connected A \<noteq> Some n
     \<and> A' = A\<lparr>entries := (entries A)(n := None), active := (if active A = n then [] else active A)\<rparr>)"

definition rename_step :: "Request \<Rightarrow> directory \<Rightarrow> directory \<Rightarrow> bool" where
  "rename_step req A A' \<longleftrightarrow> (let a = RqName req; b = NewName req in
     if a = b then A' = A
     else (\<exists>k. entries A a = Some k \<and> entries A b = None
       \<and> A' = \<lparr>entries = (entries A)(a := None, b \<mapsto> k\<lparr>Name := b\<rparr>), active = (if active A = a then b else active A),
           connected = (if connected A = Some a then Some b else connected A)\<rparr>))"

definition use_step :: "Request \<Rightarrow> directory \<Rightarrow> directory \<Rightarrow> bool" where
  "use_step req A A' \<longleftrightarrow> entries A (RqName req) \<noteq> None \<and> A' = A\<lparr>active := RqName req\<rparr>"

text \<open>The key that was active stays so if the new one cannot be recorded.\<close>

definition connect_step :: "Request \<Rightarrow> directory \<Rightarrow> 'e Response \<Rightarrow> directory \<Rightarrow> bool" where
  "connect_step req A resp A' \<longleftrightarrow> (let n = (if RqName req = [] then active A else RqName req) in
     entries A n \<noteq> None \<and> entries A' = entries A \<and> active A' \<in> {active A, n} \<and> connected A' = Some n
     \<and> (\<exists>v. RsConnected resp = Some v \<and> SvConnected v \<and> SvKeyName v = n))"

definition status_step :: "directory \<Rightarrow> 'e Response \<Rightarrow> directory \<Rightarrow> bool" where
  "status_step A resp A' \<longleftrightarrow> A' = A \<and> (\<exists>v. RsStatus resp = Some v
     \<and> (case connected A of None \<Rightarrow> \<not> SvConnected v | Some n \<Rightarrow> SvConnected v \<and> SvKeyName v = n))"

definition daemon_spec :: "Request \<Rightarrow> directory \<Rightarrow> 'e Response \<Rightarrow> directory \<Rightarrow> bool" where
  "daemon_spec req A resp A' \<longleftrightarrow>
     (if \<not> Ok resp then Err resp \<noteq> None \<and> failed_step req A A'
      else if Method req = MethodPing then A' = A
      else if Method req = MethodList then list_step A resp A'
      else if Method req = MethodAdd then add_step req A resp A'
      else if Method req = MethodRemove then remove_step req A A'
      else if Method req = MethodRename then rename_step req A A'
      else if Method req = MethodUse then use_step req A A'
      else if Method req = MethodConnect then connect_step req A resp A'
      else if Method req = MethodDisconnect then connected A \<noteq> None \<and> A' = A\<lparr>connected := None\<rparr>
      else if Method req = MethodStatus then status_step A resp A'
      else if Method req = MethodUndo then A' = A\<lparr>connected := None\<rparr>
      else False)"

section \<open>Operations of the store, seen from the directory\<close>

lemma wp_on_ks_means:
  assumes "voidA m = ks_exec E req" "server_ok sv"
    and "\<And>a k w' w''. m (ks sv, w) = (Ret a, (k, w')) \<Longrightarrow> ks_exec E req (ks sv, w) = (Ret (), (k, w')) \<Longrightarrow>
       ks_wf (state k) \<Longrightarrow> Q a (sv\<lparr>ks := k\<rparr>, w')"
    "\<And>e k w'. Get k = Get (ks sv) \<Longrightarrow> ActiveName k = ActiveName (ks sv) \<or> (\<exists>u n. req = OpAdd u n) \<Longrightarrow>
       ks_wf (state k) \<Longrightarrow> X (KeystoreError e) (sv\<lparr>ks := k\<rparr>, w')"
  shows "wp (on_ks m) Q X (\<lambda>_. True) (sv, w)"
proof -
  have wf: "ks_wf (state (ks sv))" using assms(2) by (simp add: server_ok_def)
  obtain r k w' where run: "m (ks sv, w) = (r, (k, w'))" by (metis surj_pair)
  have same: "ks_exec E req (ks sv, w) = (case r of Ret _ \<Rightarrow> Ret () | Throw e \<Rightarrow> Throw e | Dead \<Rightarrow> Dead, (k, w'))"
    unfolding assms(1) [symmetric] by (simp add: voidA_def bindA_def ret_def run split: outcome.split)
  have wf': "ks_wf (state k)" using ks_exec_wf [OF wf, of E req w] same by simp
  show ?thesis
  proof (cases r)
    case (Ret a)
    then show ?thesis using assms(3) [of a k w'] run same wf' unfolding wp_on_ks by (simp add: wp_def)
  next
    case (Throw e)
    then show ?thesis using assms(4) [of k e w'] ks_exec_failed [OF wf] run same wf' unfolding wp_on_ks by (auto simp: wp_def)
  qed (unfold wp_on_ks, simp add: wp_def run)
qed

lemma directory_simps [simp]:
  "entries (directory_of sv) = Get (ks sv)" "active (directory_of sv) = ActiveName (ks sv)"
  "connected (directory_of sv) = map_option (\<lambda>_. sessKey sv) (sess sv)"
  by (simp_all add: directory_of_def)

lemma directory_eqI:
  "entries A = entries B \<Longrightarrow> active A = active B \<Longrightarrow> connected A = connected B \<Longrightarrow> A = (B :: directory)"
  by simp


lemmas method_names = MethodUndo_def MethodPing_def MethodList_def MethodAdd_def MethodRemove_def
  MethodRename_def MethodUse_def MethodConnect_def MethodDisconnect_def MethodStatus_def

section \<open>The handlers\<close>

abbreviation fails :: "Request \<Rightarrow> server \<Rightarrow> 'x \<Rightarrow> server \<times> world \<Rightarrow> bool" where
  "fails req sv \<equiv> \<lambda>_ t. failed_step req (directory_of sv) (directory_of (fst t))"

lemma failed_stepI:
  assumes "Get k = Get (ks sv)" "ActiveName k = ActiveName (ks sv) \<or> Method req = MethodAdd"
  shows "failed_step req (directory_of sv) (directory_of (sv\<lparr>ks := k\<rparr>))"
  using assms by (auto simp: failed_step_def)

lemma failed_step_refl [simp]: "failed_step req A A"
  by (simp add: failed_step_def)

lemma keys_entries:
  assumes "ks_wf (state s)"
  shows "set (ListKeys s) = {k. Get s (Name k) = Some k}"
proof -
  have dist: "distinct (names (Keys (state s)))" using assms by (simp add: ks_wf_def)
  have "k \<in> set (Keys (state s)) \<longleftrightarrow> lookup (Name k) (Keys (state s)) = Some k" for k
    using lookup_mem [OF dist] lookup_SomeD by metis
  then show ?thesis by (auto simp: ListKeys_def Get_def)
qed

lemma Get_named: "ks_wf (state s) \<Longrightarrow> Get s n = Some k \<Longrightarrow> Name k = n \<and> n \<noteq> []"
  using lookup_SomeD [of n "Keys (state s)" k] nameOK_nonempty by (auto simp: Get_def ks_wf_def list_all_iff)

lemma meets_list:
  assumes "server_ok sv"
  shows "wp (alone doList) (\<lambda>r t. Ok r \<and> list_step (directory_of sv) r (directory_of (fst t))) X D (sv, w)"
proof -
  have wf: "ks_wf (state (ks sv))" and sync: "sess sv = None \<longleftrightarrow> sessKey sv = []" using assms by (simp_all add: server_ok_def)
  have conn: "connected (directory_of sv) = Some (Name k) \<longleftrightarrow> Name k = sessKey sv" if "Get (ks sv) (Name k) = Some k" for k
    using Get_named [OF wf that] sync by auto
  let ?view = "\<lambda>k. key_view k (Name k = ActiveName (ks sv)) (Name k = sessKey sv)"
  let ?seen = "\<lambda>n k. key_view k (n = ActiveName (ks sv)) (connected (directory_of sv) = Some n)"
  have same: "?view k = ?seen (Name k) k" if "Get (ks sv) (Name k) = Some k" for k
    by (simp only: conn [OF that])
  have "?view ` set (ListKeys (ks sv)) = {?seen n k | n k. Get (ks sv) n = Some k}"
    unfolding keys_entries [OF wf]
  proof (intro set_eqI iffI)
    fix x assume "x \<in> ?view ` {k. Get (ks sv) (Name k) = Some k}"
    then obtain k where "Get (ks sv) (Name k) = Some k" "x = ?seen (Name k) k" using same by blast
    then show "x \<in> {?seen n k | n k. Get (ks sv) n = Some k}" by blast
  next
    fix x assume "x \<in> {?seen n k | n k. Get (ks sv) n = Some k}"
    then obtain n k where nk: "Get (ks sv) n = Some k" "x = ?seen n k" by blast
    then have name: "Name k = n" using Get_named [OF wf] by blast
    with nk(1) have get: "Get (ks sv) (Name k) = Some k" by simp
    from nk(2) have "x = ?view k" unfolding name [symmetric] same [OF get] .
    with get show "x \<in> ?view ` {k. Get (ks sv) (Name k) = Some k}" by blast
  qed
  then show ?thesis
    by (simp add: doList_def wp_alone_bind wp_alone_atomic wp_alone_done wp_reading list_step_def okResp_def del: directory_simps(3))
qed

lemma meets_add:
  assumes "server_ok sv" "Method req = MethodAdd"
  shows "wp (alone (doAdd E req)) (\<lambda>r t. Ok r \<and> add_step req (directory_of sv) r (directory_of (fst t)))
     (fails req sv) (\<lambda>_. True) (sv, w)"
  unfolding doAdd_def wp_alone_bind wp_alone_atomic wp_alone_done
  by (rule wp_on_ks_means [OF op_of(1) assms(1)])
    (auto simp: wp_reading add_step_def okResp_def assms(2) dest!: Add_meaning intro!: failed_stepI exI directory_eqI)

lemma meets_remove:
  assumes "server_ok sv"
  shows "wp (alone (doRemove E req)) (\<lambda>r t. Ok r \<and> remove_step req (directory_of sv) (directory_of (fst t)))
     (fails req sv) (\<lambda>_. True) (sv, w)"
proof -
  have wf: "ks_wf (state (ks sv))" using assms by (simp add: server_ok_def)
  show ?thesis
    unfolding doRemove_def wp_alone_bind wp_alone_atomic wp_reading
    by (auto simp: wp_alone_bind wp_alone_atomic wp_alone_done wp_alone_fail remove_step_def
        dest!: ks_exec_meaning [OF wf] intro!: wp_on_ks_means [OF op_of(2) assms] failed_stepI directory_eqI)
qed

lemma meets_use:
  assumes "server_ok sv"
  shows "wp (alone (doUse E req)) (\<lambda>r t. Ok r \<and> use_step req (directory_of sv) (directory_of (fst t)))
     (fails req sv) (\<lambda>_. True) (sv, w)"
proof -
  have wf: "ks_wf (state (ks sv))" using assms by (simp add: server_ok_def)
  show ?thesis
    unfolding doUse_def wp_alone_bind wp_alone_atomic
    by (auto simp: wp_alone_done use_step_def
        dest!: ks_exec_meaning [OF wf] intro!: wp_on_ks_means [OF op_of(4) assms] failed_stepI directory_eqI)
qed


lemma meets_rename:
  assumes "stored sv"
  shows "wp (alone (doRename E req)) (\<lambda>r t. Ok r \<and> rename_step req (directory_of sv) (directory_of (fst t)))
     (fails req sv) (\<lambda>_. True) (sv, w)"
proof -
  have ok: "server_ok sv" by (rule stored_ok(1) [OF assms])
  then have wf: "ks_wf (state (ks sv))" and sync: "sess sv = None \<longleftrightarrow> sessKey sv = []" by (simp_all add: server_ok_def)
  let ?a = "RqName req" and ?b = "NewName req"
  let ?next = "\<lambda>k. if sessKey sv = ?a then sv\<lparr>ks := k, sessKey := ?b\<rparr> else sv\<lparr>ks := k\<rparr>"
  have step: "rename_step req (directory_of sv) (directory_of (?next k))"
    if "ks_exec E (OpRename ?a ?b) (ks sv, w) = (Ret (), (k, w'))" for k w'
  proof -
    have *: "if ?a = ?b then k = ks sv else (\<exists>x. Get (ks sv) ?a = Some x \<and> Get (ks sv) ?b = None
        \<and> Get k = (Get (ks sv))(?a := None, ?b \<mapsto> x\<lparr>Name := ?b\<rparr>))
      \<and> ActiveName k = (if ActiveName (ks sv) = ?a then ?b else ActiveName (ks sv))"
      using ks_exec_meaning [OF wf that] by simp
    show ?thesis
    proof (cases "?a = ?b")
      case True
      with * show ?thesis by (auto simp: rename_step_def directory_of_def)
    next
      case False
      with * obtain x where x: "Get (ks sv) ?a = Some x" "Get (ks sv) ?b = None"
        "Get k = (Get (ks sv))(?a := None, ?b \<mapsto> x\<lparr>Name := ?b\<rparr>)"
        "ActiveName k = (if ActiveName (ks sv) = ?a then ?b else ActiveName (ks sv))" by auto
      have "connected (directory_of (?next k))
          = (if connected (directory_of sv) = Some ?a then Some ?b else connected (directory_of sv))"
        using sync by (cases "sess sv") auto
      with x False show ?thesis
        unfolding rename_step_def Let_def by (intro if_not_P [THEN iffD2]) (auto intro!: directory_eqI)
    qed
  qed
  show ?thesis
    unfolding doRename_def wp_alone_bind wp_alone_atomic wp_alone_done
    by (rule wp_on_ks_means [OF op_of(3) ok]) (use step in \<open>auto simp: wp_modify intro!: failed_stepI\<close>)
qed

lemma meets_quiet:
  assumes "server_ok sv"
  shows "wp (alone (doStatus E)) (\<lambda>r t. Ok r \<and> status_step (directory_of sv) r (directory_of (fst t)))
     (fails req sv) (\<lambda>_. True) (sv, w)"
    "Method req = MethodDisconnect \<Longrightarrow> wp (alone (doDisconnect E)) (\<lambda>r t. Ok r \<and> sess sv \<noteq> None
       \<and> directory_of (fst t) = (directory_of sv)\<lparr>connected := None\<rparr>) (fails req sv) (\<lambda>_. True) (sv, w)"
    "Method req = MethodUndo \<Longrightarrow> wp (alone (doUndo E)) (\<lambda>r t. Ok r
       \<and> directory_of (fst t) = (directory_of sv)\<lparr>connected := None\<rparr>) (fails req sv) (\<lambda>_. True) (sv, w)"
proof -
  have ended: "directory_of (no_session sv) = (directory_of sv)\<lparr>connected := None\<rparr>" by (simp add: directory_of_def)
  show "wp (alone (doStatus E)) (\<lambda>r t. Ok r \<and> status_step (directory_of sv) r (directory_of (fst t)))
     (fails req sv) (\<lambda>_. True) (sv, w)"
    unfolding doStatus_def wp_alone_bind wp_alone_atomic wp_alone_done
    by (rule wp_statusView) (auto simp: status_step_def okResp_def view_of_def zero_statusview_def split: option.split)
  show "wp (alone (doDisconnect E)) (\<lambda>r t. Ok r \<and> sess sv \<noteq> None
       \<and> directory_of (fst t) = (directory_of sv)\<lparr>connected := None\<rparr>) (fails req sv) (\<lambda>_. True) (sv, w)"
    if "Method req = MethodDisconnect"
    using that
    by (auto simp: doDisconnect_def wp_simps ended failed_step_def no_session_def [of sv] split: option.split intro!: wp_any)
  show "wp (alone (doUndo E)) (\<lambda>r t. Ok r
       \<and> directory_of (fst t) = (directory_of sv)\<lparr>connected := None\<rparr>) (fails req sv) (\<lambda>_. True) (sv, w)"
    if "Method req = MethodUndo"
    using that
    by (auto simp: doUndo_def wp_simps ended failed_step_def split: option.split intro!: wp_any)
qed


definition connected_as :: "server \<Rightarrow> gostring \<Rightarrow> 'e Response \<Rightarrow> server \<times> world \<Rightarrow> bool" where
  "connected_as sv n r t \<longleftrightarrow> Ok r \<and> Get (ks (fst t)) = Get (ks sv) \<and> ActiveName (ks (fst t)) \<in> {ActiveName (ks sv), n}
     \<and> connected (directory_of (fst t)) = Some n \<and> (\<exists>v. RsConnected r = Some v \<and> SvConnected v \<and> SvKeyName v = n)"

lemma meets_fresh_connect:
  assumes "server_ok sv" "sess sv = None" "n \<noteq> []"
  shows "wp (alone (fresh_connect E n key)) (connected_as sv n) (\<lambda>_ t. fst t = sv) (\<lambda>_. True) (sv, w)"
proof -
  let ?up = "\<lambda>s t. sv\<lparr>sess := Some s, sessKey := n, sessSince := t\<rparr>"
  have ok: "server_ok (?up s t)" for s t using assms by (simp add: server_ok_def)
  have mark: "wp (on_ks (MarkConnected E n)) (\<lambda>_. connected_as sv n (okResp\<lparr>RsConnected := Some (view_of (?up s t) d)\<rparr>))
      (\<lambda>_. connected_as sv n (okResp\<lparr>RsConnected := Some (view_of (?up s t) d)\<rparr>)) (\<lambda>_. True) (?up s t, w')" for s t d w'
  proof (rule wp_on_ks_means [OF op_of(5) ok])
    fix a k w' w'' assume run: "ks_exec E (OpMarkConnected n) (ks (?up s t), w') = (Ret (), (k, w''))"
    have "ks_wf (state (ks (?up s t)))" using ok by (simp add: server_ok_def)
    from ks_exec_meaning [OF this run]
    show "connected_as sv n (okResp\<lparr>RsConnected := Some (view_of (?up s t) d)\<rparr>) (?up s t\<lparr>ks := k\<rparr>, w'')"
      by (simp add: okResp_def view_of_def connected_as_def)
  qed (auto simp: okResp_def view_of_def connected_as_def)
  show ?thesis
    unfolding fresh_connect_def wp_alone_bind wp_alone_atomic wp_reading
  proof (cases "New (session_config (scfg sv) (URL key))")
    case (Inr s)
    have start: "wp (on_sess (Start E) s) (\<lambda>_ t. fst t = sv) (\<lambda>_ t. fst t = sv) (\<lambda>_. True) (sv, w)"
      by (simp add: wp_on_sess) (rule wp_any; simp split: prod.split)
    have rest: "wp (alone (bindT (atomic (publish E n s')) (\<lambda>view. bindT (atomic (attempt (on_ks (MarkConnected E n)))) (\<lambda>_.
        done_with (okResp\<lparr>RsConnected := Some view\<rparr>))) :: handler)) (connected_as sv n) (\<lambda>_ t. fst t = sv) (\<lambda>_. True) t"
      if "fst t = sv" for s' t
      using that
      by (cases t) (auto simp: wp_alone_bind wp_alone_atomic wp_alone_done wp_publish wp_attempt
          intro!: wp_statusView mark)
    show "wp (alone ((case New (session_config (scfg sv) (URL key)) of Inl e \<Rightarrow> fail_with (BuildSession e)
       | Inr s \<Rightarrow> bindT (atomic (mapE StartFailed (on_sess (Start E) s))) (\<lambda>started.
         bindT (atomic (publish E n started)) (\<lambda>view. bindT (atomic (attempt (on_ks (MarkConnected E n)))) (\<lambda>_.
         done_with (okResp\<lparr>RsConnected := Some view\<rparr>))))) :: handler)) (connected_as sv n) (\<lambda>_ t. fst t = sv) (\<lambda>_. True) (sv, w)"
      unfolding Inr sum.case wp_alone_bind [of "atomic (mapE StartFailed (on_sess (Start E) s))"] wp_alone_atomic wp_mapE
      by (rule wp_mono [OF start]) (simp_all add: rest)
  qed (simp add: wp_alone_fail)
qed


lemma meets_connect:
  assumes "server_ok sv" "Method req = MethodConnect"
  shows "wp (alone (doConnect E req)) (\<lambda>r t. Ok r \<and> connect_step req (directory_of sv) r (directory_of (fst t)))
     (fails req sv) (\<lambda>_. True) (sv, w)"
proof -
  define n where "n = (if RqName req = [] then ActiveName (ks sv) else RqName req)"
  have start: "wp (alone (if RqName req = [] then atomic (reading (\<lambda>sv. ActiveName (ks sv))) else done_with (RqName req)))
      Q X D (sv, w) = Q n (sv, w)" for Q :: "gostring \<Rightarrow> server \<times> world \<Rightarrow> bool" and X D
    by (simp add: n_def wp_simps)
  have stepped: "Ok r \<and> connect_step req (directory_of sv) r (directory_of (fst t))"
    if "connected_as x n r t" "ks x = ks sv" "Get (ks sv) n \<noteq> None" for r :: "daemon_error Response" and t x
    using that by (auto simp: connected_as_def connect_step_def n_def Let_def)
  have gone: "fails req sv e t" if "fst t = no_session sv \<or> fst t = sv" for e :: daemon_error and t
    using that assms(2) by (auto simp: failed_step_def)
  have fresh: "wp (alone (fresh_connect E n key)) (\<lambda>r t. Ok r \<and> connect_step req (directory_of sv) r (directory_of (fst t)))
      (fails req sv) (\<lambda>_. True) t"
    if "fst t = no_session sv \<or> (fst t = sv \<and> sess sv = None)" "n \<noteq> []" "Get (ks sv) n \<noteq> None" for key t
  proof -
    obtain x w' where t: "t = (x, w')" by (cases t)
    have x: "server_ok x" "sess x = None" "ks x = ks sv" using that(1) assms(1) t by (auto simp: server_ok_def)
    show ?thesis
      unfolding t by (rule wp_mono [OF meets_fresh_connect [OF x(1,2) that(2)]])
        (use stepped [OF _ x(3) that(3)] gone that(1) t in auto)
  qed
  have view: "wp (statusViewLocked E) (\<lambda>v t. connect_step req (directory_of sv)
      (okResp\<lparr>RsConnected := Some v\<rparr> :: daemon_error Response) (directory_of (fst t))) X (\<lambda>_. True) (sv, w)"
    if "sess sv = Some old" "sessKey sv = n" "Get (ks sv) n \<noteq> None" for old X
  proof (rule wp_statusView)
    show "connect_step req (directory_of sv) (okResp\<lparr>RsConnected := Some (view_of sv d)\<rparr> :: daemon_error Response)
        (directory_of (fst (sv, tick w)))" for d
      using that(1,2) by (intro stepped [OF _ refl that(3), THEN conjunct2]) (auto simp: connected_as_def okResp_def view_of_def)
  qed simp
  have close: "wp (on_sess (Close E) old) (\<lambda>_ t. fst t = no_session sv) (\<lambda>_ t. fst t = no_session sv) (\<lambda>_. True) (no_session sv, w)"
    for old by (simp add: wp_on_sess) (rule wp_any; simp split: prod.split)
  show ?thesis
    unfolding doConnect_def wp_alone_bind start
  proof (cases "n = [] \<or> Get (ks sv) n = None")
    case False
    then obtain key where key: "Get (ks sv) n = Some key" "n \<noteq> []" by auto
    show "wp (alone (if n = [] then fail_with NoKeyGiven
       else bindT (atomic (reading (\<lambda>sv. Get (ks sv) n))) (\<lambda>found. case found of
         None \<Rightarrow> fail_with (NoSuchKey n)
       | Some key \<Rightarrow>
           bindT (atomic (connect_lock E n)) (\<lambda>current. case current of
             Inl view \<Rightarrow> done_with (okResp\<lparr>RsConnected := Some view\<rparr>)
           | Inr None \<Rightarrow> fresh_connect E n key
           | Inr (Some old) \<Rightarrow>
               bindT (atomic (mapE SwitchFailed (on_sess (Close E) old))) (\<lambda>_. fresh_connect E n key)))))
      (\<lambda>r t. Ok r \<and> connect_step req (directory_of sv) r (directory_of (fst t))) (fails req sv) (\<lambda>_. True) (sv, w)"
    proof (cases "sess sv")
      case None
      show ?thesis using key fresh [of "(sv, w)" key] None
        by (simp add: wp_alone_bind wp_alone_atomic wp_reading connect_lock_def wp_with_server wp_ret)
    next
      case (Some old)
      show ?thesis
      proof (cases "sessKey sv = n")
        case True
        show ?thesis using key Some True
          by (auto simp: wp_alone_bind wp_alone_atomic wp_alone_done wp_reading connect_lock_def wp_with_server wp_bind wp_ret
              okResp_def [THEN arg_cong [where f = Ok]] intro!: wp_mono [OF view [OF Some True]])
      next
        case False
        show ?thesis using key Some False
          by (auto simp: wp_alone_bind wp_alone_atomic wp_alone_done wp_reading connect_lock_def wp_with_server wp_bind wp_ret
              wp_take_session wp_mapE intro!: wp_mono [OF close] fresh gone)
      qed
    qed
  qed (auto simp: wp_alone_bind wp_alone_atomic wp_alone_fail wp_reading)
qed

lemma wp_alone_if: "(b \<Longrightarrow> wp (alone p) Q X D s) \<Longrightarrow> (\<not> b \<Longrightarrow> wp (alone q) Q X D s) \<Longrightarrow>
    wp (alone (if b then p else q)) Q X D s"
  by simp

lemma dispatch_refines:
  assumes "stored sv"
  shows "wp (alone (dispatch E req)) (\<lambda>r t. daemon_spec req (directory_of sv) r (directory_of (fst t)))
     (\<lambda>_ _. False) (\<lambda>_. True) (sv, w)"
proof -
  have ok: "server_ok sv" by (rule stored_ok(1) [OF assms])
  let ?ret = "\<lambda>r t. daemon_spec req (directory_of sv) r (directory_of (fst t))"
  let ?err = "\<lambda>e t. daemon_spec req (directory_of sv) (errResp e) (directory_of (fst t))"
  have served: "wp (alone p) ?ret ?err (\<lambda>_. True) (sv, w)"
    if "wp (alone p) (\<lambda>r t. Ok r \<and> S r t) (fails req sv) (\<lambda>_. True) (sv, w)"
      "\<And>r t. Ok r \<Longrightarrow> S r t \<Longrightarrow> ?ret r t" for p :: handler and S
  proof (rule wp_mono [OF that(1)])
    show "?ret r t" if "Ok r \<and> S r t" for r t using that \<open>\<And>r t. Ok r \<Longrightarrow> S r t \<Longrightarrow> ?ret r t\<close> by blast
    show "?err e t" if "fails req sv e t" for e t
      using that by (simp add: daemon_spec_def errResp_def zero_response_def)
  qed simp
  note spec = daemon_spec_def method_names
  have hList: "wp (alone doList) ?ret ?err (\<lambda>_. True) (sv, w)" if "Method req = MethodList"
    by (rule served [OF meets_list [OF ok]]) (simp add: spec that)
  have hAdd: "wp (alone (doAdd E req)) ?ret ?err (\<lambda>_. True) (sv, w)" if "Method req = MethodAdd"
    by (rule served [OF meets_add [OF ok that]]) (simp add: spec that)
  have hRemove: "wp (alone (doRemove E req)) ?ret ?err (\<lambda>_. True) (sv, w)" if "Method req = MethodRemove"
    by (rule served [OF meets_remove [OF ok]]) (simp add: spec that)
  have hRename: "wp (alone (doRename E req)) ?ret ?err (\<lambda>_. True) (sv, w)" if "Method req = MethodRename"
    by (rule served [OF meets_rename [OF assms]]) (simp add: spec that)
  have hUse: "wp (alone (doUse E req)) ?ret ?err (\<lambda>_. True) (sv, w)" if "Method req = MethodUse"
    by (rule served [OF meets_use [OF ok]]) (simp add: spec that)
  have hConnect: "wp (alone (doConnect E req)) ?ret ?err (\<lambda>_. True) (sv, w)" if "Method req = MethodConnect"
    by (rule served [OF meets_connect [OF ok that]]) (simp add: spec that)
  have hDisconnect: "wp (alone (doDisconnect E)) ?ret ?err (\<lambda>_. True) (sv, w)" if "Method req = MethodDisconnect"
    by (rule served [OF meets_quiet(2) [OF ok that]]) (simp add: spec that)
  have hStatus: "wp (alone (doStatus E)) ?ret ?err (\<lambda>_. True) (sv, w)" if "Method req = MethodStatus"
    by (rule served [OF meets_quiet(1) [OF ok]]) (simp add: spec that)
  have hUndo: "wp (alone (doUndo E)) ?ret ?err (\<lambda>_. True) (sv, w)" if "Method req = MethodUndo"
    by (rule served [OF meets_quiet(3) [OF ok that]]) (simp add: spec that)
  have ping: "wp (alone (done_with okResp)) ?ret ?err (\<lambda>_. True) (sv, w)" if "Method req = MethodPing"
    using that by (simp add: wp_alone_done spec)
  have unknown: "wp (alone (fail_with e)) ?ret ?err (\<lambda>_. True) (sv, w)" for e
    by (simp add: wp_alone_fail daemon_spec_def errResp_def zero_response_def)
  show ?thesis
    unfolding dispatch_def wp_alone_catch
    by (intro wp_alone_if ping hList hAdd hRemove hRename hUse hConnect hDisconnect hStatus hUndo unknown)
qed


section \<open>Refinement\<close>

text \<open>C7. The daemon implements its contract. A request handled to its end takes the daemon from
  one state that stands for a directory to another, and what it answers and what has become of
  the keys, the active name and the connected key is a step of the abstract machine: under every
  pattern of failing calls, refused sessions and failed reverts.\<close>

theorem daemon_refines_directory:
  assumes "stored sv"
    "alone (dispatch E req :: (server \<times> world, 'x, daemon_error Response) thread) (sv, w) = (Ret resp, (sv', w'))"
  shows "stored sv' \<and> daemon_spec req (directory_of sv) resp (directory_of sv')"
proof -
  have "wp (alone (dispatch E req :: (server \<times> world, 'x, daemon_error Response) thread))
      (\<lambda>r t. stored_at t \<and> daemon_spec req (directory_of sv) r (directory_of (fst t))) (\<lambda>_ _. False) (\<lambda>_. True) (sv, w)"
    by (rule wp_mono [OF wp_conj [OF stored_dispatch [OF assms(1)] dispatch_refines [OF assms(1)]]]) auto
  then show ?thesis using assms(2) by (simp add: wp_def)
qed

theorem daemon_refines_directory_witness:
  "\<exists>resp sv' w'. alone (dispatch (ref_env (fail_at 3)) (zero_request\<lparr>Method := MethodRemove, RqName := ''a''\<rparr>)
        :: (server \<times> world, unit, daemon_error Response) thread) (demo_server, demo_world) = (Ret resp, (sv', w'))
     \<and> stored sv' \<and> daemon_spec (zero_request\<lparr>Method := MethodRemove, RqName := ''a''\<rparr>) (directory_of demo_server)
         resp (directory_of sv')"
proof -
  have "no_kill (ref_env (fail_at 3))" by (simp add: no_kill_def fail_at_def)
  then obtain resp sv' w' where run: "alone (dispatch (ref_env (fail_at 3)) (zero_request\<lparr>Method := MethodRemove, RqName := ''a''\<rparr>)
        :: (server \<times> world, unit, daemon_error Response) thread) (demo_server, demo_world) = (Ret resp, (sv', w'))"
    using dispatch_returns by (metis surj_pair)
  have "stored demo_server"
    using demo_paths(3) demo_store_wf by (simp add: stored_def server_ok_def demo_server_def demo_store_def)
  from daemon_refines_directory [OF this run] run show ?thesis by blast
qed

end
