(* ===== verification/ServerRace.thy ===== *)
theory ServerRace
  imports ServerSpec
begin

text \<open>
  What two handlers can do to each other. The mutex is free while \<open>doConnect\<close> starts the session,
  and the key store has its own; between the lookup of the key and the publication of the
  session another handler can remove the key, or undo.
\<close>

lemma status_returns:
  assumes "no_kill E"
  shows "\<exists>d. (statusViewLocked E :: (server \<times> world, 'x, StatusView) act) (sv, w) = (Ret (view_of sv d), (sv, tick w))"
proof -
  have "wp (statusViewLocked E :: (server \<times> world, 'x, StatusView) act) (\<lambda>v t. \<exists>d. v = view_of sv d \<and> t = (sv, tick w)) (\<lambda>_ _. False) (\<lambda>_. True) (sv, w)"
    by (rule wp_statusView) auto
  moreover have "wp (statusViewLocked E :: (server \<times> world, 'x, StatusView) act) (\<lambda>_ _. True) (\<lambda>_ _. True) (\<lambda>_. False) (sv, w)"
    by (rule keepsD [OF lives_statusView [OF assms]]) simp
  ultimately show ?thesis by (auto simp: wp_def split: prod.splits outcome.splits)
qed

abbreviation calm_env :: env where
  "calm_env \<equiv> ref_env no_faults"

lemma calm_env_facts: "no_kill calm_env" "\<forall>t. fate calm_env t = Proceed"
  by (simp_all add: no_kill_def no_faults_def)

definition url_b :: gostring where
  "url_b = ''ss://v@h''"

definition conf_b :: config where
  "conf_b = demo_config\<lparr>TransportURL := url_b\<rparr>"

lemma New_b: "New (session_config demo_flags url_b) = Inr (new_session conf_b)"
proof -
  have "ApplyDefaults (session_config demo_flags url_b) = conf_b"
    by (simp add: conf_b_def demo_config_def url_b_def session_config_def ApplyDefaults_def zero_config_def or_default_def
        main_config_def)
  moreover have "Validate conf_b = Inr ()"
    unfolding Validate_ok by (simp add: conf_b_def url_b_def demo_config_sel)
  ultimately show ?thesis by (simp add: New_def new_session_def)
qed

lemma resolves_b: "resolveShadowsocksServerIPv4 calm_env url_b = Inr ''1.1.1.1''"
proof -
  have "trim_space ''ss://v@h'' = ''ss://v@h''"
    by (rule trim_space_id) (simp_all add: is_space_def)
  then show ?thesis by (simp add: resolveShadowsocksServerIPv4_def url_b_def ref_env_def)
qed

lemma usable_b: "usable calm_env conf_b ''1.1.1.1''"
  using demo_usable [of no_faults] resolves_b unfolding usable_def conf_b_def
  by (simp add: ref_env_def del: One_nat_def)

text \<open>The keys file and its temporary files are in nobody's way.\<close>

lemma b_starts:
  assumes "same_but (key_files demo_server) demo_world w"
  shows "\<exists>sw. Start calm_env (new_session conf_b, w) = (Ret (), sw)"
proof -
  have temp: "p \<in> key_files demo_server \<Longrightarrow> p = ''/e/keys.json'' \<or> (\<exists>r. p = ''/e/.keys.'' @ r @ ''.tmp'')" for p
    by (auto simp: key_files_def demo_server_def demo_store_def key_temps_def demo_paths)
  have same: "fs w p = fs demo_world p" if "\<And>r. p \<noteq> ''/e/.keys.'' @ r @ ''.tmp''" "p \<noteq> ''/e/keys.json''" for p
    using assms temp [of p] that by (auto simp: same_but_def)
  have rest: "net w = net demo_world" "sysctls w = sysctls demo_world" using assms by (simp_all add: same_but_def)
  have clean: "host_clean conf_b w"
    using demo_clean unfolding conf_b_def
    by (simp add: host_clean_def same rest demo_config_sel snap_path_def resolv_tmp_def SnapshotFile_def filepath_join_def)
  have "tidy demo_config w"
    using demo_tidy
    by (simp add: tidy_def own_files_def own_dirs_def same demo_config_sel snap_path_def resolv_tmp_def
        backup_path_def filepath_join_def BackupSubdir_def SnapshotFile_def)
  then have tidy: "tidy conf_b w" by (simp add: conf_b_def tidy_def own_files_def own_dirs_def)
  have ok: "config_ok conf_b" using demo_config_ok by (simp add: conf_b_def)
  have "\<exists>sw. Start calm_env (new_session conf_b, w) = (Ret (), sw) \<and> running calm_env conf_b w ''1.1.1.1'' sw"
    using Start_goes_through [OF New_b, unfolded new_session_cfg, OF ok ref_lawful clean tidy ref_smooth ref_obliging usable_b] .
  then show ?thesis by blast
qed


section \<open>A key that is removed while it is being connected\<close>

definition connect_b :: Request where
  "connect_b = zero_request\<lparr>Method := MethodConnect, RqName := ''b''\<rparr>"

definition remove_b :: Request where
  "remove_b = zero_request\<lparr>Method := MethodRemove, RqName := ''b''\<rparr>"

definition key_b :: key where
  "key_b = demo_key ''b'' url_b"

text \<open>What is left of \<open>doConnect\<close> when the key has been looked up.\<close>

definition after_lookup :: "(server \<times> world, unit, daemon_error Response) thread" where
  "after_lookup = catchT errResp (bindT (atomic (connect_lock calm_env ''b'')) (\<lambda>current. case current of
     Inl view \<Rightarrow> done_with (okResp\<lparr>RsConnected := Some view\<rparr>)
   | Inr None \<Rightarrow> fresh_connect calm_env ''b'' key_b
   | Inr (Some old) \<Rightarrow>
       bindT (atomic (mapE SwitchFailed (on_sess (Close calm_env) old))) (\<lambda>_. fresh_connect calm_env ''b'' key_b)))"

lemma connect_first_section:
  "\<exists>g. (dispatch calm_env connect_b :: (server \<times> world, unit, daemon_error Response) thread) = Atom g
     \<and> g (demo_server, demo_world) = (after_lookup, (demo_server, demo_world))"
proof -
  have get: "Get (ks demo_server) ''b'' = Some key_b"
    by (simp add: Get_def demo_server_def demo_store_def demo_key_def key_b_def url_b_def)
  have lookup: "bindT (atomic (reading f)) h = Atom (\<lambda>(sv, w). (h (f sv), (sv, w)))"
    for f :: "server \<Rightarrow> 'a" and h :: "'a \<Rightarrow> handler"
    by (simp add: bindT_def atomic_def reading_def with_server_def ret_def fun_eq_iff split: prod.split)
  have given: "bindT (done_with n) h = h n" for n :: gostring and h :: "gostring \<Rightarrow> handler"
    by (simp add: bindT_def done_with_def)
  show ?thesis
    by (simp add: dispatch_def connect_b_def zero_request_def method_names doConnect_def lookup get catchT_def
        after_lookup_def given)
qed

lemma remove_runs:
  "\<exists>k w. alone (dispatch calm_env remove_b :: (server \<times> world, unit, daemon_error Response) thread)
       (demo_server, demo_world) = (Ret okResp, (demo_server\<lparr>ks := k\<rparr>, w))
     \<and> Get k ''b'' = None \<and> same_but (key_files demo_server) demo_world w"
proof -
  let ?k = "set_state (\<lambda>st. st\<lparr>Keys := [demo_key ''a'' ''ss://u@h'']\<rparr>) demo_store"
  have k: "spath ?k = ''/e/keys.json''" "key_temps ?k = key_temps demo_store" by (simp_all add: demo_store_def key_temps_def)
  have "\<forall>m. fs demo_world (spath ?k) \<noteq> Some (Dir m)"
    "fs demo_world (filepath_dir (spath ?k) @ ''/'' @ ''.keys.'' @ rnd calm_env (Suc (clock demo_world)) @ ''.tmp'') = None"
    unfolding k demo_paths by (simp_all add: demo_world_def)
  moreover have temps: "spath ?k \<notin> key_temps ?k" using demo_paths(3) by (simp only: k) (simp add: demo_store_def)
  ultimately obtain w where w: "persist calm_env ?k demo_world = (Ret (), w)"
    using persist_succeeds [OF calm_env_facts(2)] by blast
  have "key_files demo_server = insert (spath ?k) (key_temps ?k)"
    unfolding k key_files_def by (simp add: demo_server_def demo_paths(1))
  with ks_file.commit_frame [OF temps w] have "same_but (key_files demo_server) demo_world w" by simp
  moreover have "Remove calm_env ''b'' (demo_store, demo_world) = (Ret (), (?k, w))"
  proof -
    have "commit_or calm_env ?k b () demo_world = (Ret (), (?k, w))" for b by (simp add: commit_or_def w)
    then show ?thesis by (simp add: Remove_def demo_store_def demo_key_def set_state_def remove_at_def)
  qed
  then have "on_ks (Remove calm_env ''b'') (demo_server, demo_world) = (Ret (), (demo_server\<lparr>ks := ?k\<rparr>, w))"
    by (simp add: on_ks_def mapE_def demo_server_def)
  then have "alone (dispatch calm_env remove_b :: (server \<times> world, unit, daemon_error Response) thread)
       (demo_server, demo_world) = (Ret okResp, (demo_server\<lparr>ks := ?k\<rparr>, w))"
    by (simp add: dispatch_def remove_b_def zero_request_def method_names doRemove_def catchT_def bindT_def
        atomic_def reading_def with_server_def ret_def demo_server_def done_with_def)
  moreover have "Get ?k ''b'' = None" by (simp add: Get_def demo_key_def)
  ultimately show ?thesis by blast
qed

lemma connect_goes_on:
  assumes "same_but (key_files demo_server) demo_world w" "Get k ''b'' = None"
  shows "\<exists>resp sv w'. alone after_lookup (demo_server\<lparr>ks := k\<rparr>, w) = (Ret resp, (sv, w'))
     \<and> Ok resp \<and> sess sv \<noteq> None \<and> sessKey sv = ''b'' \<and> ks sv = k"
proof -
  obtain s' w1 where start: "Start calm_env (new_session conf_b, w) = (Ret (), (s', w1))"
    using b_starts [OF assms(1)] by auto
  have conf: "New (session_config (scfg (demo_server\<lparr>ks := k\<rparr>)) (URL key_b)) = Inr (new_session conf_b)"
    using New_b by (simp add: demo_server_def key_b_def demo_key_def)
  have mark: "on_ks (MarkConnected calm_env ''b'') (sv, w2) = (Throw (KeystoreError (NoKeyNamed ''b'')), (sv, w2))"
    if "ks sv = k" for sv w2
    using assms(2) that by (simp add: on_ks_def mapE_def MarkConnected_def Get_def)
  define sv where "sv = demo_server\<lparr>ks := k, sess := Some s', sessKey := ''b'', sessSince := now calm_env (clock w1)\<rparr>"
  obtain d where view: "(statusViewLocked calm_env :: (server \<times> world, daemon_error, StatusView) act) (sv, w1)
      = (Ret (view_of sv d), (sv, tick w1))"
    using status_returns [OF calm_env_facts(1)] by blast
  have "sess (demo_server\<lparr>ks := k\<rparr>) = None" by (simp add: demo_server_def)
  then have "alone after_lookup (demo_server\<lparr>ks := k\<rparr>, w) = (Ret (okResp\<lparr>RsConnected := Some (view_of sv d)\<rparr>), (sv, tick w1))"
    using view mark [of sv] conf start
    by (simp add: after_lookup_def catchT_def bindT_def atomic_def connect_lock_def with_server_def ret_def
        fresh_connect_def reading_def mapE_def on_sess_def publish_def sv_def attempt_def done_with_def)
  moreover have "ks sv = k" "sess sv \<noteq> None" "sessKey sv = ''b''" by (simp_all add: sv_def)
  ultimately show ?thesis by (intro exI conjI) auto
qed


text \<open>C36. Concurrent requests can leave a session without a key. A daemon without a session is
  asked to connect \<open>b\<close>, and to remove \<open>b\<close> while the session is being started: both requests
  are answered ok, and the daemon is connected with a key that is no longer stored. (Handled
  one after the other, the second one is refused.)\<close>

theorem removed_key_stays_connected:
  "\<exists>P resp1 resp2. pool_reach (range (dispatch (ref_env no_faults)))
       \<lparr>threads = [], shared = (demo_server, demo_world)\<rparr> (P :: (server \<times> world, unit, daemon_error Response) pool)
     \<and> threads P = [Fin (Ret resp1), Fin (Ret resp2)] \<and> Ok resp1 \<and> Ok resp2
     \<and> sess (fst (shared P)) \<noteq> None \<and> Get (ks (fst (shared P))) (sessKey (fst (shared P))) = None"
proof -
  let ?T = "range (dispatch calm_env) :: (server \<times> world, unit, daemon_error Response) thread set"
  let ?reach = "pool_reach ?T" and ?s0 = "(demo_server, demo_world)"
  obtain g where g: "(dispatch calm_env connect_b :: (server \<times> world, unit, daemon_error Response) thread) = Atom g"
    "g ?s0 = (after_lookup, ?s0)" using connect_first_section by blast
  obtain k w where rem: "alone (dispatch calm_env remove_b :: (server \<times> world, unit, daemon_error Response) thread) ?s0
      = (Ret okResp, (demo_server\<lparr>ks := k\<rparr>, w))" "Get k ''b'' = None" "same_but (key_files demo_server) demo_world w"
    using remove_runs by blast
  obtain resp sv w' where con: "alone after_lookup (demo_server\<lparr>ks := k\<rparr>, w) = (Ret resp, (sv, w'))" "Ok resp"
    "sess sv \<noteq> None" "sessKey sv = ''b''" "ks sv = k"
    using connect_goes_on [OF rem(3,2)] by blast
  have "?reach \<lparr>threads = [], shared = ?s0\<rparr> \<lparr>threads = [] @ [Atom g], shared = ?s0\<rparr>"
    by (rule pool_arrives) (simp_all add: g(1) [symmetric])
  moreover have "pool_step ?T \<lparr>threads = [Atom g], shared = ?s0\<rparr> (\<lparr>threads = [Atom g], shared = ?s0\<rparr>\<lparr>threads :=
      (threads \<lparr>threads = [Atom g], shared = ?s0\<rparr>)[0 := after_lookup], shared := ?s0\<rparr>)"
    by (rule pool_step.advance [where g = g]) (simp_all add: killed_def g(2))
  moreover have "after_lookup \<noteq> Fin Dead" by (simp add: after_lookup_def catchT_def bindT_def atomic_def)
  then have "?reach \<lparr>threads = [after_lookup], shared = ?s0\<rparr>
      \<lparr>threads = [after_lookup] @ [Fin (Ret okResp)], shared = (demo_server\<lparr>ks := k\<rparr>, w)\<rparr>"
    by (intro pool_request [OF _ _ rem(1)]) auto
  moreover have "?reach \<lparr>threads = [after_lookup, Fin (Ret okResp)], shared = (demo_server\<lparr>ks := k\<rparr>, w)\<rparr>
      \<lparr>threads = [after_lookup, Fin (Ret okResp)][0 := Fin (Ret resp)], shared = (sv, w')\<rparr>"
    by (rule pool_run [OF con(1)]) (auto simp: less_Suc_eq)
  ultimately have "?reach \<lparr>threads = [], shared = ?s0\<rparr> \<lparr>threads = [Fin (Ret resp), Fin (Ret okResp)], shared = (sv, w')\<rparr>"
    by simp (blast intro: pool_reach.further pool_reach_trans)
  then show ?thesis
    using con(2-5) rem(2) by (intro exI [of _ "\<lparr>threads = [Fin (Ret resp), Fin (Ret okResp)], shared = (sv, w')\<rparr>"]) auto
qed

end
