(* ===== verification/Cli.thy ===== *)
theory Cli
  imports Flags Rpc Session
begin

text \<open>
  The client (\<open>cmd/ouf\<close>): its command line, one function per subcommand, and the fallback of
  \<open>undo\<close> that runs the script itself. The daemon at the other end of the socket is a parameter,
  a reaction to what is written to it. What is printed is a list of chunks: text, the rows
  handed to the tabwriter, JSON values, and a time with the present for the time that has
  passed. The commands are called \<open>ouf_add\<close> and so on; the daemon has handlers of their names.
\<close>

section \<open>Surroundings\<close>

datatype cli_error = NoDaemon | NoDeadline | SendFailed codec_error | ReceiveFailed codec_error
  | DaemonError "gostring option" | WrongUsage gostring | ScriptMissing path | SudoMissing
  | CommandFailed run_error

text \<open>How a command ends early: \<open>os.Exit\<close>, or the error it returns.\<close>

datatype stop = Exit nat | Fail cli_error

datatype chunk = Say gostring | Table "gostring list list" | Json json | Since time time
  | Usage | Unknown gostring | Report cli_error | FallingBack cli_error

text \<open>Connecting: refused, a deadline that cannot be set, or a connection. \<open>broken\<close> says whether
  writing fails; the peer answers the lines it gets.\<close>

datatype 'p link = Refused | Undated | Linked bool "stream \<Rightarrow> 'p \<times> world \<Rightarrow> stream \<times> ('p \<times> world)"

record 'p desk =
  stdout :: "chunk list"
  stderr :: "chunk list"
  peer :: 'p
  machine :: world

type_synonym ('p, 'a) cli_act = "('p desk, stop, 'a) act"

record 'p setting =
  os :: env
  dial :: "path \<Rightarrow> 'p \<times> world \<Rightarrow> 'p link"
  euid :: nat
  sudo_allows :: bool
  \<comment> \<open>a program that is not the panic script, with the two variables it is given\<close>
  program :: "path \<Rightarrow> path \<Rightarrow> path \<Rightarrow> (world, nat, unit) act"
  ouf_version :: gostring

record options =
  socketPath :: path
  panicPath :: path

definition print :: "chunk \<Rightarrow> ('p, unit) cli_act" where
  "print c = (\<lambda>d. (Ret (), d\<lparr>stdout := stdout d @ [c]\<rparr>))"

definition warn :: "chunk \<Rightarrow> ('p, unit) cli_act" where
  "warn c = (\<lambda>d. (Ret (), d\<lparr>stderr := stderr d @ [c]\<rparr>))"

definition on_machine :: "(world, cli_error, 'a) act \<Rightarrow> ('p, 'a) cli_act" where
  "on_machine m = mapE Fail (\<lambda>d. case m (machine d) of (r, w) \<Rightarrow> (r, d\<lparr>machine := w\<rparr>))"

definition flags :: "(gostring \<times> flag_kind) list \<Rightarrow> gostring list \<Rightarrow> ('p, (gostring \<times> gostring) list \<times> gostring list) cli_act" where
  "flags formal args = (case parse_flags formal args of Parsed given rest \<Rightarrow> ret (given, rest) | FlagExit n \<Rightarrow> throw (Exit n))"

section \<open>Transport\<close>

definition send :: "'p setting \<Rightarrow> options \<Rightarrow> Request \<Rightarrow> ('p, gostring Response) cli_act" where
  "send S opts req = (\<lambda>d. case dial S (socketPath opts) (peer d, machine d) of
     Refused \<Rightarrow> (Throw (Fail NoDaemon), d)
   | Undated \<Rightarrow> (Throw (Fail NoDeadline), d)
   | Linked bad answer \<Rightarrow>
       (case WriteMessage (encode_request req) \<lparr>lines = [], broken = bad\<rparr> of
         (Inl e, _) \<Rightarrow> (Throw (Fail (SendFailed e)), d)
       | (Inr _, written) \<Rightarrow> (case answer written (peer d, machine d) of (got, (p, w)) \<Rightarrow>
           (let d' = d\<lparr>peer := p, machine := w\<rparr> in
            case fst (ReadMessage decode_response got) of
              Inl e \<Rightarrow> (Throw (Fail (ReceiveFailed e)), d')
            | Inr resp \<Rightarrow> if \<not> Ok resp then (Throw (Fail (DaemonError (Err resp))), d') else (Ret resp, d')))))"

section \<open>Printing\<close>

definition newline :: gostring where "newline = [CHR 10]"

definition ellipsis :: gostring where "ellipsis = map byte_of [0xE2, 0x80, 0xA6]"

definition em_dash :: gostring where "em_dash = map byte_of [0xE2, 0x80, 0x94]"

definition flag2 :: "bool \<Rightarrow> gostring" where
  "flag2 b = (if b then ''yes'' else [])"

definition truncate :: "gostring \<Rightarrow> nat \<Rightarrow> gostring" where
  "truncate s n = (if length s \<le> n then s else take (n - 1) s @ ellipsis)"

definition hostOfSS :: "gostring \<Rightarrow> gostring" where
  "hostOfSS u = (if \<not> has_prefix u ''ss://'' then ''?''
     else (case last_index_byte (drop 5 u) CHR ''@'' of
       None \<Rightarrow> ''?''
     | Some i \<Rightarrow> (let rest = drop (i + 1) (drop 5 u) in
         case index_byte rest CHR ''#'' of None \<Rightarrow> rest | Some h \<Rightarrow> take h rest)))"

section \<open>Subcommands\<close>

definition ouf_add :: "'p setting \<Rightarrow> options \<Rightarrow> gostring list \<Rightarrow> ('p, unit) cli_act" where
  "ouf_add S opts args = bindA (flags [(''name'', StringFlag)] args) (\<lambda>(given, rest).
     if length rest \<noteq> 1 then throw (Fail (WrongUsage ''usage: ouf add <ss://...> [--name NAME]''))
     else bindA (send S opts \<lparr>Method = MethodAdd, RqURL = hd rest, SuggestedName = flag_value ''name'' [] given,
         RqName = [], NewName = []\<rparr>) (\<lambda>resp.
       case RsAdded resp of Some k \<Rightarrow> print (Say (''added '' @ KvName k @ newline)) | None \<Rightarrow> ret ()))"

definition list_row :: "KeyView \<Rightarrow> gostring list" where
  "list_row k = [KvName k, flag2 (KvActive k), flag2 (KvConnected k), truncate (KvLabel k) 24, hostOfSS (KvURL k)]"

definition ouf_list :: "'p setting \<Rightarrow> options \<Rightarrow> gostring list \<Rightarrow> ('p, unit) cli_act" where
  "ouf_list S opts args = bindA (flags [(''json'', BoolFlag)] args) (\<lambda>(given, _).
     bindA (send S opts (zero_request\<lparr>Method := MethodList\<rparr>)) (\<lambda>resp.
     if flag_set ''json'' given then print (Json (encode_response resp))
     else if RsKeys resp = [] then
       print (Say (''(no keys '' @ em_dash @ '' add one with 'ouf add ss://...')'' @ newline))
     else print (Table ([''NAME'', ''ACTIVE'', ''CONNECTED'', ''LABEL'', ''HOST''] # map list_row (RsKeys resp)))))"

definition ouf_remove :: "'p setting \<Rightarrow> options \<Rightarrow> gostring list \<Rightarrow> ('p, unit) cli_act" where
  "ouf_remove S opts args = (case args of
     [n] \<Rightarrow> bindA (send S opts (zero_request\<lparr>Method := MethodRemove, RqName := n\<rparr>)) (\<lambda>_.
       print (Say (''removed '' @ n @ newline)))
   | _ \<Rightarrow> throw (Fail (WrongUsage ''usage: ouf remove <name>'')))"

definition ouf_rename :: "'p setting \<Rightarrow> options \<Rightarrow> gostring list \<Rightarrow> ('p, unit) cli_act" where
  "ouf_rename S opts args = (case args of
     [a, b] \<Rightarrow> bindA (send S opts (zero_request\<lparr>Method := MethodRename, RqName := a, NewName := b\<rparr>)) (\<lambda>_.
       print (Say (''renamed '' @ a @ '' -> '' @ b @ newline)))
   | _ \<Rightarrow> throw (Fail (WrongUsage ''usage: ouf rename <old> <new>'')))"

definition ouf_use :: "'p setting \<Rightarrow> options \<Rightarrow> gostring list \<Rightarrow> ('p, unit) cli_act" where
  "ouf_use S opts args = (case args of
     [n] \<Rightarrow> bindA (send S opts (zero_request\<lparr>Method := MethodUse, RqName := n\<rparr>)) (\<lambda>_.
       print (Say (''active key set to '' @ n @ '' (not connecting)'' @ newline)))
   | _ \<Rightarrow> throw (Fail (WrongUsage ''usage: ouf use <name>'')))"

definition ouf_connect :: "'p setting \<Rightarrow> options \<Rightarrow> gostring list \<Rightarrow> ('p, unit) cli_act" where
  "ouf_connect S opts args = (let n = (case args of [] \<Rightarrow> [] | a # _ \<Rightarrow> a) in
     bindA (send S opts (zero_request\<lparr>Method := MethodConnect, RqName := n\<rparr>)) (\<lambda>resp.
     case RsConnected resp of
       Some v \<Rightarrow> print (Say (''connected: key='' @ SvKeyName v @ '' server='' @ SvServerIP v @ newline))
     | None \<Rightarrow> print (Say (''connected'' @ newline))))"

definition ouf_disconnect :: "'p setting \<Rightarrow> options \<Rightarrow> ('p, unit) cli_act" where
  "ouf_disconnect S opts = bindA (send S opts (zero_request\<lparr>Method := MethodDisconnect\<rparr>)) (\<lambda>_.
     print (Say (''disconnected; host state reverted'' @ newline)))"

definition ouf_status :: "'p setting \<Rightarrow> options \<Rightarrow> gostring list \<Rightarrow> ('p, unit) cli_act" where
  "ouf_status S opts args = bindA (flags [(''json'', BoolFlag)] args) (\<lambda>(given, _).
     bindA (send S opts (zero_request\<lparr>Method := MethodStatus\<rparr>)) (\<lambda>resp.
     if flag_set ''json'' given then
       print (Json (case RsStatus resp of None \<Rightarrow> JNull | Some v \<Rightarrow> encode_statusview v))
     else (case RsStatus resp of
       None \<Rightarrow> print (Say (''not connected'' @ newline))
     | Some v \<Rightarrow>
         if \<not> SvConnected v then seqA [print (Say (''not connected'' @ newline)),
           (if SvDirty v then print (Say (''WARNING: a dirty snapshot exists '' @ em_dash
              @ '' run 'ouf undo' to revert'' @ newline)) else ret ())]
         else seqA [print (Say (''connected'' @ newline)),
           print (Say (''  key:    '' @ SvKeyName v @ newline)),
           print (Say (''  server: '' @ SvServerIP v @ newline)),
           (\<lambda>d. print (Since (SvSince v) (now (os S) (clock (machine d)))) d)])))"

definition ouf_ping :: "'p setting \<Rightarrow> options \<Rightarrow> ('p, unit) cli_act" where
  "ouf_ping S opts = bindA (send S opts (zero_request\<lparr>Method := MethodPing\<rparr>)) (\<lambda>_. print (Say (''pong'' @ newline)))"

section \<open>Undo\<close>

text \<open>Starting a program with \<open>OUF_STATE_DIR\<close> and \<open>OUF_RESOLV_PATH\<close>. The script puts its
  defaults in place of empty values.\<close>

definition exec_with :: "'p setting \<Rightarrow> path \<Rightarrow> path \<Rightarrow> path \<Rightarrow> (world, run_error, unit) act" where
  "exec_with S script dir resolv = seqA [mapE ScriptNotStarted (os_fd_call (os S) script),
     mapE ScriptFailed (if script = panic_path (os S)
       then mapE exit_code (ouf_panic (os S) (if dir = [] then ''/var/lib/outline-fedora'' else dir)
              (if resolv = [] then ''/etc/resolv.conf'' else resolv))
       else program S script dir resolv)]"

definition ouf_runPanic :: "'p setting \<Rightarrow> path \<Rightarrow> path \<Rightarrow> path \<Rightarrow> (world, cli_error, unit) act" where
  "ouf_runPanic S script dir resolv = bindA (mapE (\<lambda>_. ScriptMissing script) (os_stat (os S) script)) (\<lambda>_.
     mapE CommandFailed (exec_with S script dir resolv))"

text \<open>\<open>sudo\<close> with two assignments and the script; when it refuses, its exit code is 1.\<close>

definition ouf_runViaSudo :: "'p setting \<Rightarrow> path \<Rightarrow> path \<Rightarrow> path \<Rightarrow> (world, cli_error, unit) act" where
  "ouf_runViaSudo S script dir resolv = (if \<not> have_tool (os S) ''sudo'' then throw SudoMissing
     else mapE CommandFailed (if sudo_allows S then exec_with S script dir resolv else throw (ScriptFailed 1)))"

definition ouf_undo :: "'p setting \<Rightarrow> options \<Rightarrow> gostring list \<Rightarrow> ('p, unit) cli_act" where
  "ouf_undo S opts args = bindA (flags [(''state-dir'', StringFlag), (''resolv'', StringFlag)] args) (\<lambda>(given, _).
     let dir = flag_value ''state-dir'' ''/var/lib/outline-fedora'' given;
         resolv = flag_value ''resolv'' ''/etc/resolv.conf'' given in
     bindA (\<lambda>d. case send S opts (zero_request\<lparr>Method := MethodUndo\<rparr>) d of
         (Throw (Fail e), d') \<Rightarrow> (Ret (Some e), d') | (Throw (Exit n), d') \<Rightarrow> (Throw (Exit n), d')
       | (Ret _, d') \<Rightarrow> (Ret None, d') | (Dead, d') \<Rightarrow> (Dead, d')) (\<lambda>failed. case failed of
       None \<Rightarrow> print (Say (''undo done via daemon'' @ newline))
     | Some e \<Rightarrow> seqA [warn (FallingBack e),
         on_machine (if euid S \<noteq> 0 then ouf_runViaSudo S (panicPath opts) dir resolv
           else ouf_runPanic S (panicPath opts) dir resolv)]))"

section \<open>The program\<close>

definition ouf_command :: "'p setting \<Rightarrow> options \<Rightarrow> gostring \<Rightarrow> gostring list \<Rightarrow> ('p, unit) cli_act" where
  "ouf_command S opts cmd rest =
     (if cmd \<in> {''help'', ''-h'', ''--help''} then warn Usage
      else if cmd = ''add'' then ouf_add S opts rest
      else if cmd \<in> {''list'', ''ls''} then ouf_list S opts rest
      else if cmd \<in> {''remove'', ''rm''} then ouf_remove S opts rest
      else if cmd \<in> {''rename'', ''mv''} then ouf_rename S opts rest
      else if cmd = ''use'' then ouf_use S opts rest
      else if cmd \<in> {''connect'', ''switch''} then ouf_connect S opts rest
      else if cmd \<in> {''disconnect'', ''down''} then ouf_disconnect S opts
      else if cmd = ''status'' then ouf_status S opts rest
      else if cmd = ''undo'' then ouf_undo S opts rest
      else if cmd = ''ping'' then ouf_ping S opts
      else seqA [warn (Unknown cmd), warn Usage, throw (Exit 2)])"

definition default_options :: options where
  "default_options = \<lparr>socketPath = SocketPathDefault, panicPath = ''/usr/local/sbin/ouf-panic''\<rparr>"

definition ouf_args :: "'p setting \<Rightarrow> gostring list \<Rightarrow> ('p, unit) cli_act" where
  "ouf_args S argv = bindA (flags [(''socket'', StringFlag), (''panic-script'', StringFlag), (''version'', BoolFlag)] argv)
     (\<lambda>(given, args).
       if flag_set ''version'' given then print (Say (''ouf '' @ ouf_version S @ newline))
       else (case args of
         [] \<Rightarrow> seqA [warn Usage, throw (Exit 2)]
       | cmd # rest \<Rightarrow> ouf_command S \<lparr>socketPath = flag_value ''socket'' (socketPath default_options) given,
           panicPath = flag_value ''panic-script'' (panicPath default_options) given\<rparr> cmd rest))"

text \<open>The exit code of \<open>ouf\<close>.\<close>

definition ouf_main :: "'p setting \<Rightarrow> gostring list \<Rightarrow> ('p desk, unit, nat) act" where
  "ouf_main S argv = (\<lambda>d. case ouf_args S argv d of
     (Ret _, d') \<Rightarrow> (Ret 0, d')
   | (Throw (Exit n), d') \<Rightarrow> (Ret n, d')
   | (Throw (Fail e), d') \<Rightarrow> (Ret 1, d'\<lparr>stderr := stderr d' @ [Report e]\<rparr>)
   | (Dead, d') \<Rightarrow> (Dead, d'))"

end
