(* ===== verification/ClientDaemon.thy ===== *)
theory ClientDaemon
  imports Cli ServerProps
begin

text \<open>
  The client and the daemon together, on one host: a sequence of \<open>ouf\<close> commands, each sent to
  the daemon if it is still there. The daemon may be killed while it handles any of them;
  \<open>undo\<close> then runs the script.
\<close>

section \<open>The socket\<close>

definition quiet :: stream where
  "quiet = \<lparr>lines = [], broken = False\<rparr>"

text \<open>What the daemon makes of a connection. If it dies, the client reads the end of the file,
  and the kernel closes the daemon's device.\<close>

definition daemon_answer :: "env \<Rightarrow> (daemon_error \<Rightarrow> gostring) \<Rightarrow> server_config \<Rightarrow> stream
    \<Rightarrow> server option \<times> world \<Rightarrow> stream \<times> (server option \<times> world)" where
  "daemon_answer E wording sc written = (\<lambda>(svo, w). case svo of
     None \<Rightarrow> (quiet, (None, w))
   | Some sv \<Rightarrow>
       (case alone (handle E wording \<lparr>inbox = written, outbox = quiet\<rparr> :: (server \<times> world, unit, conn) thread) (sv, w) of
         (Ret c, (sv', w')) \<Rightarrow> (outbox c, (Some sv', w'))
       | (Throw _, (sv', w')) \<Rightarrow> (quiet, (Some sv', w'))
       | (Dead, (_, w')) \<Rightarrow> (quiet, (None, reaped E (daemon_conf sc) w'))))"

definition daemon_dial :: "env \<Rightarrow> (daemon_error \<Rightarrow> gostring) \<Rightarrow> server_config \<Rightarrow> path
    \<Rightarrow> server option \<times> world \<Rightarrow> server option link" where
  "daemon_dial E wording sc p = (\<lambda>(svo, _).
     if svo = None \<or> p \<noteq> SocketPath sc then Refused else Linked False (daemon_answer E wording sc))"

text \<open>The client's calls do not fail; it runs as root, or is allowed to become root.\<close>

definition client_of :: "server option setting \<Rightarrow> env \<Rightarrow> (daemon_error \<Rightarrow> gostring) \<Rightarrow> server_config \<Rightarrow> bool" where
  "client_of S E wording sc \<longleftrightarrow> os S = with_fate E no_faults \<and> dial S = daemon_dial E wording sc
     \<and> (euid S = 0 \<or> have_tool E ''sudo'' \<and> sudo_allows S)"

section \<open>Between commands\<close>

text \<open>The script would give the host back.\<close>

definition script_ready :: "env \<Rightarrow> server_config \<Rightarrow> world \<Rightarrow> world \<Rightarrow> bool" where
  "script_ready E sc w0 w \<longleftrightarrow> script_installed E w \<and> (\<forall>n. \<exists>w'.
     ouf_panic (with_fate E no_faults) (SrvStateDir sc) (SrvResolvPath sc) (w\<lparr>clock := n\<rparr>) = (Ret (), w')
     \<and> found sc w0 w')"

definition standing :: "env \<Rightarrow> server_config \<Rightarrow> world \<Rightarrow> server option \<times> world \<Rightarrow> bool" where
  "standing E sc w0 = (\<lambda>(svo, w). case svo of
     None \<Rightarrow> script_ready E sc w0 w | Some sv \<Rightarrow> serving E sc w0 (sv, w))"

lemma installed_clock [simp]: "script_installed E (w\<lparr>clock := n\<rparr>) = script_installed E w"
  by (simp add: script_installed_def)

lemma found_ready:
  assumes "fair_host E sc w0" "found sc w0 w"
  shows "script_ready E sc w0 w"
proof -
  have c: "config_ok (daemon_conf sc)" and inst: "script_installed E w"
    using assms as_found_installed [OF assms(2)] by (auto simp: fair_host_def)
  have none: "fs w (snap_path (daemon_conf sc)) = None" using assms(2) by (simp add: as_found_def)
  have "ouf_panic (with_fate E no_faults) (SrvStateDir sc) (SrvResolvPath sc) (w\<lparr>clock := n\<rparr>) = (Ret (), tick (w\<lparr>clock := n\<rparr>))" for n
    using ouf_panic_no_snapshot [OF c, of "w\<lparr>clock := n\<rparr>" "with_fate E no_faults"] none
    by (simp add: daemon_conf_sel [OF assms(1)] no_faults_def prod_eq_iff)
  then show ?thesis using inst assms(2) by (simp add: script_ready_def)
qed

lemma lost_clock: "lost E sc w0 w \<Longrightarrow> lost E sc w0 (w\<lparr>clock := n\<rparr>)"
proof -
  have "recoverable E c w1 (w\<lparr>clock := n\<rparr>)" if "recoverable E c w1 w" for c w1
    by (rule recoverable_harmless [OF that]) simp
  then show "lost E sc w0 w \<Longrightarrow> lost E sc w0 (w\<lparr>clock := n\<rparr>)"
    by (auto simp: lost_def revertible_def untouched_def)
qed

lemma lost_installed:
  assumes "fair_host E sc w0" "lost E sc w0 w"
  shows "script_installed E w"
proof -
  obtain w1 where w1: "found sc w0 w1" "revertible E (daemon_conf sc) w1 w" using assms(2) by (auto simp: lost_def)
  have f: "script_installed E w1" "script_apart E (daemon_conf sc)" "config_ok (daemon_conf sc)" "panic_path E \<notin> daemon_files sc"
    "script_installed E w0"
    using assms(1) as_found_installed [OF w1(1)] by (auto simp: fair_host_def)
  have "script_installed E w" if "found sc w0 w" using as_found_installed [OF that] f by blast
  then show ?thesis
    using w1(2) script_stays [OF f(1,2)] as_found_restored [OF w1(1)] as_found_untouched [OF w1(1) _ f(3)]
    unfolding revertible_def by blast
qed

lemma lost_ready:
  assumes "fair_host E sc w0" "lost E sc w0 w"
  shows "script_ready E sc w0 (reaped E (daemon_conf sc) w)"
proof -
  have "(reaped E (daemon_conf sc) w)\<lparr>clock := n\<rparr> = reaped E (daemon_conf sc) (w\<lparr>clock := n\<rparr>)" for n
    by (simp add: reaped_def)
  moreover have "script_installed E (reaped E (daemon_conf sc) w)"
    using lost_installed [OF assms] by (simp add: script_installed_def reaped_def)
  ultimately show ?thesis
    using lost_daemon_reverts [OF assms(1) lost_clock [OF assms(2)], of "[]"] by (simp add: script_ready_def)
qed


section \<open>One exchange\<close>

definition undo_request :: Request where
  "undo_request = zero_request\<lparr>Method := MethodUndo\<rparr>"

lemma undo_ends_session:
  "wp (alone (dispatch E undo_request)) (\<lambda>_ t. sess (fst t) = None) (\<lambda>_ _. False) (\<lambda>_. True) svw"
proof -
  obtain sv w where svw: "svw = (sv, w)" by (cases svw)
  have run: "wp (on_host (RunPanicStandalone E (SrvStateDir (scfg x)) (SrvResolvPath (scfg x))))
      (\<lambda>_ t. sess (fst t) = None) (\<lambda>_ t. sess (fst t) = None) (\<lambda>_. True) (no_session sv, w)" for x
    by (simp add: wp_on_host) (rule wp_any; simp)
  have close: "wp (Close E) (\<lambda>_ (s', w'). True) (\<lambda>e (s', w'). True) (\<lambda>(s', w'). True) t" for t
    by (rule wp_any) auto
  show ?thesis
    unfolding svw dispatch_def undo_request_def wp_alone_catch
    by (auto simp: zero_request_def MethodUndo_def MethodPing_def MethodList_def MethodAdd_def MethodRemove_def
        MethodRename_def MethodUse_def MethodConnect_def MethodDisconnect_def MethodStatus_def
        doUndo_def wp_simps wp_on_sess intro!: wp_any run split: option.split)
qed

lemma daemon_answers_standing:
  assumes f: "fair_host E sc w0" and sv: "serving E sc w0 (sv, w)"
    and run: "daemon_answer E wording sc written (Some sv, w) = (got, (svo', w'))"
  shows "standing E sc w0 (svo', w')
    \<and> (fst (ReadMessage decode_request written) = Inr undo_request \<longrightarrow> (\<forall>sv'. svo' = Some sv' \<longrightarrow> sess sv' = None))
    \<and> (svo' = None \<longrightarrow> got = quiet)"
proof -
  let ?c = "\<lparr>inbox = written, outbox = quiet\<rparr>"
  let ?h = "handle E wording ?c :: (server \<times> world, unit, conn) thread"
  have "wp (alone ?h) (\<lambda>_. serving E sc w0) (\<lambda>_ _. False) (lost_at E sc w0) (sv, w)" by (rule serves_handle [OF f sv])
  moreover have "wp (alone ?h) (\<lambda>_ t. sess (fst t) = None) (\<lambda>_ _. False) (\<lambda>_. True) (sv, w)"
    if "fst (ReadMessage decode_request written) = Inr undo_request"
    using that
    by (auto simp: handle_def wp_alone_bind wp_alone_done split: prod.split sum.split
        intro!: wp_mono [OF undo_ends_session])
  ultimately show ?thesis
    using run lost_ready [OF f]
    by (auto simp: daemon_answer_def standing_def wp_def split: prod.splits outcome.splits)
qed


abbreviation stands :: "env \<Rightarrow> server_config \<Rightarrow> world \<Rightarrow> server option desk \<Rightarrow> bool" where
  "stands E sc w0 d \<equiv> standing E sc w0 (peer d, machine d)"

lemma undo_request_valid: "request_valid undo_request"
  by (simp add: undo_request_def request_valid_def zero_request_def MethodUndo_def ascii_valid_utf8 ascii_def)

lemma read_written: "request_valid req \<Longrightarrow>
    WriteMessage (encode_request req) \<lparr>lines = [], broken = False\<rparr> = (Inr (), \<lparr>lines = [Line (encode_request req)], broken = False\<rparr>)
    \<and> fst (ReadMessage decode_request \<lparr>lines = [Line (encode_request req)], broken = False\<rparr>) = Inr req"
  by (simp add: WriteMessage_def ReadMessage_def decode_encode_request)

lemma send_stands:
  assumes f: "fair_host E sc w0" and cl: "client_of S E wording sc" and d: "stands E sc w0 d"
    and run: "send S opts req d = (r, d')"
  shows "stands E sc w0 d' \<and> r \<noteq> Dead \<and> (\<forall>n. r \<noteq> Throw (Exit n))
    \<and> (req = undo_request \<and> socketPath opts = SocketPath sc \<longrightarrow>
        (peer d' = None \<longrightarrow> (\<exists>e. r = Throw (Fail e))) \<and> (\<forall>sv. peer d' = Some sv \<longrightarrow> sess sv = None))"
proof (cases "dial S (socketPath opts) (peer d, machine d)")
  case Refused
  then have "peer d = None \<or> socketPath opts \<noteq> SocketPath sc"
    using cl by (auto simp: client_of_def daemon_dial_def split: if_splits)
  then show ?thesis using run d Refused by (auto simp: send_def)
next
  case Undated
  then show ?thesis using cl by (auto simp: client_of_def daemon_dial_def split: if_splits)
next
  case (Linked bad answer)
  then obtain sv where sv: "peer d = Some sv" "bad = False" "answer = daemon_answer E wording sc"
    using cl by (auto simp: client_of_def daemon_dial_def split: if_splits)
  let ?out = "\<lparr>lines = [Line (encode_request req)], broken = False\<rparr>"
  obtain got svo' w' where ans: "daemon_answer E wording sc ?out (Some sv, machine d) = (got, (svo', w'))"
    by (metis surj_pair)
  have "serving E sc w0 (sv, machine d)" using d sv(1) by (simp add: standing_def)
  note after = daemon_answers_standing [OF f this ans]
  have d': "peer d' = svo'" "machine d' = w'" "r \<noteq> Dead" "\<And>n. r \<noteq> Throw (Exit n)"
    "got = quiet \<Longrightarrow> \<exists>e. r = Throw (Fail e)"
    using run ans sv Linked
    by (auto simp: send_def WriteMessage_def ReadMessage_def quiet_def Let_def split: sum.splits if_splits line.splits list.splits)
  have "req = undo_request \<longrightarrow> fst (ReadMessage decode_request ?out) = Inr undo_request"
    using read_written undo_request_valid by blast
  with after d' show ?thesis by simp
qed

section \<open>Commands\<close>

definition plain_command :: "gostring list \<Rightarrow> bool" where
  "plain_command argv \<longleftrightarrow> argv = [''undo''] \<or> (argv \<noteq> [] \<and> \<not> is_flag (hd argv) \<and> hd argv \<noteq> ''undo'')"

text \<open>Commands given one after another.\<close>

fun ouf_session :: "'p setting \<Rightarrow> gostring list list \<Rightarrow> 'p desk \<Rightarrow> 'p desk" where
  "ouf_session S [] d = d"
| "ouf_session S (argv # rest) d = ouf_session S rest (snd (ouf_main S argv d))"

abbreviation unmoved :: "env \<Rightarrow> server_config \<Rightarrow> world \<Rightarrow> (server option desk, 'e, 'a) act \<Rightarrow> bool" where
  "unmoved E sc w0 m \<equiv> keeps (stands E sc w0) (stands E sc w0) m"

lemma unmoved_print [keep_intros]:
  "unmoved E sc w0 (print c)" "unmoved E sc w0 (warn c)" "unmoved E sc w0 (flags formal args)"
  "unmoved E sc w0 (\<lambda>d. print (Since t (f d)) d)"
  by (auto simp: keeps_def wp_def print_def warn_def flags_def ret_def throw_def split: parsed.split)

lemma unmoved_send:
  assumes "fair_host E sc w0" "client_of S E wording sc"
  shows "unmoved E sc w0 (send S opts req)"
proof (rule keepsI)
  fix d assume d: "stands E sc w0 d"
  obtain r d' where run: "send S opts req d = (r, d')" by (metis surj_pair)
  from send_stands [OF assms d run] run
  show "wp (send S opts req) (\<lambda>_. stands E sc w0) (\<lambda>_. stands E sc w0) (stands E sc w0) d"
    by (simp add: wp_def split: outcome.split)
qed

lemma keeps_prod: "(\<And>a b. keeps I D (f a b)) \<Longrightarrow> keeps I D (case p of (a, b) \<Rightarrow> f a b)"
  by (simp split: prod.split)

lemma keeps_seq_Cons: "keeps I D m \<Longrightarrow> keeps I D (seqA ms) \<Longrightarrow> keeps I D (seqA (m # ms))"
  by (simp add: keeps_bind)

lemma keeps_seq_Nil: "keeps I D (seqA [])"
  by (simp add: keeps_ret)

lemma keeps_list: "keeps I D m \<Longrightarrow> (\<And>x xs. keeps I D (f x xs)) \<Longrightarrow> keeps I D (case ys of [] \<Rightarrow> m | x # xs \<Rightarrow> f x xs)"
  by (simp split: list.split)

lemmas command_steps = keeps_bind keeps_ret keeps_throw keeps_if keeps_cases(2) keeps_prod keeps_list
  keeps_seq_Cons keeps_seq_Nil unmoved_print

lemma unmoved_ouf:
  assumes "fair_host E sc w0" "client_of S E wording sc"
  shows "unmoved E sc w0 (ouf_add S opts args)" "unmoved E sc w0 (ouf_list S opts args)"
    "unmoved E sc w0 (ouf_remove S opts args)" "unmoved E sc w0 (ouf_rename S opts args)"
    "unmoved E sc w0 (ouf_use S opts args)" "unmoved E sc w0 (ouf_connect S opts args)"
    "unmoved E sc w0 (ouf_disconnect S opts)" "unmoved E sc w0 (ouf_status S opts args)"
    "unmoved E sc w0 (ouf_ping S opts)"
  unfolding ouf_add_def ouf_list_def ouf_remove_def ouf_rename_def ouf_use_def ouf_connect_def
    ouf_disconnect_def ouf_status_def ouf_ping_def Let_def
  by (intro command_steps unmoved_send [OF assms])+

lemma unmoved_command:
  assumes "fair_host E sc w0" "client_of S E wording sc" "cmd \<noteq> ''undo''"
  shows "unmoved E sc w0 (ouf_command S opts cmd rest)"
  unfolding ouf_command_def using assms(3)
  by (intro command_steps unmoved_ouf [OF assms(1,2)]) simp


lemma no_flags: "flag_value n v [] = v" "\<not> flag_set n []"
  by (simp_all add: flag_value_def flag_set_def parse_bool_def)

lemma ouf_args_plain: "\<not> is_flag cmd \<Longrightarrow> ouf_args S (cmd # rest) = ouf_command S default_options cmd rest"
  by (rule ext) (simp add: ouf_args_def flags_def parse_flags_positional bindA_def ret_def no_flags default_options_def)

lemma ouf_main_stands:
  assumes "fair_host E sc w0" "client_of S E wording sc" "\<not> is_flag cmd" "cmd \<noteq> ''undo''" "stands E sc w0 d"
  shows "stands E sc w0 (snd (ouf_main S (cmd # rest) d))"
  using keepsD [OF unmoved_command [OF assms(1,2,4)] assms(5), of default_options rest]
  by (auto simp: ouf_main_def ouf_args_plain [OF assms(3)] wp_def split: prod.splits outcome.splits stop.split)

text \<open>The fallback, wherever it is needed.\<close>

lemma fallback:
  assumes f: "fair_host E sc w0" and cl: "client_of S E wording sc" and ready: "script_ready E sc w0 w"
    and dirs: "SrvStateDir sc = dir" "SrvResolvPath sc = resolv" "dir \<noteq> []" "resolv \<noteq> []"
  shows "\<exists>w'. (if euid S \<noteq> 0 then ouf_runViaSudo S (panic_path E) dir resolv else ouf_runPanic S (panic_path E) dir resolv) w
      = (Ret (), w') \<and> found sc w0 w'"
proof -
  have os: "os S = with_fate E no_faults" using cl by (simp add: client_of_def)
  have tick: "os_fd_call (with_fate E no_faults) p w = (Ret (), tick w)" for p w
    by (simp add: os_fd_call_def sys_def no_faults_def)
  have stat: "\<exists>nd. os_stat (with_fate E no_faults) (panic_path E) w = (Ret nd, tick w)"
    using ready by (auto simp: script_ready_def script_installed_def os_stat_def sys_def no_faults_def follow_41)
  have exec: "\<exists>w'. exec_with S (panic_path E) dir resolv (w\<lparr>clock := n\<rparr>) = (Ret (), w') \<and> found sc w0 w'" for n
  proof -
    have "tick (w\<lparr>clock := n\<rparr>) = w\<lparr>clock := Suc n\<rparr>" by simp
    moreover obtain w' where "ouf_panic (with_fate E no_faults) dir resolv (w\<lparr>clock := Suc n\<rparr>) = (Ret (), w')" "found sc w0 w'"
      using ready dirs(1,2) by (auto simp: script_ready_def)
    ultimately show ?thesis
      by (intro exI [of _ w']) (simp add: exec_with_def os bindA_def mapE_def ret_def tick dirs(3,4))
  qed
  have now: "\<exists>w'. exec_with S (panic_path E) dir resolv w = (Ret (), w') \<and> found sc w0 w'"
    using exec [of "clock w"] by simp
  show ?thesis
  proof (cases "euid S = 0")
    case True
    obtain nd where "os_stat (with_fate E no_faults) (panic_path E) w = (Ret nd, tick w)" using stat by blast
    with True exec [of "Suc (clock w)"] show ?thesis
      by (auto simp: ouf_runPanic_def os bindA_def mapE_def)
  next
    case False
    with cl have "have_tool E ''sudo''" "sudo_allows S" by (auto simp: client_of_def)
    with False now show ?thesis by (auto simp: ouf_runViaSudo_def os mapE_def)
  qed
qed

lemma ouf_undo_works:
  assumes f: "fair_host E sc w0" and cl: "client_of S E wording sc" and d: "stands E sc w0 d"
    and dirs: "SrvStateDir sc = ''/var/lib/outline-fedora''" "SrvResolvPath sc = ''/etc/resolv.conf''"
    "SocketPath sc = SocketPathDefault" "panic_path E = ''/usr/local/sbin/ouf-panic''"
  shows "\<exists>d'. ouf_main S [''undo''] d = (Ret 0, d') \<and> found sc w0 (machine d') \<and> stands E sc w0 d'"
proof -
  obtain r d1 where sent: "send S default_options undo_request d = (r, d1)" by (metis surj_pair)
  have opts: "socketPath default_options = SocketPath sc" "panicPath default_options = panic_path E"
    using dirs by (simp_all add: default_options_def)
  note after = send_stands [OF f cl d sent]
  have gone: "peer d1 = None \<Longrightarrow> \<exists>e. r = Throw (Fail e)" and idle: "\<And>sv. peer d1 = Some sv \<Longrightarrow> sess sv = None"
    using after opts(1) by simp_all
  have returned: "found sc w0 (machine d1)" if "peer d1 = Some sv" for sv
    using after idle [OF that] that by (simp add: standing_def serving_def)
  have still: "stands E sc w0 (d1\<lparr>machine := w, stdout := o1, stderr := e1\<rparr>)" if "found sc w0 w" for w o1 e1
    using after idle that found_ready [OF f that] by (auto simp: standing_def serving_def split: option.splits)
  have main: "ouf_main S [''undo''] d = (case ouf_undo S default_options [] d of
       (Ret _, d') \<Rightarrow> (Ret 0, d') | (Throw (Exit n), d') \<Rightarrow> (Ret n, d')
     | (Throw (Fail e), d') \<Rightarrow> (Ret 1, d'\<lparr>stderr := stderr d' @ [Report e]\<rparr>) | (Dead, d') \<Rightarrow> (Dead, d'))"
    by (simp add: ouf_main_def ouf_args_plain is_flag_def ouf_command_def)
  have undo: "ouf_undo S default_options [] d = (case (r, d1) of
       (Throw (Fail e), d') \<Rightarrow> seqA [warn (FallingBack e), on_machine (if euid S \<noteq> 0
            then ouf_runViaSudo S (panic_path E) ''/var/lib/outline-fedora'' ''/etc/resolv.conf''
            else ouf_runPanic S (panic_path E) ''/var/lib/outline-fedora'' ''/etc/resolv.conf'')] d'
     | (Throw (Exit n), d') \<Rightarrow> (Throw (Exit n), d')
     | (Ret _, d') \<Rightarrow> print (Say (''undo done via daemon'' @ newline)) d' | (Dead, d') \<Rightarrow> (Dead, d'))"
    using sent [unfolded undo_request_def] opts(2)
    by (simp add: ouf_undo_def flags_def bindA_def ret_def no_flags split: outcome.split stop.split)
  show ?thesis
  proof (cases r)
    case (Ret resp)
    then obtain sv where "peer d1 = Some sv" using gone by (cases "peer d1") auto
    with returned still [of "machine d1"] Ret show ?thesis by (simp add: main undo print_def standing_def)
  next
    case (Throw x)
    then obtain e where e: "r = Throw (Fail e)" using after by (cases x) auto
    have "script_ready E sc w0 (machine d1)"
      using after returned found_ready [OF f] by (cases "peer d1") (auto simp: standing_def)
    from fallback [OF f cl this dirs(1,2)] obtain w' where w':
      "(if euid S \<noteq> 0 then ouf_runViaSudo S (panic_path E) ''/var/lib/outline-fedora'' ''/etc/resolv.conf''
        else ouf_runPanic S (panic_path E) ''/var/lib/outline-fedora'' ''/etc/resolv.conf'') (machine d1) = (Ret (), w')"
      "found sc w0 w'" by auto
    with still [OF w'(2)] e show ?thesis
      by (auto simp: main undo warn_def on_machine_def mapE_def bindA_def ret_def standing_def split: if_splits option.splits)
  qed (use after in simp)
qed

lemma ouf_session_stands:
  assumes "fair_host E sc w0" "client_of S E wording sc" "SrvStateDir sc = ''/var/lib/outline-fedora''"
    "SrvResolvPath sc = ''/etc/resolv.conf''" "SocketPath sc = SocketPathDefault" "panic_path E = ''/usr/local/sbin/ouf-panic''"
  shows "list_all plain_command cmds \<Longrightarrow> stands E sc w0 d \<Longrightarrow> stands E sc w0 (ouf_session S cmds d)"
proof (induction cmds arbitrary: d)
  case (Cons argv cmds)
  have "stands E sc w0 (snd (ouf_main S argv d))"
  proof (cases "argv = [''undo'']")
    case True
    then show ?thesis using ouf_undo_works [OF assms(1,2) Cons.prems(2) assms(3-6)] by auto
  next
    case False
    then obtain cmd rest where "argv = cmd # rest" "\<not> is_flag cmd" "cmd \<noteq> ''undo''"
      using Cons.prems(1) by (cases argv) (auto simp: plain_command_def)
    then show ?thesis using ouf_main_stands [OF assms(1,2) _ _ Cons.prems(2)] by simp
  qed
  with Cons show ?case by simp
qed simp

end
