(* ===== verification/SsTransport.thy ===== *)
theory SsTransport
  imports GoStr
begin

text \<open>
  The wrapper around the dialer of outline-sdk (\<open>internal/sstransport\<close>). The SDK is a parameter:
  \<open>build\<close> makes a dialer of a configuration URL or refuses it, and \<open>connect\<close> dials through one.
\<close>

record 'd Dialer =
  inner :: 'd
  url :: gostring

datatype 'e transport_error = EmptyURL | BuildDialer gostring 'e | DialVia gostring 'e

text \<open>The index of the first \<open>@\<close> is the loop's; a URL shorter than the scheme has no prefix.\<close>

definition redactSS :: "gostring \<Rightarrow> gostring" where
  "redactSS u = (if length u < 5 \<or> take 5 u \<noteq> ''ss://'' then ''<non-ss url>''
     else (case find_index (\<lambda>c. c = CHR ''@'') (drop 5 u) of
       None \<Rightarrow> ''ss://<redacted>''
     | Some i \<Rightarrow> ''ss://<redacted>@'' @ drop (i + 1) (drop 5 u)))"

definition NewDialer :: "(gostring \<Rightarrow> 'e + 'd) \<Rightarrow> gostring \<Rightarrow> 'e transport_error + 'd Dialer" where
  "NewDialer build ssURL = (if ssURL = [] then Inl EmptyURL
     else (case build ssURL of
       Inl e \<Rightarrow> Inl (BuildDialer (redactSS ssURL) e)
     | Inr d \<Rightarrow> Inr \<lparr>inner = d, url = ssURL\<rparr>))"

definition DialStream :: "('d \<Rightarrow> gostring \<Rightarrow> 'e + 'c) \<Rightarrow> 'd Dialer \<Rightarrow> gostring \<Rightarrow> 'e transport_error + 'c" where
  "DialStream connect d target = (case connect (inner d) target of
     Inl e \<Rightarrow> Inl (DialVia target e) | Inr c \<Rightarrow> Inr c)"

definition Inner :: "'d Dialer \<Rightarrow> 'd" where
  "Inner d = inner d"

lemma find_index_first:
  "\<forall>c \<in> set a. \<not> p c \<Longrightarrow> p x \<Longrightarrow> find_index p (a @ x # b) = Some (length a)"
  by (induction a) auto

lemma redactSS_first:
  assumes "CHR ''@'' \<notin> set a"
  shows "redactSS (''ss://'' @ a @ CHR ''@'' # b) = ''ss://<redacted>@'' @ b"
proof -
  have "find_index (\<lambda>c. c = CHR ''@'') (a @ CHR ''@'' # b) = Some (length a)"
    using assms by (intro find_index_first) auto
  moreover have "drop 5 (''ss://'' @ s) = s" "take 5 (''ss://'' @ s) = ''ss://''" "\<not> length (''ss://'' @ s) < 5" for s
    by (simp_all add: numeral_eq_Suc)
  ultimately show ?thesis by (simp only: redactSS_def) simp
qed

end
