(* ===== verification/CliProps.thy ===== *)
theory CliProps
  imports ClientDaemon SsTransport
begin

text \<open>
  What the client promises: its fallback, its command line, and what it shows of a key.
\<close>

lemma find_index_rev_last:
  "x \<notin> set b \<Longrightarrow> find_index (\<lambda>c. c = x) (rev (a @ x # b)) = Some (length b)"
  by (induction b rule: rev_induct) auto

lemma last_index_byte_last: "x \<notin> set b \<Longrightarrow> last_index_byte (a @ x # b) x = Some (length a)"
  using find_index_rev_last [of x b a] by (simp add: last_index_byte_def)

lemma default_dirs:
  "SrvStateDir (applyDefaults (main_config v)) = ''/var/lib/outline-fedora''"
  "SrvResolvPath (applyDefaults (main_config v)) = ''/etc/resolv.conf''"
  "SocketPath (applyDefaults (main_config v)) = SocketPathDefault"
  by (simp_all add: applyDefaults_def main_config_def or_default_def SocketPathDefault_def)


text \<open>C39. The documented form of \<open>ouf add\<close> with a name does not work: flags end at the first
  argument that is none, so \<open>--name\<close> after the URL makes three arguments, and the usage is
  printed without the daemon being asked.\<close>

theorem documented_add_is_refused:
  assumes "\<not> is_flag u"
  shows "ouf_main S [''add'', u, ''--name'', n] d
    = (Ret 1, d\<lparr>stderr := stderr d @ [Report (WrongUsage ''usage: ouf add <ss://...> [--name NAME]'')]\<rparr>)"
proof -
  have "ouf_add S default_options [u, ''--name'', n] d
      = (Throw (Fail (WrongUsage ''usage: ouf add <ss://...> [--name NAME]'')), d)"
    by (simp add: ouf_add_def flags_def parse_flags_positional [OF assms] bindA_def ret_def throw_def)
  then show ?thesis
    by (simp add: ouf_main_def ouf_args_plain is_flag_def ouf_command_def)
qed

theorem documented_add_is_refused_witness:
  "\<forall>d. ouf_main \<lparr>os = ref_env no_faults, dial = \<lambda>_ _. Refused, euid = 0, sudo_allows = False, program = \<lambda>_ _ _. ret (),
       ouf_version = ''dev''\<rparr> [''add'', ''ss://u@h'', ''--name'', ''home''] d
    = (Ret 1, d\<lparr>stderr := stderr d @ [Report (WrongUsage ''usage: ouf add <ss://...> [--name NAME]'')]\<rparr>)"
  by (rule allI, rule documented_add_is_refused) (simp add: is_flag_def)

lemma hostOfSS_last:
  assumes "CHR ''@'' \<notin> set b"
  shows "hostOfSS (''ss://'' @ a @ CHR ''@'' # b)
    = (case index_byte b CHR ''#'' of None \<Rightarrow> b | Some i \<Rightarrow> take i b)"
proof -
  have "drop 5 (''ss://'' @ s) = s" "has_prefix (''ss://'' @ s) ''ss://''" for s
    by (simp_all add: has_prefix_def numeral_eq_Suc)
  then show ?thesis
    by (simp only: hostOfSS_def last_index_byte_last [OF assms]) simp
qed

lemma label_cut: "CHR ''#'' \<notin> set h \<Longrightarrow> index_byte (h @ CHR ''#'' # label) CHR ''#'' = Some (length h)"
  unfolding index_byte_def by (rule find_index_first) auto

text \<open>C40. What is shown of a credential. The host column of \<open>ouf list\<close> hides it, whatever bytes
  it has, and shows the host, as long as there is no \<open>@\<close> behind it. The dialer's error messages
  cut at the first \<open>@\<close>: they hide a credential without one, but of another print what follows.\<close>

theorem what_is_shown_of_a_credential:
  assumes "CHR ''@'' \<notin> set h" "CHR ''#'' \<notin> set h" "CHR ''@'' \<notin> set label" "CHR ''@'' \<notin> set c1"
  shows "hostOfSS (''ss://'' @ c1 @ ''@'' @ h @ ''#'' @ label) = h
     \<and> redactSS (''ss://'' @ c1 @ ''@'' @ h @ ''#'' @ label) = ''ss://<redacted>@'' @ h @ ''#'' @ label
     \<and> hostOfSS (''ss://'' @ c1 @ ''@'' @ c2 @ ''@'' @ h @ ''#'' @ label) = h
     \<and> redactSS (''ss://'' @ c1 @ ''@'' @ c2 @ ''@'' @ h @ ''#'' @ label) = ''ss://<redacted>@'' @ c2 @ ''@'' @ h @ ''#'' @ label"
proof -
  have tail: "CHR ''@'' \<notin> set (h @ ''#'' @ label)" using assms(1,3) by simp
  have "hostOfSS (''ss://'' @ a @ ''@'' @ h @ ''#'' @ label) = h" for a
    using hostOfSS_last [OF tail, of a] label_cut [OF assms(2), of label] by simp
  from this [of c1] this [of "c1 @ ''@'' @ c2"] show ?thesis
    using redactSS_first [OF assms(4), of "h @ ''#'' @ label"] redactSS_first [OF assms(4), of "c2 @ ''@'' @ h @ ''#'' @ label"]
    by simp
qed

theorem what_is_shown_of_a_credential_witness:
  "hostOfSS ''ss://u:p@ss@h:1#x'' = ''h:1'' \<and> redactSS ''ss://u:p@ss@h:1#x'' = ''ss://<redacted>@ss@h:1#x''"
  using what_is_shown_of_a_credential [of "''h:1''" "''x''" "''u:p''" "''ss''"] by simp

text \<open>A host with a daemon that has just started, and a client that runs as root.\<close>

definition demo_client :: "env \<Rightarrow> server option setting" where
  "demo_client E = \<lparr>os = with_fate E no_faults, dial = daemon_dial E (\<lambda>_. ''error'') demo_flags, euid = 0,
     sudo_allows = False, program = \<lambda>_ _ _. ret (), ouf_version = ''dev''\<rparr>"

definition demo_daemon :: server where
  "demo_daemon = \<lparr>scfg = demo_flags, ks = demo_store\<lparr>spath := ''/etc/outline-fedora/keys.json''\<rparr>, sess = None,
     sessKey = [], sessSince = 0\<rparr>"

definition demo_desk :: "server option desk" where
  "demo_desk = \<lparr>stdout = [], stderr = [], peer = Some demo_daemon, machine = demo_world\<rparr>"


end
