(* ===== verification/Spec2Isabelle.thy ===== *)
theory Spec2Isabelle
  imports KeystoreProps RecordProps ServerRace CliProps
begin

text \<open>
  A verification development for outline-fedora, a VPN client for Fedora. The root daemon
  \<open>oufdee\<close> keeps access keys and runs at most one VPN session; the client \<open>ouf\<close> sends it
  requests over a Unix socket; and the script \<open>ouf-panic\<close> puts the host back from a snapshot
  file, whoever calls it: the daemon when a session ends or fails to start, the client when
  the daemon does not answer, or the administrator. The question that runs through the
  development is whether the host always comes back: with any system call failing, with the
  process killed between any two of them, and with any order of requests.

  \<^bold>\<open>How the program is modelled.\<close> Strings are byte strings. The host is a record \<open>world\<close>: files
  with their modes, sysctl values, network state, clock. Code that may fail, and that may be
  killed, is an effect: a function from a state to an outcome (\<open>Ret\<close>, \<open>Throw\<close>, \<open>Dead\<close>) and a
  state. Every system call asks the environment's \<open>fate\<close> whether it goes through, fails, or is
  where the process dies; a killed write leaves the file cut short. The environment \<open>E\<close> is an
  argument of all definitions. It holds what is not in this repository: the kernel's network
  calls, outline-sdk, water, the resolver, \<open>jq\<close> and \<open>sha256sum\<close>. What is needed of them is
  named where it is used: \<open>lawful_kernel\<close>, \<open>smooth\<close>, \<open>obliging\<close>, \<open>usable\<close>. \<open>RefEnv\<close> and
  \<open>RefHost\<close> give one concrete environment and host in which all of these hold; the witnesses
  of the properties live there. Handlers of the daemon are threads, sequences of sections
  between two operations on the mutex; run one after the other they are effects, in a pool a
  scheduler interleaves them.

  \<^bold>\<open>Which theory models which code.\<close>

  \<^item> \<open>Prelude\<close>, \<open>GoStr\<close>, \<open>Json\<close>, \<open>Flags\<close>: what is used of Go's standard library: UTF-8
    decoding, the functions of \<open>strings\<close>, \<open>strconv\<close> and \<open>path\<close>, \<open>encoding/json\<close> at the level
    of values, and the parser of the \<open>flag\<close> package.
  \<^item> \<open>OsWorld\<close>, \<open>CrashLogic\<close>, \<open>RunLogic\<close>, \<open>Threads\<close>: the world, its system calls, effects, the
    weakest precondition with a condition for death, the logic of runs that go through, and
    threads. \<open>DurableFile\<close> is the contract (a locale) of replacing a file by rename.
  \<^item> \<open>Keyname\<close>, \<open>Keystore\<close>, \<open>KeystoreFacts\<close>, \<open>KeystoreProps\<close>:
    \<open>internal/keystore/keystore.go\<close>. The store is the record of \<open>State\<close> and its path.
  \<^item> \<open>Snapshot\<close>: \<open>internal/snapshot/snapshot.go\<close>, the snapshot's records, their JSON form, and
    the writer with its counter.
  \<^item> \<open>TunConfig\<close>: \<open>internal/tun/config.go\<close>, defaults and validation, with rule priorities and
    table numbers as integers.
  \<^item> \<open>Session\<close>: the other Linux files of \<open>internal/tun\<close>: \<open>New\<close>, \<open>Start\<close> (with
    \<open>start_record\<close>, the part before the first change, and \<open>start_mutate\<close>), the device, the
    routes and rules, \<open>resolv.conf\<close>, IPv6, \<open>Close\<close>, \<open>Wait\<close>, and running the script.
  \<^item> \<open>PanicScript\<close>: \<open>scripts/ouf-panic\<close>, stage by stage in its order.
  \<^item> \<open>Rpc\<close>: \<open>internal/rpc\<close>, the messages, their JSON form, and lines on the connection.
  \<^item> \<open>Server\<close>: \<open>cmd/oufdee\<close>, the server record, a handler per method, \<open>dispatch\<close>, connections,
    start, shutdown, and the command line (\<open>oufdee\<close>).
  \<^item> \<open>Cli\<close>: \<open>cmd/ouf\<close>, a function per subcommand, and \<open>ouf_main\<close>.
  \<^item> \<open>SsTransport\<close>: \<open>internal/sstransport\<close>. \<open>ClientDaemon\<close>: client and daemon on one host.

  \<^bold>\<open>What the lemmas show.\<close>

  \<^item> Keys: names are derived valid and fresh, and the search for one ends; names and URLs stay
    unique under every operation and fault; each operation has its meaning on the map from
    names to keys, a refused or failed one leaves that map alone; the file holds a complete
    state at every moment, and reopening it gives the store in memory.
  \<^item> The session: \<open>Recovery\<close> defines \<open>recoverable\<close>, the worlds from which the script can put the
    host back. \<open>GentleSteps\<close>, \<open>SessionFacts\<close>, \<open>SessionSteps\<close> and \<open>StartRecord\<close> show that every
    step of a session stays in it, \<open>ScriptReads\<close>, \<open>ScriptRuns\<close>, \<open>ScriptRestores\<close> and \<open>Revert\<close>
    that the script restores from there and that running it again after a failure is safe.
    \<open>SessionRuns\<close>, \<open>Lives\<close>, \<open>StartRuns\<close> and \<open>StartWorks\<close> join them to whole runs: a start that
    fails restores, one on a usable host succeeds, closing restores, and death at any point
    is recoverable. The properties are in \<open>SessionProps\<close>, \<open>SessionRound\<close> and \<open>RecordProps\<close>.
  \<^item> The daemon: \<open>ServerFacts\<close> has what every section keeps, hence every interleaving;
    \<open>ServerAlone\<close>, \<open>ServerHost\<close>, \<open>ServerRounds\<close> and \<open>ServerLives\<close> follow requests handled one
    after the other, from the start of the daemon to its end. \<open>ServerSpec\<close> is the abstract
    machine the daemon refines: a map of keys, the active one, the connected one.
    \<open>ServerRace\<close> runs two handlers at once and shows where the guarantees of single requests
    end. The properties are in \<open>ServerProps\<close>.
  \<^item> The client: \<open>ouf undo\<close> gives the host back whether the daemon lives, dies while it
    answers, or is gone; what the command line accepts; what is shown of a credential.

  \<^bold>\<open>Bounds and fuel.\<close> \<open>Stat\<close> and opening for reading look at 41
  names at most, that is, follow 40 symbolic links, the limit of Linux; a longer chain or a cycle is
  an error there as here. The search for a free name tries numbers up to 9999 as the code does; with
  at most \<open>maxKeys\<close> keys in the store it always ends below that
  (\<open>name_search_ends\<close>), so the branch behind it is dead. All other recursion is
  structural. The loop that serves connections is a fold over the list of connections, one
  connection a list of lines: a run of the daemon is as long as its input.

  \<^bold>\<open>What is abstracted.\<close> A document is a tree of JSON values instead of bytes,
  except that a cut-short write is unreadable; error values keep what the code wraps, and turn to
  text by a parameter; the script's many \<open>jq\<close> calls are one read of the snapshot each
  stage looks into, and a write through \<open>/proc/sys\<close> is one call; the socket is a file
  that exists while the daemon listens; a path that is opened for writing or whose mode is set is no
  symbolic link (all of them are the program's own files), else the call fails; \<open>Start\<close>
  and \<open>Close\<close> are one section each in a pool of threads; rows are given to
  \<open>tabwriter\<close> and not laid out; processes share one clock.

  \<^bold>\<open>Not modelled.\<close> The packets moved by the two copying goroutines of a session, whose end shows
  as the end of \<open>Wait\<close>; time-outs, deadlines and signals other than a kill; log lines and the
  help text; the script's dry-run mode; \<open>internal/tun/session_other.go\<close>, a stub for other
  systems; build, packaging and service files; the tests.
\<close>

end
